(* ===== verification/Go_Prelude.thy ===== *)
theory Go_Prelude
  imports Main "HOL-Library.AList" "HOL-Library.Sublist"
begin

text \<open>
  Shared vocabulary of the development: the Go built-in types and the pieces
  of the Go standard library that the modelled packages use.

  \<^item> A Go map is an association list with distinct keys.  The position of a
    key in the list is the order in which a \<^verbatim>\<open>for range\<close> loop would visit it;
    Go leaves that order open, so every theorem about such a loop is stated
    for every list that represents the map.
  \<^item> A Go string and a byte slice are both a list of bytes.
  \<^item> A \<^verbatim>\<open>time.Time\<close> and a \<^verbatim>\<open>time.Duration\<close> are integers counting nanoseconds.
  \<^item> A call that may fail returns \<^typ>\<open>'e + 'a\<close> with the error on the left.
\<close>

section \<open>Types\<close>

type_synonym time = int
type_synonym bytes = string
type_synonym ('k, 'v) gomap = "('k \<times> 'v) list"
type_synonym header = "(string, string list) gomap"

datatype json =
    JNull
  | JBool bool
  | JNum int
  | JStr string
  | JArr "json list"
  | JObj "(string \<times> json) list"

named_theorems gomap "laws of the map operations"
named_theorems gostring "laws of the string operations"

section \<open>Maps\<close>

abbreviation gm_get :: "('k, 'v) gomap \<Rightarrow> 'k \<Rightarrow> 'v option" where
  "gm_get m k \<equiv> map_of m k"

abbreviation gm_put :: "'k \<Rightarrow> 'v \<Rightarrow> ('k, 'v) gomap \<Rightarrow> ('k, 'v) gomap" where
  "gm_put k v m \<equiv> AList.update k v m"

abbreviation gm_del :: "'k \<Rightarrow> ('k, 'v) gomap \<Rightarrow> ('k, 'v) gomap" where
  "gm_del k m \<equiv> AList.delete k m"

abbreviation gm_keys :: "('k, 'v) gomap \<Rightarrow> 'k list" where
  "gm_keys m \<equiv> map fst m"

abbreviation gm_ok :: "('k, 'v) gomap \<Rightarrow> bool" where
  "gm_ok m \<equiv> distinct (gm_keys m)"

text \<open>A map read as a Go map read: the zero value when the key is absent.\<close>
definition gm_get_or :: "'v \<Rightarrow> ('k, 'v) gomap \<Rightarrow> 'k \<Rightarrow> 'v" where
  "gm_get_or z m k = (case gm_get m k of None \<Rightarrow> z | Some v \<Rightarrow> v)"

section \<open>Searching\<close>

text \<open>The index of the last element that satisfies a predicate: the loops
  that walk a slice from its end and break at the first match.\<close>
fun find_last_from :: "nat \<Rightarrow> ('a \<Rightarrow> bool) \<Rightarrow> 'a list \<Rightarrow> nat option" where
  "find_last_from i P [] = None"
| "find_last_from i P (x # xs) =
     (case find_last_from (Suc i) P xs of
        Some j \<Rightarrow> Some j
      | None \<Rightarrow> if P x then Some i else None)"

definition find_last :: "('a \<Rightarrow> bool) \<Rightarrow> 'a list \<Rightarrow> nat option" where
  "find_last P xs = find_last_from 0 P xs"

fun index_from :: "nat \<Rightarrow> 'a \<Rightarrow> 'a list \<Rightarrow> nat option" where
  "index_from i y [] = None"
| "index_from i y (x # xs) = (if x = y then Some i else index_from (Suc i) y xs)"

section \<open>Strings\<close>

text \<open>\<^verbatim>\<open>strings.Split\<close> with a one-byte separator.\<close>
fun split_on :: "char \<Rightarrow> string \<Rightarrow> string list" where
  "split_on c [] = [[]]"
| "split_on c (x # xs) =
     (if x = c then [] # split_on c xs
      else (case split_on c xs of [] \<Rightarrow> [[x]] | w # ws \<Rightarrow> (x # w) # ws))"

text \<open>\<^verbatim>\<open>strings.Join\<close>.\<close>
fun join_with :: "string \<Rightarrow> string list \<Rightarrow> string" where
  "join_with sep [] = []"
| "join_with sep [w] = w"
| "join_with sep (w # v # ws) = w @ sep @ join_with sep (v # ws)"

text \<open>\<^verbatim>\<open>strings.IndexByte\<close> and \<^verbatim>\<open>strings.LastIndexByte\<close>; None is Go's -1.\<close>
definition index_byte :: "char \<Rightarrow> string \<Rightarrow> nat option" where
  "index_byte c s = index_from 0 c s"

definition last_index_byte :: "char \<Rightarrow> string \<Rightarrow> nat option" where
  "last_index_byte c s = find_last (\<lambda>x. x = c) s"

abbreviation has_prefix :: "string \<Rightarrow> string \<Rightarrow> bool" where
  "has_prefix s p \<equiv> prefix p s"

abbreviation has_suffix :: "string \<Rightarrow> string \<Rightarrow> bool" where
  "has_suffix s p \<equiv> suffix p s"

definition trim_prefix :: "string \<Rightarrow> string \<Rightarrow> string" where
  "trim_prefix s p = (if prefix p s then drop (length p) s else s)"

definition trim_suffix :: "string \<Rightarrow> string \<Rightarrow> string" where
  "trim_suffix s p = (if suffix p s then take (length s - length p) s else s)"

text \<open>\<^verbatim>\<open>strings.Contains\<close>.\<close>
fun contains_sub :: "string \<Rightarrow> string \<Rightarrow> bool" where
  "contains_sub [] p = (p = [])"
| "contains_sub (x # xs) p = (prefix p (x # xs) \<or> contains_sub xs p)"

definition lower_char :: "char \<Rightarrow> char" where
  "lower_char c = (let n = (of_char c :: nat) in
     if 65 \<le> n \<and> n \<le> 90 then char_of (n + 32) else c)"

text \<open>\<^verbatim>\<open>strings.ToLower\<close> on the ASCII range.\<close>
definition to_lower :: "string \<Rightarrow> string" where
  "to_lower s = map lower_char s"

text \<open>\<^verbatim>\<open>strings.EqualFold\<close> on the ASCII range.\<close>
definition equal_fold :: "string \<Rightarrow> string \<Rightarrow> bool" where
  "equal_fold s t = (to_lower s = to_lower t)"

definition is_space :: "char \<Rightarrow> bool" where
  "is_space c = ((of_char c :: nat) \<in> {9, 10, 11, 12, 13, 32})"

text \<open>\<^verbatim>\<open>strings.TrimSpace\<close> on the ASCII range.\<close>
definition trim_space :: "string \<Rightarrow> string" where
  "trim_space s = rev (dropWhile is_space (rev (dropWhile is_space s)))"

definition digit_char :: "nat \<Rightarrow> char" where
  "digit_char d = char_of (48 + d)"

text \<open>\<^verbatim>\<open>strconv.Itoa\<close> on the non-negative integers.\<close>
fun itoa :: "nat \<Rightarrow> string" where
  "itoa n = (if n < 10 then [digit_char n] else itoa (n div 10) @ [digit_char (n mod 10)])"

declare itoa.simps [simp del]

definition is_digit :: "char \<Rightarrow> bool" where
  "is_digit c = (48 \<le> (of_char c :: nat) \<and> (of_char c :: nat) \<le> 57)"

definition digits_val :: "string \<Rightarrow> nat" where
  "digits_val s = foldl (\<lambda>a c. a * 10 + ((of_char c :: nat) - 48)) 0 s"

text \<open>\<^verbatim>\<open>strconv.Atoi\<close>: an optional sign and at least one digit.\<close>
definition atoi :: "string \<Rightarrow> int option" where
  "atoi s = (case s of
      [] \<Rightarrow> None
    | c # cs \<Rightarrow>
        (let ds = (if c = CHR ''-'' \<or> c = CHR ''+'' then cs else s) in
         if ds = [] \<or> \<not> list_all is_digit ds then None
         else let n = int (digits_val ds) in
              let v = (if c = CHR ''-'' then - n else n) in
              if - (2 ^ 63) \<le> v \<and> v < 2 ^ 63 then Some v else None))"

section \<open>HTTP headers\<close>

text \<open>\<^verbatim>\<open>http.Header\<close> with canonical keys: \<^verbatim>\<open>Get\<close> is the first value, \<^verbatim>\<open>Set\<close>
  replaces all values, \<^verbatim>\<open>Del\<close> removes the key.\<close>
definition hdr_get :: "header \<Rightarrow> string \<Rightarrow> string" where
  "hdr_get h k = (case gm_get h k of Some (v # _) \<Rightarrow> v | _ \<Rightarrow> '''')"

definition hdr_set :: "string \<Rightarrow> string \<Rightarrow> header \<Rightarrow> header" where
  "hdr_set k v h = gm_put k [v] h"

section \<open>Lemmas on maps\<close>

lemma gm_get_put [gomap, simp]: "gm_get (gm_put k v m) = (gm_get m)(k \<mapsto> v)"
  by (rule update_conv')

lemma gm_get_del [gomap, simp]: "gm_get (gm_del k m) = (gm_get m)(k := None)"
  by (rule delete_conv')

lemma gm_ok_put [gomap, intro, simp]: "gm_ok m \<Longrightarrow> gm_ok (gm_put k v m)"
  by (simp add: distinct_update)

lemma gm_ok_del [gomap, intro, simp]: "gm_ok m \<Longrightarrow> gm_ok (gm_del k m)"
  by (simp add: distinct_delete)

lemma gm_ok_filter [gomap, intro, simp]: "gm_ok m \<Longrightarrow> gm_ok (filter P m)"
  by (simp add: distinct_map_filter)

lemma gm_keys_put [gomap, simp]: "fst ` set (gm_put k v m) = insert k (fst ` set m)"
  by (induction m) auto

lemma gm_keys_del [gomap, simp]: "fst ` set (gm_del k m) = fst ` set m - {k}"
  by (induction m) (auto simp: AList.delete_eq)

lemma gm_del_filter: "gm_del k m = filter (\<lambda>p. fst p \<noteq> k) m"
  by (induction m) (auto simp: AList.delete_eq)

lemma gm_put_length [gomap]:
  "length (gm_put k v m) = (if k \<in> set (gm_keys m) then length m else Suc (length m))"
  by (induction m) auto

lemma gm_del_length_le [gomap, simp]: "length (gm_del k m) \<le> length m"
  by (simp add: gm_del_filter)

lemma gm_del_length:
  assumes "gm_ok m" "k \<in> set (gm_keys m)"
  shows "Suc (length (gm_del k m)) = length m"
  using assms
proof (induction m)
  case (Cons p m)
  show ?case
  proof (cases "fst p = k")
    case True
    then have "k \<notin> fst ` set m" using Cons.prems(1) by auto
    then have "filter (\<lambda>q. fst q \<noteq> k) m = m"
      by (intro filter_True) (metis image_eqI)
    then show ?thesis using True by (simp add: gm_del_filter)
  next
    case False
    then show ?thesis using Cons by (simp add: gm_del_filter)
  qed
qed simp

lemma gm_get_keys: "gm_get m k = Some v \<Longrightarrow> k \<in> set (gm_keys m)"
  by (force dest: map_of_SomeD)

lemma gm_get_None_iff: "gm_get m k = None \<longleftrightarrow> k \<notin> set (gm_keys m)"
  by (simp add: map_of_eq_None_iff)

lemma gm_mem_put:
  "p \<in> set (gm_put k v m) \<Longrightarrow> p = (k, v) \<or> p \<in> set m"
  by (induction m) (auto split: if_splits)

lemma gm_mem_del: "p \<in> set (gm_del k m) \<Longrightarrow> p \<in> set m"
  by (simp add: gm_del_filter)

lemma gm_get_filter:
  assumes "gm_ok m"
  shows "gm_get (filter (\<lambda>(k, v). P k v) m) k =
         (case gm_get m k of Some v \<Rightarrow> if P k v then Some v else None | None \<Rightarrow> None)"
  using assms
proof (induction m)
  case (Cons p m)
  obtain k' v' where p: "p = (k', v')" by (cases p)
  have "k' = k \<Longrightarrow> gm_get m k = None"
    using Cons.prems p by (simp add: gm_get_None_iff)
  then show ?case using Cons p by (auto split: option.splits)
qed simp

lemma gm_put_put [gomap, simp]: "gm_put k v (gm_put k u m) = gm_put k v m"
  by (induction m) auto

lemma gm_put_mem: "(k, v) \<in> set (gm_put k v m)"
  by (induction m) auto

lemma gm_put_other: "(a, b) \<in> set (gm_put k v m) \<Longrightarrow> a \<noteq> k \<Longrightarrow> (a, b) \<in> set m"
  by (induction m) (auto split: if_splits)

section \<open>Lemmas on searching\<close>

lemma find_last_from_None:
  "find_last_from i P xs = None \<longleftrightarrow> (\<forall>x \<in> set xs. \<not> P x)"
  by (induction i P xs rule: find_last_from.induct) (auto split: option.splits)

lemma find_last_from_Some:
  "find_last_from i P xs = Some j \<Longrightarrow>
     i \<le> j \<and> j < i + length xs \<and> P (xs ! (j - i)) \<and> (\<forall>x \<in> set (drop (Suc j - i) xs). \<not> P x)"
proof (induction i P xs arbitrary: j rule: find_last_from.induct)
  case (2 i P x xs)
  show ?case
  proof (cases "find_last_from (Suc i) P xs")
    case None
    then have "P x" "j = i" using 2(2) by (auto split: if_splits)
    moreover have "\<forall>x \<in> set xs. \<not> P x" using None by (simp add: find_last_from_None)
    ultimately show ?thesis by simp
  next
    case (Some k)
    then have kj: "k = j" using 2 by simp
    with 2(1)[OF Some] show ?thesis
      by (auto simp: Suc_diff_le nth_Cons')
  qed
qed simp

lemma find_last_None: "find_last P xs = None \<longleftrightarrow> (\<forall>x \<in> set xs. \<not> P x)"
  by (simp add: find_last_def find_last_from_None)

lemma find_last_Some:
  "find_last P xs = Some j \<Longrightarrow> j < length xs \<and> P (xs ! j) \<and> (\<forall>x \<in> set (drop (Suc j) xs). \<not> P x)"
  unfolding find_last_def by (drule find_last_from_Some) simp

lemma find_last_from_append:
  "P x \<Longrightarrow> \<forall>y \<in> set ys. \<not> P y \<Longrightarrow> find_last_from i P (xs @ x # ys) = Some (i + length xs)"
proof (induction xs arbitrary: i)
  case Nil
  then have "find_last_from (Suc i) P ys = None" by (simp add: find_last_from_None)
  then show ?case using Nil by simp
qed simp

lemma find_last_append: "P x \<Longrightarrow> \<forall>y \<in> set ys. \<not> P y \<Longrightarrow> find_last P (xs @ x # ys) = Some (length xs)"
  by (simp add: find_last_def find_last_from_append)

text \<open>The element at the last match is the last element of the filtered list.\<close>
lemma find_last_filter:
  assumes "find_last P xs = Some j"
  shows "last (filter P xs) = xs ! j" and "filter P xs \<noteq> []"
proof -
  have j: "j < length xs" "P (xs ! j)" "\<forall>x \<in> set (drop (Suc j) xs). \<not> P x"
    using find_last_Some[OF assms] by auto
  have "xs = take j xs @ xs ! j # drop (Suc j) xs"
    using j(1) by (rule id_take_nth_drop)
  then have "filter P xs = filter P (take j xs) @ [xs ! j]"
    by (metis (no_types, lifting) filter.simps filter_append filter_False j(2,3))
  then show "last (filter P xs) = xs ! j" "filter P xs \<noteq> []" by simp_all
qed

lemma index_from_Some:
  "index_from i y xs = Some j \<Longrightarrow>
     i \<le> j \<and> j < i + length xs \<and> xs ! (j - i) = y \<and> y \<notin> set (take (j - i) xs)"
proof (induction i y xs arbitrary: j rule: index_from.induct)
  case (2 i y x xs)
  then show ?case
    by (cases "x = y") (fastforce simp: Suc_le_eq less_Suc_eq_le nth_Cons' take_Cons')+
qed simp

lemma index_from_None [simp]: "index_from i y xs = None \<longleftrightarrow> y \<notin> set xs"
  by (induction i y xs rule: index_from.induct) auto

section \<open>Lemmas on strings\<close>

lemma split_on_not_Nil [gostring, simp]: "split_on c s \<noteq> []"
  by (induction c s rule: split_on.induct) (auto split: list.splits)

lemma split_on_single [gostring]: "c \<notin> set s \<Longrightarrow> split_on c s = [s]"
  by (induction s) auto

lemma split_on_append [gostring]:
  "c \<notin> set s \<Longrightarrow> split_on c (s @ c # t) = s # split_on c t"
  by (induction s) auto

lemma join_split_on: "join_with [c] (split_on c s) = s"
proof (induction s)
  case (Cons x s)
  obtain w ws where w: "split_on c s = w # ws"
    by (meson split_on_not_Nil neq_Nil_conv)
  show ?case
  proof (cases ws)
    case Nil
    then show ?thesis using Cons w by auto
  next
    case (Cons v vs)
    then show ?thesis using \<open>join_with [c] (split_on c s) = s\<close> w by auto
  qed
qed simp

lemma trim_prefix_append [gostring, simp]: "trim_prefix (p @ s) p = s"
  by (simp add: trim_prefix_def)

lemma trim_suffix_append [gostring, simp]: "trim_suffix (s @ p) p = s"
  by (simp add: trim_suffix_def suffix_def)

lemma trim_suffix_length [simp]: "length (trim_suffix s p) \<le> length s"
  by (simp add: trim_suffix_def)

lemma of_char_digit: "d < 10 \<Longrightarrow> (of_char (digit_char d) :: nat) = 48 + d"
  by (simp add: digit_char_def of_char_of)

lemma is_digit_digit_char: "d < 10 \<Longrightarrow> is_digit (digit_char d)"
  by (simp add: is_digit_def of_char_digit)

lemma itoa_digits: "list_all is_digit (itoa n) \<and> itoa n \<noteq> []"
proof (induction n rule: itoa.induct)
  case (1 n)
  then show ?case by (subst (1 2) itoa.simps) (auto simp: is_digit_digit_char)
qed

lemma digits_val_itoa: "digits_val (itoa n) = n"
proof (induction n rule: itoa.induct)
  case (1 n)
  then show ?case
    by (subst itoa.simps) (auto simp: digits_val_def of_char_digit)
qed

lemma itoa_inj: "itoa m = itoa n \<longleftrightarrow> m = n"
  by (metis digits_val_itoa)

lemma atoi_itoa: "n < 2 ^ 63 \<Longrightarrow> atoi (itoa n) = Some (int n)"
proof -
  assume n: "n < 2 ^ 63"
  obtain c cs where i: "itoa n = c # cs" and d: "is_digit c" "list_all is_digit (itoa n)"
    using itoa_digits[of n] by (cases "itoa n") auto
  have "int n < 2 ^ 63" using n
    by (metis of_nat_less_iff of_nat_numeral of_nat_power)
  moreover have "c \<noteq> CHR ''-''" "c \<noteq> CHR ''+''" using d(1) by (auto simp: is_digit_def)
  ultimately show ?thesis
    using d(2) i digits_val_itoa[of n] by (simp add: atoi_def)
qed

end
