(* ===== verification/Sha256.thy ===== *)
theory Sha256
  imports Go_Prelude "HOL-Library.Word"
begin

text \<open>
  The hash function of \<^verbatim>\<open>crypto/sha256\<close> (FIPS 180-4) and the hexadecimal
  encoding of \<^verbatim>\<open>encoding/hex\<close>.  The token cache, the body-mutation telemetry
  and the bundle service derive keys and tags with it, so the model computes
  the digest rather than leaving it open.
\<close>

unbundle bit_operations_syntax

type_synonym w32 = "32 word"

text \<open>The constants of the algorithm are the first 32 bits of the fractional parts
  of the cube roots of the first 64 primes, and of the square roots of the
  first eight; \<^verbatim>\<open>iroot\<close> finds an integer root bit by bit.\<close>
fun iroot :: "nat \<Rightarrow> nat \<Rightarrow> int \<Rightarrow> int \<Rightarrow> int" where
  "iroot k 0 n r = r"
| "iroot k (Suc b) n r = iroot k b n (if (r + 2 ^ b) ^ k \<le> n then r + 2 ^ b else r)"

definition frac_root :: "nat \<Rightarrow> int \<Rightarrow> w32" where
  "frac_root k p = word_of_int (iroot k 36 (p * 2 ^ (32 * k)) 0)"

definition sha_primes :: "int list" where
  "sha_primes = filter (\<lambda>n. \<forall>d \<in> set [2..n - 1]. n mod d \<noteq> 0) [2..311]"

definition sha_k :: "w32 list" where
  "sha_k = map (frac_root 3) sha_primes"

type_synonym sha_state = "w32 \<times> w32 \<times> w32 \<times> w32 \<times> w32 \<times> w32 \<times> w32 \<times> w32"

definition sha_init :: sha_state where
  "sha_init = (frac_root 2 2, frac_root 2 3, frac_root 2 5, frac_root 2 7,
               frac_root 2 11, frac_root 2 13, frac_root 2 17, frac_root 2 19)"

definition rotr :: "nat \<Rightarrow> w32 \<Rightarrow> w32" where
  "rotr n x = drop_bit n x OR push_bit (32 - n) x"

definition sha_s0 :: "w32 \<Rightarrow> w32" where
  "sha_s0 x = rotr 7 x XOR rotr 18 x XOR drop_bit 3 x"

definition sha_s1 :: "w32 \<Rightarrow> w32" where
  "sha_s1 x = rotr 17 x XOR rotr 19 x XOR drop_bit 10 x"

definition sha_e0 :: "w32 \<Rightarrow> w32" where
  "sha_e0 x = rotr 2 x XOR rotr 13 x XOR rotr 22 x"

definition sha_e1 :: "w32 \<Rightarrow> w32" where
  "sha_e1 x = rotr 6 x XOR rotr 11 x XOR rotr 25 x"

definition sha_ch :: "w32 \<Rightarrow> w32 \<Rightarrow> w32 \<Rightarrow> w32" where
  "sha_ch x y z = (x AND y) XOR (NOT x AND z)"

definition sha_maj :: "w32 \<Rightarrow> w32 \<Rightarrow> w32 \<Rightarrow> w32" where
  "sha_maj x y z = (x AND y) XOR (x AND z) XOR (y AND z)"

fun sha_words :: "int list \<Rightarrow> w32 list" where
  "sha_words (a # b # c # d # xs) = of_int (a * 16777216 + b * 65536 + c * 256 + d) # sha_words xs"
| "sha_words _ = []"

fun be_bytes :: "nat \<Rightarrow> int \<Rightarrow> int list" where
  "be_bytes 0 n = []"
| "be_bytes (Suc k) n = be_bytes k (n div 256) @ [n mod 256]"

text \<open>Message, one bit, zeros up to 56 modulo 64, the bit length on 8 bytes.\<close>
definition sha_pad :: "int list \<Rightarrow> int list" where
  "sha_pad m = m @ [128] @ replicate ((119 - length m mod 64) mod 64) 0 @ be_bytes 8 (8 * int (length m))"

fun sha_schedule :: "nat \<Rightarrow> w32 list \<Rightarrow> w32 list" where
  "sha_schedule 0 ws = ws"
| "sha_schedule (Suc n) ws =
     (let t = length ws in
      sha_schedule n (ws @ [sha_s1 (ws ! (t - 2)) + ws ! (t - 7) + sha_s0 (ws ! (t - 15)) + ws ! (t - 16)]))"

definition sha_round :: "sha_state \<Rightarrow> w32 \<times> w32 \<Rightarrow> sha_state" where
  "sha_round st kw = (case (st, kw) of ((a, b, c, d, e, f, g, h), (k, w)) \<Rightarrow>
     (let t1 = h + sha_e1 e + sha_ch e f g + k + w;
          t2 = sha_e0 a + sha_maj a b c
      in (t1 + t2, a, b, c, d + t1, e, f, g)))"

definition sha_add :: "sha_state \<Rightarrow> sha_state \<Rightarrow> sha_state" where
  "sha_add s t = (case (s, t) of ((a, b, c, d, e, f, g, h), (a', b', c', d', e', f', g', h')) \<Rightarrow>
     (a + a', b + b', c + c', d + d', e + e', f + f', g + g', h + h'))"

definition sha_block :: "sha_state \<Rightarrow> w32 list \<Rightarrow> sha_state" where
  "sha_block st ws = sha_add st (foldl sha_round st (zip sha_k (sha_schedule 48 ws)))"

fun sha_blocks :: "nat \<Rightarrow> sha_state \<Rightarrow> w32 list \<Rightarrow> sha_state" where
  "sha_blocks 0 st ws = st"
| "sha_blocks (Suc n) st ws = sha_blocks n (sha_block st (take 16 ws)) (drop 16 ws)"

definition sha_digest :: "sha_state \<Rightarrow> bytes" where
  "sha_digest st = (case st of (a, b, c, d, e, f, g, h) \<Rightarrow>
     map char_of (concat (map (\<lambda>w. be_bytes 4 (uint w)) [a, b, c, d, e, f, g, h])))"

definition sha256 :: "bytes \<Rightarrow> bytes" where
  "sha256 m =
     (let ws = sha_words (sha_pad (map of_char m))
      in sha_digest (sha_blocks (length ws div 16) sha_init ws))"

definition hex_digit :: "nat \<Rightarrow> char" where
  "hex_digit d = (if d < 10 then char_of (48 + d) else char_of (87 + d))"

text \<open>\<^verbatim>\<open>hex.EncodeToString\<close>.\<close>
definition hex_encode :: "bytes \<Rightarrow> string" where
  "hex_encode b = concat (map (\<lambda>c. [hex_digit (of_char c div 16), hex_digit (of_char c mod 16)]) b)"

section \<open>Shape of the digest\<close>

lemma length_be_bytes [simp]: "length (be_bytes k n) = k"
  by (induction k arbitrary: n) auto

lemma length_sha_digest [simp]: "length (sha_digest st) = 32"
  by (simp add: sha_digest_def split: prod.splits)

lemma length_sha256 [simp]: "length (sha256 m) = 32"
  unfolding sha256_def Let_def by (rule length_sha_digest)

lemma length_hex_encode [simp]: "length (hex_encode b) = 2 * length b"
  by (induction b) (auto simp: hex_encode_def)

lemma of_char_char_of_small: "n < 256 \<Longrightarrow> (of_char (char_of n) :: nat) = n"
  by (simp only: of_char_of mod_less)

lemma of_char_hex_digit:
  assumes "d < 16"
  shows "(of_char (hex_digit d) :: nat) = (if d < 10 then 48 + d else 87 + d)"
proof -
  have "48 + d < 256" "87 + d < 256" using assms by linarith+
  then show ?thesis
    by (cases "d < 10") (simp_all only: hex_digit_def of_char_char_of_small if_True if_False)
qed

lemma hex_digit_inj:
  assumes "a < 16" "b < 16" "hex_digit a = hex_digit b"
  shows "a = b"
proof -
  have "(of_char (hex_digit a) :: nat) = of_char (hex_digit b)"
    by (simp only: assms(3))
  then have "(if a < 10 then 48 + a else 87 + a) = (if b < 10 then 48 + b else 87 + b)"
    unfolding of_char_hex_digit[OF assms(1)] of_char_hex_digit[OF assms(2)] .
  then show ?thesis by (simp split: if_splits)
qed

lemma nibbles_inj:
  assumes "(of_char x :: nat) div 16 = of_char y div 16" "(of_char x :: nat) mod 16 = of_char y mod 16"
  shows "x = y"
proof -
  have "(of_char x :: nat) = of_char x div 16 * 16 + of_char x mod 16" by simp
  also have "\<dots> = of_char y div 16 * 16 + of_char y mod 16" by (simp only: assms)
  also have "\<dots> = of_char y" by simp
  finally show ?thesis by simp
qed

lemma hex_encode_Cons:
  "hex_encode (c # b) = hex_digit (of_char c div 16) # hex_digit (of_char c mod 16) # hex_encode b"
  by (simp add: hex_encode_def)

lemma hex_encode_inj: "hex_encode a = hex_encode b \<Longrightarrow> a = b"
proof (induction a arbitrary: b)
  case Nil
  then show ?case by (cases b) (simp_all add: hex_encode_def)
next
  case (Cons x a)
  have lt: "(of_char y :: nat) div 16 < 16" for y :: char
    using nat_of_char_less_256[of y] by (intro less_mult_imp_div_less) simp
  obtain y b' where b: "b = y # b'" using Cons.prems by (cases b) (simp_all add: hex_encode_def)
  have hd: "hex_digit (of_char x div 16) = hex_digit (of_char y div 16)"
    "hex_digit (of_char x mod 16) = hex_digit (of_char y mod 16)" "hex_encode a = hex_encode b'"
    using Cons.prems unfolding b hex_encode_Cons by simp_all
  have lo: "(of_char x :: nat) mod 16 = of_char y mod 16"
    by (rule hex_digit_inj[OF _ _ hd(2)]) simp_all
  have "x = y" by (rule nibbles_inj[OF hex_digit_inj[OF lt lt hd(1)] lo])
  then show ?case using Cons.IH[OF hd(3)] b by simp
qed

end
