(* ===== verification/Pipeline_Types.thy ===== *)
theory Pipeline_Types
  imports Sha256
begin

text \<open>
  The data of the plugin pipeline (\<^verbatim>\<open>authbridge/authlib/pipeline\<close>): protocol
  extensions, invocation records, session events and views, actions and
  violations, error policies, outcomes and the per-request context with the
  operations a plugin may call on it (\<^verbatim>\<open>context.go\<close>, \<^verbatim>\<open>extensions.go\<close>,
  \<^verbatim>\<open>session.go\<close>, \<^verbatim>\<open>action.go\<close>, \<^verbatim>\<open>policy.go\<close>, \<^verbatim>\<open>outcome.go\<close>).
\<close>

named_theorems framework "the context operations keep the fields owned by the dispatcher"

section \<open>Enumerations\<close>

datatype direction = Inbound | Outbound

datatype session_phase = SessionRequest | SessionResponse | SessionDenied

datatype invocation_action = ActionAllow | ActionDeny | ActionSkip | ActionModify | ActionObserve

text \<open>The empty phase is the zero value that \<^verbatim>\<open>clearCurrent\<close> writes.\<close>
datatype invocation_phase = PhaseNone | InvocationPhaseRequest | InvocationPhaseResponse

fun direction_string :: "direction \<Rightarrow> string" where
  "direction_string Inbound = ''inbound''"
| "direction_string Outbound = ''outbound''"

definition direction_unmarshal :: "string \<Rightarrow> direction" where
  "direction_unmarshal s =
     (if s = ''inbound'' then Inbound else if s = ''outbound'' then Outbound else Inbound)"

fun session_phase_string :: "session_phase \<Rightarrow> string" where
  "session_phase_string SessionRequest = ''request''"
| "session_phase_string SessionResponse = ''response''"
| "session_phase_string SessionDenied = ''denied''"

definition session_phase_unmarshal :: "string \<Rightarrow> session_phase" where
  "session_phase_unmarshal s =
     (if s = ''request'' then SessionRequest
      else if s = ''response'' then SessionResponse
      else if s = ''denied'' then SessionDenied
      else SessionRequest)"

section \<open>Protocol extensions\<close>

record mcp_error =
  mcpe_code :: int
  mcpe_message :: string
  mcpe_data :: json

record mcp_extension =
  mcp_method :: string
  mcp_rpc_id :: json
  mcp_params :: "(string, json) gomap"
  mcp_result :: "(string, json) gomap"
  mcp_err :: "mcp_error option"
  mcp_is_action :: bool

record a2a_part =
  part_kind :: string
  part_content :: string

record a2a_extension =
  a2a_method :: string
  a2a_rpc_id :: json
  a2a_session_id :: string
  a2a_message_id :: string
  a2a_task_id :: string
  a2a_role :: string
  a2a_parts :: "a2a_part list"
  a2a_final_status :: string
  a2a_artifact :: string
  a2a_error_message :: string
  a2a_is_action :: bool

record inference_message =
  im_role :: string
  im_content :: string

record inference_tool_call =
  itc_id :: string
  itc_name :: string
  itc_arguments :: string

record inference_extension =
  inf_model :: string
  inf_messages :: "inference_message list"
  inf_stream :: bool
  inf_completion :: string
  inf_finish_reason :: string
  inf_prompt_tokens :: int
  inf_completion_tokens :: int
  inf_total_tokens :: int
  inf_tool_calls :: "inference_tool_call list"
  inf_is_action :: bool

record security_extension =
  sec_labels :: "string list"
  sec_blocked :: bool
  sec_block_reason :: string

record invocation =
  inv_plugin :: string
  inv_action :: invocation_action
  inv_phase :: invocation_phase
  inv_reason :: string
  inv_path :: string
  inv_details :: "(string, string) gomap"
  inv_shadow :: bool

record invocations =
  invs_inbound :: "invocation list"
  invs_outbound :: "invocation list"

definition filtered_by_phase :: "invocations option \<Rightarrow> invocation_phase \<Rightarrow> invocations option" where
  "filtered_by_phase ino phase = (case ino of
      None \<Rightarrow> None
    | Some i \<Rightarrow>
        (let inb = filter (\<lambda>v. inv_phase v = phase) (invs_inbound i);
             outb = filter (\<lambda>v. inv_phase v = phase) (invs_outbound i)
         in if inb = [] \<and> outb = [] then None
            else Some \<lparr>invs_inbound = inb, invs_outbound = outb\<rparr>))"

record body_mutation_event =
  bm_phase :: string
  bm_plugin :: string
  bm_length_before :: nat
  bm_length_after :: nat
  bm_sha256_before :: string
  bm_sha256_after :: string

text \<open>What the \<^verbatim>\<open>Custom\<close> map of a request carries.\<close>
datatype custom_value = BodyMutation body_mutation_event | CustomJson json

record extensions =
  ext_mcp :: "mcp_extension option"
  ext_a2a :: "a2a_extension option"
  ext_security :: "security_extension option"
  ext_inference :: "inference_extension option"
  ext_invocations :: "invocations option"
  ext_custom :: "(string, custom_value) gomap"

section \<open>Session events and views\<close>

record event_identity =
  ei_subject :: string
  ei_scopes :: "string list"
  ei_client_id :: string
  ei_agent_id :: string

record event_error =
  ee_kind :: string
  ee_code :: string
  ee_message :: string

record event_tls =
  et_version :: string
  et_cipher_suite :: string
  et_peer_spiffe_id :: string

record session_event =
  ev_session_id :: string
  ev_at :: time
  ev_direction :: direction
  ev_phase :: session_phase
  ev_a2a :: "a2a_extension option"
  ev_mcp :: "mcp_extension option"
  ev_inference :: "inference_extension option"
  ev_invocations :: "invocations option"
  ev_plugins :: "(string, json) gomap"
  ev_identity :: "event_identity option"
  ev_status_code :: int
  ev_error :: "event_error option"
  ev_host :: string
  ev_duration :: time
  ev_tls :: "event_tls option"

record session_view =
  view_id :: string
  view_events :: "session_event list"

definition view_intents :: "session_view \<Rightarrow> session_event list" where
  "view_intents v = filter
     (\<lambda>e. ev_direction e = Inbound \<and> ev_phase e = SessionRequest \<and> ev_a2a e \<noteq> None) (view_events v)"

definition tool_calls :: "session_view \<Rightarrow> session_event list" where
  "tool_calls v = filter
     (\<lambda>e. ev_direction e = Outbound \<and> ev_phase e = SessionRequest \<and> ev_mcp e \<noteq> None) (view_events v)"

definition tool_responses :: "session_view \<Rightarrow> session_event list" where
  "tool_responses v = filter
     (\<lambda>e. ev_direction e = Outbound \<and> ev_phase e = SessionResponse \<and> ev_mcp e \<noteq> None) (view_events v)"

definition inference_requests :: "session_view \<Rightarrow> session_event list" where
  "inference_requests v = filter
     (\<lambda>e. ev_direction e = Outbound \<and> ev_phase e = SessionRequest \<and> ev_inference e \<noteq> None) (view_events v)"

definition is_intent :: "session_event \<Rightarrow> bool" where
  "is_intent e = (ev_direction e = Inbound \<and> ev_phase e = SessionRequest \<and> ev_a2a e \<noteq> None)"

definition last_intent :: "session_view \<Rightarrow> session_event option" where
  "last_intent v = map_option (\<lambda>i. view_events v ! i) (find_last is_intent (view_events v))"

definition failed_events :: "session_view \<Rightarrow> session_event list" where
  "failed_events v = filter (\<lambda>e. ev_phase e = SessionResponse \<and> ev_error e \<noteq> None) (view_events v)"

definition last_error :: "session_view \<Rightarrow> session_event option" where
  "last_error v = map_option (\<lambda>i. view_events v ! i)
     (find_last (\<lambda>e. ev_phase e = SessionResponse \<and> ev_error e \<noteq> None) (view_events v))"

section \<open>Actions, violations and policies\<close>

record violation =
  v_code :: string
  v_reason :: string
  v_description :: string
  v_details :: "(string, json) gomap"
  v_status :: int
  v_body :: "bytes option"
  v_body_type :: string
  v_headers :: "header option"
  v_plugin_name :: string

datatype action = Continue | Reject "violation option"

definition empty_violation :: violation where
  "empty_violation = \<lparr>v_code = '''', v_reason = '''', v_description = '''', v_details = [],
     v_status = 0, v_body = None, v_body_type = '''', v_headers = None, v_plugin_name = ''''\<rparr>"

definition code_to_status :: "(string, int) gomap" where
  "code_to_status = [
     (''auth.missing-token'', 401),
     (''auth.invalid-token'', 401),
     (''auth.audience-mismatch'', 401),
     (''auth.unauthorized'', 401),
     (''policy.forbidden'', 403),
     (''policy.rate-limited'', 429),
     (''policy.content-blocked'', 403),
     (''upstream.unreachable'', 503),
     (''upstream.token-exchange-failed'', 503),
     (''upstream.timeout'', 504),
     (''pipeline.cancelled'', 499)]"

definition status_from_code :: "string \<Rightarrow> int" where
  "status_from_code code = (case gm_get code_to_status code of Some s \<Rightarrow> s | None \<Rightarrow> 500)"

text \<open>A response body is either bytes the plugin supplied or the JSON
  document that \<^verbatim>\<open>json.Marshal\<close> serialises.\<close>
datatype response_doc = RawDoc bytes | JsonDoc json

definition violation_payload :: "violation \<Rightarrow> json" where
  "violation_payload v = JObj
     ([(''error'', JStr (v_code v)), (''message'', JStr (v_reason v))]
      @ (if v_description v \<noteq> '''' then [(''description'', JStr (v_description v))] else [])
      @ (if v_plugin_name v \<noteq> '''' then [(''plugin'', JStr (v_plugin_name v))] else [])
      @ (if v_details v \<noteq> [] then [(''details'', JObj (v_details v))] else []))"

fun render :: "violation option \<Rightarrow> int \<times> header \<times> response_doc" where
  "render None = (500, [], JsonDoc (JObj [(''error'', JStr ''internal''),
                                         (''message'', JStr ''reject without violation'')]))"
| "render (Some v) =
     (let status = (if v_status v = 0 then status_from_code (v_code v) else v_status v);
          (body, body_type) = (case v_body v of
             None \<Rightarrow> (JsonDoc (violation_payload v), ''application/json'')
           | Some b \<Rightarrow> (RawDoc b, v_body_type v));
          headers = (case v_headers v of None \<Rightarrow> [] | Some h \<Rightarrow> h);
          headers' = (if body_type \<noteq> '''' \<and> hdr_get headers ''Content-Type'' = ''''
                      then hdr_set ''Content-Type'' body_type headers else headers)
      in (status, headers', body))"

definition Deny :: "string \<Rightarrow> string \<Rightarrow> action" where
  "Deny code reason = Reject (Some (empty_violation\<lparr>v_code := code, v_reason := reason\<rparr>))"

definition DenyStatus :: "int \<Rightarrow> string \<Rightarrow> string \<Rightarrow> action" where
  "DenyStatus status code reason =
     Reject (Some (empty_violation\<lparr>v_code := code, v_reason := reason, v_status := status\<rparr>))"

definition DenyWithDetails :: "string \<Rightarrow> string \<Rightarrow> (string, json) gomap \<Rightarrow> action" where
  "DenyWithDetails code reason details =
     Reject (Some (empty_violation\<lparr>v_code := code, v_reason := reason, v_details := details\<rparr>))"

definition RateLimited :: "time \<Rightarrow> string \<Rightarrow> string \<Rightarrow> action" where
  "RateLimited retry_after code reason =
     (let code' = (if code = '''' then ''policy.rate-limited'' else code)
      in Reject (Some (empty_violation\<lparr>v_code := code', v_reason := reason,
           v_headers := Some [(''Retry-After'', [itoa (nat (retry_after div 1000000000))])]\<rparr>)))"

type_synonym error_policy = string

abbreviation ErrorPolicyEnforce :: error_policy where "ErrorPolicyEnforce \<equiv> ''enforce''"
abbreviation ErrorPolicyObserve :: error_policy where "ErrorPolicyObserve \<equiv> ''observe''"
abbreviation ErrorPolicyOff :: error_policy where "ErrorPolicyOff \<equiv> ''off''"

definition policy_valid :: "error_policy \<Rightarrow> bool" where
  "policy_valid p = (p \<in> {'''', ErrorPolicyEnforce, ErrorPolicyObserve, ErrorPolicyOff})"

definition policy_resolved :: "error_policy \<Rightarrow> error_policy" where
  "policy_resolved p = (if p = '''' then ErrorPolicyEnforce else p)"

datatype outcome_action = OutcomeAllow | OutcomeDeny | OutcomeError

record outcome =
  out_final_action :: outcome_action
  out_status_code :: int
  out_denying_plugin :: string
  out_duration :: time

section \<open>The request context\<close>

record identity =
  id_subject :: string
  id_client_id :: string
  id_scopes :: "string list"

record agent_identity =
  ag_client_id :: string
  ag_workload_id :: string
  ag_trust_domain :: string

text \<open>A zero \<^verbatim>\<open>StartedAt\<close> is None; the contents of the shared store belong to the
  world that plugins thread, the context only says whether it is bound.\<close>
record pcontext =
  c_direction :: direction
  c_method :: string
  c_scheme :: string
  c_host :: string
  c_path :: string
  c_headers :: header
  c_body :: bytes
  c_started_at :: "time option"
  c_agent :: "agent_identity option"
  c_identity :: "identity option"
  c_session :: "session_view option"
  c_tls :: "bytes list option"
  c_shared :: bool
  c_status_code :: int
  c_response_headers :: header
  c_response_body :: bytes
  c_extensions :: extensions
  c_current_plugin :: string
  c_current_phase :: invocation_phase
  c_current_policy :: error_policy
  c_body_mutated :: bool
  c_response_body_mutated :: bool
  c_dispatched :: "nat list"
  c_outcome :: "outcome option"
  c_in_finish :: bool
  c_rejecting_plugin :: string
  c_finished :: bool

definition peer_certificate :: "pcontext \<Rightarrow> bytes option" where
  "peer_certificate c = (case c_tls c of Some (x # _) \<Rightarrow> Some x | _ \<Rightarrow> None)"

definition set_current :: "string \<Rightarrow> invocation_phase \<Rightarrow> error_policy \<Rightarrow> pcontext \<Rightarrow> pcontext" where
  "set_current name phase policy c =
     c\<lparr>c_current_plugin := name, c_current_phase := phase, c_current_policy := policy_resolved policy\<rparr>"

definition clear_current :: "pcontext \<Rightarrow> pcontext" where
  "clear_current c =
     c\<lparr>c_current_plugin := '''', c_current_phase := PhaseNone, c_current_policy := ''''\<rparr>"

definition set_rejecting_plugin :: "string \<Rightarrow> pcontext \<Rightarrow> pcontext" where
  "set_rejecting_plugin name c =
     (if c_rejecting_plugin c = '''' then c\<lparr>c_rejecting_plugin := name\<rparr> else c)"

definition invocations_of :: "pcontext \<Rightarrow> invocations" where
  "invocations_of c = (case ext_invocations (c_extensions c) of
      None \<Rightarrow> \<lparr>invs_inbound = [], invs_outbound = []\<rparr> | Some i \<Rightarrow> i)"

definition append_invocation :: "invocation \<Rightarrow> pcontext \<Rightarrow> pcontext" where
  "append_invocation iv c =
     (let i = invocations_of c;
          i' = (case c_direction c of
                  Inbound \<Rightarrow> i\<lparr>invs_inbound := invs_inbound i @ [iv]\<rparr>
                | Outbound \<Rightarrow> i\<lparr>invs_outbound := invs_outbound i @ [iv]\<rparr>)
      in c\<lparr>c_extensions := (c_extensions c)\<lparr>ext_invocations := Some i'\<rparr>\<rparr>)"

text \<open>\<^verbatim>\<open>Context.Record\<close>: dropped during OnFinish, empty fields filled in.\<close>
definition record_invocation :: "invocation \<Rightarrow> pcontext \<Rightarrow> pcontext" where
  "record_invocation iv c =
     (if c_in_finish c then c
      else append_invocation
        (iv\<lparr>inv_plugin := (if inv_plugin iv = '''' then c_current_plugin c else inv_plugin iv),
             inv_phase := (if inv_phase iv = PhaseNone then c_current_phase c else inv_phase iv),
             inv_path := (if inv_path iv = '''' then c_path c else inv_path iv)\<rparr>) c)"

definition mk_invocation :: "invocation_action \<Rightarrow> string \<Rightarrow> invocation" where
  "mk_invocation act reason = \<lparr>inv_plugin = '''', inv_action = act, inv_phase = PhaseNone,
     inv_reason = reason, inv_path = '''', inv_details = [], inv_shadow = False\<rparr>"

definition ctx_allow :: "string \<Rightarrow> pcontext \<Rightarrow> pcontext" where
  "ctx_allow reason = record_invocation (mk_invocation ActionAllow reason)"

definition ctx_skip :: "string \<Rightarrow> pcontext \<Rightarrow> pcontext" where
  "ctx_skip reason = record_invocation (mk_invocation ActionSkip reason)"

definition ctx_observe :: "string \<Rightarrow> pcontext \<Rightarrow> pcontext" where
  "ctx_observe reason = record_invocation (mk_invocation ActionObserve reason)"

definition ctx_modify :: "string \<Rightarrow> pcontext \<Rightarrow> pcontext" where
  "ctx_modify reason = record_invocation (mk_invocation ActionModify reason)"

definition deny_and_record :: "string \<Rightarrow> string \<Rightarrow> string \<Rightarrow> pcontext \<Rightarrow> action \<times> pcontext" where
  "deny_and_record reason code message c =
     (Deny code message, record_invocation (mk_invocation ActionDeny reason) c)"

definition hash_hex :: "bytes \<Rightarrow> string" where
  "hash_hex b = hex_encode (sha256 b)"

definition put_body_mutation :: "string \<Rightarrow> bytes \<Rightarrow> bytes \<Rightarrow> pcontext \<Rightarrow> pcontext" where
  "put_body_mutation phase old new c =
     c\<lparr>c_extensions := (c_extensions c)\<lparr>ext_custom := gm_put (''body-mutation'' @ ''/event'')
        (BodyMutation \<lparr>bm_phase = phase, bm_plugin = c_current_plugin c,
           bm_length_before = length old, bm_length_after = length new,
           bm_sha256_before = hash_hex old, bm_sha256_after = hash_hex new\<rparr>)
        (ext_custom (c_extensions c))\<rparr>\<rparr>"

definition record_shadow_body_mutation :: "string \<Rightarrow> bytes \<Rightarrow> bytes \<Rightarrow> pcontext \<Rightarrow> pcontext" where
  "record_shadow_body_mutation phase old new c =
     put_body_mutation phase old new
       (record_invocation ((mk_invocation ActionModify ''body_rewritten'')\<lparr>inv_shadow := True\<rparr>) c)"

definition emit_body_mutation :: "string \<Rightarrow> bytes \<Rightarrow> bytes \<Rightarrow> pcontext \<Rightarrow> pcontext" where
  "emit_body_mutation phase old new c =
     put_body_mutation phase old new
       (record_invocation (mk_invocation ActionModify ''body_rewritten'') c)"

definition set_body :: "bytes \<Rightarrow> pcontext \<Rightarrow> pcontext" where
  "set_body new c =
     (if c_in_finish c then c
      else if c_current_policy c = ErrorPolicyObserve
      then record_shadow_body_mutation ''request'' (c_body c) new c
      else emit_body_mutation ''request'' (c_body c) new (c\<lparr>c_body := new, c_body_mutated := True\<rparr>))"

definition set_response_body :: "bytes \<Rightarrow> pcontext \<Rightarrow> pcontext" where
  "set_response_body new c =
     (if c_in_finish c then c
      else if c_current_policy c = ErrorPolicyObserve
      then record_shadow_body_mutation ''response'' (c_response_body c) new c
      else emit_body_mutation ''response'' (c_response_body c) new
             (c\<lparr>c_response_body := new, c_response_body_mutated := True\<rparr>))"

text \<open>\<^verbatim>\<open>Context.Classification\<close>: (anyAction, anyBypass).\<close>
definition classification :: "pcontext \<Rightarrow> bool \<times> bool" where
  "classification c =
     (let flags = (case ext_mcp (c_extensions c) of None \<Rightarrow> [] | Some x \<Rightarrow> [mcp_is_action x])
                @ (case ext_a2a (c_extensions c) of None \<Rightarrow> [] | Some x \<Rightarrow> [a2a_is_action x])
                @ (case ext_inference (c_extensions c) of None \<Rightarrow> [] | Some x \<Rightarrow> [inf_is_action x])
      in (True \<in> set flags, False \<in> set flags))"

definition shadow_last :: "string \<Rightarrow> invocation_phase \<Rightarrow> invocation list \<Rightarrow> invocation list option" where
  "shadow_last name phase l =
     (case find_last (\<lambda>v. inv_plugin v = name \<and> inv_phase v = phase) l of
        None \<Rightarrow> None
      | Some i \<Rightarrow> Some (l[i := (l ! i)\<lparr>inv_shadow := True\<rparr>]))"

definition mark_last_invocation_shadow ::
  "string \<Rightarrow> invocation_phase \<Rightarrow> pcontext \<Rightarrow> bool \<times> pcontext" where
  "mark_last_invocation_shadow name phase c =
     (case ext_invocations (c_extensions c) of
        None \<Rightarrow> (False, c)
      | Some i \<Rightarrow>
          (let l = (case c_direction c of Inbound \<Rightarrow> invs_inbound i | Outbound \<Rightarrow> invs_outbound i)
           in case shadow_last name phase l of
                None \<Rightarrow> (False, c)
              | Some l' \<Rightarrow>
                  (True, c\<lparr>c_extensions := (c_extensions c)\<lparr>ext_invocations := Some
                     (case c_direction c of
                        Inbound \<Rightarrow> i\<lparr>invs_inbound := l'\<rparr>
                      | Outbound \<Rightarrow> i\<lparr>invs_outbound := l'\<rparr>)\<rparr>\<rparr>)))"

section \<open>Outcome of a request\<close>

definition deny_in :: "invocation list \<Rightarrow> string option" where
  "deny_in l = map_option (\<lambda>i. inv_plugin (l ! i))
     (find_last (\<lambda>v. inv_action v = ActionDeny \<and> \<not> inv_shadow v) l)"

definition last_denying_plugin :: "pcontext \<Rightarrow> string option" where
  "last_denying_plugin c = (case ext_invocations (c_extensions c) of
      None \<Rightarrow> None
    | Some i \<Rightarrow> (case deny_in (invs_outbound i) of
        Some n \<Rightarrow> Some n
      | None \<Rightarrow> deny_in (invs_inbound i)))"

definition outcome_from_context :: "pcontext \<Rightarrow> outcome" where
  "outcome_from_context c =
     (let out = \<lparr>out_final_action = OutcomeAllow, out_status_code = c_status_code c,
                 out_denying_plugin = '''', out_duration = 0\<rparr>
      in if c_rejecting_plugin c \<noteq> ''''
         then out\<lparr>out_final_action := OutcomeDeny, out_denying_plugin := c_rejecting_plugin c\<rparr>
         else case last_denying_plugin c of
                Some n \<Rightarrow> out\<lparr>out_final_action := OutcomeDeny, out_denying_plugin := n\<rparr>
              | None \<Rightarrow> if c_status_code c = 0 then out\<lparr>out_final_action := OutcomeError\<rparr> else out)"

section \<open>What the context operations keep\<close>

text \<open>The unexported fields of \<^verbatim>\<open>Context\<close> that only the dispatcher writes.\<close>
definition framework_fields :: "pcontext \<Rightarrow> nat list \<times> outcome option \<times> bool \<times> string \<times> bool" where
  "framework_fields c =
     (c_dispatched c, c_outcome c, c_in_finish c, c_rejecting_plugin c, c_finished c)"

lemmas context_ops =
  record_invocation_def append_invocation_def ctx_allow_def ctx_skip_def ctx_observe_def ctx_modify_def
  put_body_mutation_def record_shadow_body_mutation_def emit_body_mutation_def

lemma append_invocation_keeps [framework, simp]:
  "framework_fields (append_invocation iv c) = framework_fields c"
  by (simp add: framework_fields_def append_invocation_def Let_def)

lemma record_invocation_keeps [framework, simp]:
  "framework_fields (record_invocation iv c) = framework_fields c"
  by (simp add: record_invocation_def)

lemma set_body_keeps [framework, simp]: "framework_fields (set_body b c) = framework_fields c"
  by (simp add: set_body_def context_ops framework_fields_def Let_def)

lemma set_response_body_keeps [framework, simp]:
  "framework_fields (set_response_body b c) = framework_fields c"
  by (simp add: set_response_body_def context_ops framework_fields_def Let_def)

lemma set_current_keeps [framework, simp]:
  "framework_fields (set_current n ph po c) = framework_fields c"
  by (simp add: framework_fields_def set_current_def)

lemma clear_current_keeps [framework, simp]:
  "framework_fields (clear_current c) = framework_fields c"
  by (simp add: framework_fields_def clear_current_def)

lemma mark_shadow_keeps [framework, simp]:
  "framework_fields (snd (mark_last_invocation_shadow n ph c)) = framework_fields c"
  by (simp add: framework_fields_def mark_last_invocation_shadow_def Let_def split: option.splits)

lemma context_helpers_keep [framework, simp]:
  "framework_fields (ctx_allow r c) = framework_fields c"
  "framework_fields (ctx_skip r c) = framework_fields c"
  "framework_fields (ctx_observe r c) = framework_fields c"
  "framework_fields (ctx_modify r c) = framework_fields c"
  by (simp_all add: ctx_allow_def ctx_skip_def ctx_observe_def ctx_modify_def)

lemma view_intents_filter: "view_intents v = filter is_intent (view_events v)"
  by (simp add: view_intents_def is_intent_def[abs_def])

lemma last_intent_last:
  "last_intent v = (if view_intents v = [] then None else Some (last (view_intents v)))"
proof (cases "find_last is_intent (view_events v)")
  case None
  then show ?thesis
    by (simp add: last_intent_def view_intents_def is_intent_def filter_empty_conv find_last_None)
next
  case (Some j)
  then show ?thesis using find_last_filter[OF Some] by (simp add: last_intent_def view_intents_filter)
qed

lemma last_intent_snoc:
  "last_intent \<lparr>view_id = i, view_events = es @ [v]\<rparr> =
     (if is_intent v then Some v else last_intent \<lparr>view_id = i, view_events = es\<rparr>)"
  "last_intent \<lparr>view_id = i, view_events = []\<rparr> = None"
  by (simp_all add: last_intent_last view_intents_filter)

end
