(* ===== verification/Event_Store.thy ===== *)
theory Event_Store
  imports Pipeline_Types
begin

text \<open>
  The in-memory session store of the sidecar (\<^verbatim>\<open>authbridge/authlib/session/store.go\<close>):
  sessions with bounded event lists, eviction that pins the latest user intent,
  renaming, expiry and the fan-out to live subscribers.

  A subscriber is a cell of a small heap, named by a number; the store keeps
  the list of names.  Sending on a closed channel panics in Go, so the
  operations that publish return \<^const>\<open>None\<close> in that case.
\<close>

named_theorems store_ops "definitions of the store operations"

section \<open>State\<close>

record entry =
  en_id :: string
  en_events :: "session_event list"
  en_created_at :: time
  en_updated_at :: time

record subscriber =
  sub_ch :: "session_event list"
  sub_drops :: "64 word"
  sub_closed :: bool

record store =
  st_sessions :: "(string, entry) gomap"
  st_ttl :: time
  st_max_events :: int
  st_max_sessions :: int
  st_active_id :: string
  st_subscribers :: "nat list"
  st_heap :: "nat \<Rightarrow> subscriber"
  st_next :: nat
  st_closed :: bool

record session_summary =
  sum_id :: string
  sum_created_at :: time
  sum_updated_at :: time
  sum_event_count :: nat
  sum_total_tokens :: int
  sum_active :: bool

definition DefaultSessionID :: string where
  "DefaultSessionID = ''default''"

definition max_session_id_len :: nat where
  "max_session_id_len = 256"

definition subscriber_chan_buf :: nat where
  "subscriber_chan_buf = 64"

definition new_store :: "time \<Rightarrow> int \<Rightarrow> int \<Rightarrow> store" where
  "new_store ttl max_events max_sessions =
     \<lparr>st_sessions = [], st_ttl = ttl, st_max_events = max_events, st_max_sessions = max_sessions,
      st_active_id = '''', st_subscribers = [],
      st_heap = (\<lambda>_. \<lparr>sub_ch = [], sub_drops = 0, sub_closed = False\<rparr>), st_next = 0, st_closed = False\<rparr>"

section \<open>Subscribers\<close>

definition subscribe :: "store \<Rightarrow> nat \<times> store" where
  "subscribe s =
     (st_next s,
      s\<lparr>st_subscribers := st_subscribers s @ [st_next s],
        st_heap := (st_heap s)(st_next s := \<lparr>sub_ch = [], sub_drops = 0, sub_closed = False\<rparr>),
        st_next := Suc (st_next s)\<rparr>)"

text \<open>The two halves of the cancel closure: removal under the lock, then the
  close of the channel outside it.\<close>
definition cancel_detach :: "nat \<Rightarrow> store \<Rightarrow> store" where
  "cancel_detach i s = s\<lparr>st_subscribers := remove1 i (st_subscribers s)\<rparr>"

definition close_ch :: "nat \<Rightarrow> store \<Rightarrow> store" where
  "close_ch i s = s\<lparr>st_heap := (st_heap s)(i := (st_heap s i)\<lparr>sub_closed := True\<rparr>)\<rparr>"

text \<open>\<^verbatim>\<open>Store.Close\<close>: the first call detaches every subscriber, which are then
  closed one by one.\<close>
definition close_detach :: "store \<Rightarrow> nat list \<times> store" where
  "close_detach s = (if st_closed s then ([], s)
     else (st_subscribers s, s\<lparr>st_subscribers := [], st_closed := True\<rparr>))"

text \<open>A receive by the consumer of a subscription.\<close>
definition receive :: "nat \<Rightarrow> store \<Rightarrow> store" where
  "receive i s = s\<lparr>st_heap := (st_heap s)(i := (st_heap s i)\<lparr>sub_ch := tl (sub_ch (st_heap s i))\<rparr>)\<rparr>"

definition offer :: "session_event \<Rightarrow> subscriber \<Rightarrow> subscriber" where
  "offer ev sub = (if length (sub_ch sub) < subscriber_chan_buf
     then sub\<lparr>sub_ch := sub_ch sub @ [ev]\<rparr> else sub\<lparr>sub_drops := sub_drops sub + 1\<rparr>)"

fun publish_loop :: "session_event \<Rightarrow> nat list \<Rightarrow> (nat \<Rightarrow> subscriber) \<Rightarrow> (nat \<Rightarrow> subscriber) option" where
  "publish_loop ev [] h = Some h"
| "publish_loop ev (i # is) h =
     (if sub_closed (h i) then None else publish_loop ev is (h(i := offer ev (h i))))"

definition publish_locked :: "session_event \<Rightarrow> store \<Rightarrow> store option" where
  "publish_locked ev s =
     map_option (\<lambda>h. s\<lparr>st_heap := h\<rparr>) (publish_loop ev (st_subscribers s) (st_heap s))"

section \<open>Sessions\<close>

text \<open>The store's own copy of the intent predicate of \<^verbatim>\<open>SessionView.LastIntent\<close>.\<close>
definition is_intent_event :: "session_event \<Rightarrow> bool" where
  "is_intent_event e =
     (ev_direction e = Inbound \<and> ev_phase e = SessionRequest \<and> ev_a2a e \<noteq> None)"

definition trim_events_pin_intent :: "session_event list \<Rightarrow> int \<Rightarrow> session_event list" where
  "trim_events_pin_intent events max_events =
     (if max_events \<le> 0 \<or> int (length events) \<le> max_events then events
      else
        let m = nat max_events;
            excess = length events - m
        in case find_last is_intent_event events of
             None \<Rightarrow> drop excess events
           | Some idx \<Rightarrow>
               if idx \<ge> excess then drop excess events
               else events ! idx # drop (length events - (m - 1)) events)"

definition is_expired :: "store \<Rightarrow> entry \<Rightarrow> time \<Rightarrow> bool" where
  "is_expired s e now = (now - en_updated_at e > st_ttl s)"

fun oldest_loop :: "string \<Rightarrow> string \<times> time \<Rightarrow> (string, entry) gomap \<Rightarrow> string \<times> time" where
  "oldest_loop active acc [] = acc"
| "oldest_loop active (oid, ot) ((k, e) # es) =
     (if k = active then oldest_loop active (oid, ot) es
      else if oid = '''' \<or> en_updated_at e < ot then oldest_loop active (k, en_updated_at e) es
      else oldest_loop active (oid, ot) es)"

definition evict_oldest_locked :: "store \<Rightarrow> store" where
  "evict_oldest_locked s =
     (let oid = fst (oldest_loop (st_active_id s) ('''', 0) (st_sessions s));
          (victim, s') = (if oid = '''' then (st_active_id s, s\<lparr>st_active_id := ''''\<rparr>) else (oid, s))
      in if victim \<noteq> '''' then s'\<lparr>st_sessions := gm_del victim (st_sessions s')\<rparr> else s')"

text \<open>The session that receives the event, with the event appended.\<close>
definition grow_entry :: "time \<Rightarrow> string \<Rightarrow> session_event \<Rightarrow> store \<Rightarrow> entry" where
  "grow_entry now sid ev s =
     (let e = (case gm_get (st_sessions s) sid of
          Some e \<Rightarrow> e
        | None \<Rightarrow> \<lparr>en_id = sid, en_events = [], en_created_at = now, en_updated_at = now\<rparr>)
      in e\<lparr>en_events := en_events e @ [ev], en_updated_at := now\<rparr>)"

definition store_append :: "time \<Rightarrow> string \<Rightarrow> session_event \<Rightarrow> store \<Rightarrow> store option" where
  "store_append now session_id event s =
     (let sid = take max_session_id_len session_id;
          ev = event\<lparr>ev_session_id := sid\<rparr>;
          e = grow_entry now sid ev s
      in case publish_locked ev (s\<lparr>st_sessions := gm_put sid e (st_sessions s), st_active_id := sid\<rparr>) of
           None \<Rightarrow> None
         | Some s1 \<Rightarrow>
             (let e' = (if st_max_events s > 0 \<and> int (length (en_events e)) > st_max_events s
                        then e\<lparr>en_events := trim_events_pin_intent (en_events e) (st_max_events s)\<rparr> else e);
                  s2 = s1\<lparr>st_sessions := gm_put sid e' (st_sessions s1)\<rparr>
              in Some (if st_max_sessions s > 0 \<and> int (length (st_sessions s2)) > st_max_sessions s
                       then evict_oldest_locked s2 else s2)))"

definition store_view :: "time \<Rightarrow> string \<Rightarrow> store \<Rightarrow> session_view option" where
  "store_view now session_id s =
     (case gm_get (st_sessions s) session_id of
        None \<Rightarrow> None
      | Some e \<Rightarrow> if is_expired s e now then None
                  else Some \<lparr>view_id = session_id, view_events = en_events e\<rparr>)"

definition sum_tokens :: "session_event list \<Rightarrow> int" where
  "sum_tokens events = foldl (\<lambda>total e.
     if ev_phase e \<noteq> SessionResponse then total
     else case ev_inference e of None \<Rightarrow> total | Some i \<Rightarrow> total + inf_total_tokens i) 0 events"

text \<open>\<^verbatim>\<open>ListSessions\<close>: the summaries of the live sessions, latest update first.\<close>
definition list_sessions :: "time \<Rightarrow> store \<Rightarrow> session_summary list" where
  "list_sessions now s =
     sort_key (\<lambda>x. - sum_updated_at x)
       (map (\<lambda>(k, e). \<lparr>sum_id = k, sum_created_at = en_created_at e, sum_updated_at = en_updated_at e,
                        sum_event_count = length (en_events e), sum_total_tokens = sum_tokens (en_events e),
                        sum_active = (k = st_active_id s)\<rparr>)
          (filter (\<lambda>(k, e). \<not> is_expired s e now) (st_sessions s)))"

definition active_session :: "time \<Rightarrow> store \<Rightarrow> string" where
  "active_session now s =
     (if st_active_id s = '''' then ''''
      else case gm_get (st_sessions s) (st_active_id s) of
             None \<Rightarrow> ''''
           | Some e \<Rightarrow> if is_expired s e now then '''' else st_active_id s)"

definition rekey :: "string \<Rightarrow> string \<Rightarrow> store \<Rightarrow> store" where
  "rekey old_id new_id s =
     (if old_id = new_id \<or> old_id = '''' \<or> new_id = '''' then s
      else let nid = take max_session_id_len new_id in
        case gm_get (st_sessions s) old_id of
          None \<Rightarrow> s
        | Some e \<Rightarrow>
            if gm_get (st_sessions s) nid \<noteq> None then s
            else let e' = e\<lparr>en_id := nid, en_events := map (\<lambda>v. v\<lparr>ev_session_id := nid\<rparr>) (en_events e)\<rparr>
                 in s\<lparr>st_sessions := gm_del old_id (gm_put nid e' (st_sessions s)),
                      st_active_id := (if st_active_id s = old_id then nid else st_active_id s)\<rparr>)"

definition cleanup_locked :: "time \<Rightarrow> store \<Rightarrow> store" where
  "cleanup_locked now s =
     s\<lparr>st_sessions := filter (\<lambda>(k, e). \<not> is_expired s e now) (st_sessions s),
       st_active_id := (case gm_get (st_sessions s) (st_active_id s) of
          Some e \<Rightarrow> if is_expired s e now then '''' else st_active_id s
        | None \<Rightarrow> st_active_id s)\<rparr>"

section \<open>The store as a transition system\<close>

text \<open>The store with the subscriber cells that are detached and wait for their
  channel to be closed: the interleavings of \<^verbatim>\<open>Append\<close>, \<^verbatim>\<open>Rekey\<close>, \<^verbatim>\<open>Cleanup\<close>,
  \<^verbatim>\<open>Subscribe\<close>, the cancel closures and \<^verbatim>\<open>Close\<close>.\<close>
inductive store_step :: "store \<times> nat list \<Rightarrow> store \<times> nat list \<Rightarrow> bool" where
  step_append: "store_append now sid ev s = Some s' \<Longrightarrow> sid \<noteq> '''' \<Longrightarrow> store_step (s, todo) (s', todo)"
| step_rekey: "store_step (s, todo) (rekey old_id new_id s, todo)"
| step_cleanup: "store_step (s, todo) (cleanup_locked now s, todo)"
| step_subscribe: "subscribe s = (i, s') \<Longrightarrow> store_step (s, todo) (s', todo)"
| step_cancel: "i < st_next s \<Longrightarrow> store_step (s, todo) (cancel_detach i s, i # todo)"
| step_close: "close_detach s = (is, s') \<Longrightarrow> store_step (s, todo) (s', is @ todo)"
| step_close_ch: "i \<in> set todo \<Longrightarrow> store_step (s, todo) (close_ch i s, remove1 i todo)"
| step_receive: "store_step (s, todo) (receive i s, todo)"

inductive store_reach :: "time \<Rightarrow> int \<Rightarrow> int \<Rightarrow> store \<times> nat list \<Rightarrow> bool" for ttl me ms where
  reach_new: "store_reach ttl me ms (new_store ttl me ms, [])"
| reach_step: "store_reach ttl me ms x \<Longrightarrow> store_step x y \<Longrightarrow> store_reach ttl me ms y"

text \<open>The entry that ends up in the store.\<close>
definition settled_entry :: "time \<Rightarrow> string \<Rightarrow> session_event \<Rightarrow> store \<Rightarrow> entry" where
  "settled_entry now sid ev s =
     (let e = grow_entry now sid ev s in
      if st_max_events s > 0 \<and> int (length (en_events e)) > st_max_events s
      then e\<lparr>en_events := trim_events_pin_intent (en_events e) (st_max_events s)\<rparr> else e)"

text \<open>The invariant: keys are distinct, every session carries its own key and
  stays in bounds, the active session exists, and attached subscribers are
  open, known and never hold more than the channel capacity.\<close>
definition entry_ok :: "int \<Rightarrow> string \<Rightarrow> entry \<Rightarrow> bool" where
  "entry_ok me k e = (k \<noteq> '''' \<and> en_id e = k \<and> (\<forall>v \<in> set (en_events e). ev_session_id v = k) \<and>
     (me > 0 \<longrightarrow> int (length (en_events e)) \<le> me))"

definition sessions_ok :: "store \<Rightarrow> bool" where
  "sessions_ok s = (gm_ok (st_sessions s) \<and>
     (\<forall>(k, e) \<in> set (st_sessions s). entry_ok (st_max_events s) k e) \<and>
     (st_max_sessions s > 0 \<longrightarrow> int (length (st_sessions s)) \<le> st_max_sessions s) \<and>
     (st_active_id s = '''' \<or> st_active_id s \<in> set (gm_keys (st_sessions s))))"

definition subs_ok :: "store \<Rightarrow> bool" where
  "subs_ok s = (distinct (st_subscribers s) \<and>
     (\<forall>i \<in> set (st_subscribers s). i < st_next s \<and> \<not> sub_closed (st_heap s i)) \<and>
     (\<forall>i. length (sub_ch (st_heap s i)) \<le> subscriber_chan_buf))"

text \<open>Sessions and subscribers are in order, and a cell that waits to be closed
  is detached.\<close>
definition store_inv :: "store \<times> nat list \<Rightarrow> bool" where
  "store_inv x = (sessions_ok (fst x) \<and> subs_ok (fst x) \<and>
     (\<forall>i \<in> set (snd x). i < st_next (fst x) \<and> i \<notin> set (st_subscribers (fst x))))"

text \<open>Two events of a session, a user message and a tool call.\<close>
definition intent_event :: session_event where
  "intent_event = \<lparr>ev_session_id = '''', ev_at = 1, ev_direction = Inbound, ev_phase = SessionRequest,
     ev_a2a = Some \<lparr>a2a_method = ''message/send'', a2a_rpc_id = JNull, a2a_session_id = '''', a2a_message_id = '''',
        a2a_task_id = '''', a2a_role = ''user'', a2a_parts = [], a2a_final_status = '''', a2a_artifact = '''',
        a2a_error_message = '''', a2a_is_action = True\<rparr>,
     ev_mcp = None, ev_inference = None, ev_invocations = None, ev_plugins = [], ev_identity = None,
     ev_status_code = 0, ev_error = None, ev_host = '''', ev_duration = 0, ev_tls = None\<rparr>"

definition tool_event :: session_event where
  "tool_event = intent_event\<lparr>ev_direction := Outbound, ev_a2a := None\<rparr>"

section \<open>Lemmas: publishing\<close>

lemma offer_simps [simp]: "sub_closed (offer ev x) = sub_closed x"
  by (simp add: offer_def)

lemma offer_bound: "length (sub_ch x) \<le> subscriber_chan_buf \<Longrightarrow> length (sub_ch (offer ev x)) \<le> subscriber_chan_buf"
  by (simp add: offer_def)

lemma publish_loop_total:
  assumes "\<forall>i \<in> set is. \<not> sub_closed (h i)"
  shows "\<exists>h'. publish_loop ev is h = Some h' \<and> (\<forall>i. sub_closed (h' i) = sub_closed (h i)) \<and>
    ((\<forall>i. length (sub_ch (h i)) \<le> subscriber_chan_buf) \<longrightarrow> (\<forall>i. length (sub_ch (h' i)) \<le> subscriber_chan_buf))"
  using assms
proof (induction ev "is" h rule: publish_loop.induct)
  case (2 ev i "is" h)
  let ?h = "h(i := offer ev (h i))"
  have open1: "\<not> sub_closed (h i)" and open2: "\<forall>j \<in> set is. \<not> sub_closed (?h j)"
    using 2(2) by auto
  obtain h' where "publish_loop ev is ?h = Some h'" "\<forall>j. sub_closed (h' j) = sub_closed (?h j)"
    "(\<forall>j. length (sub_ch (?h j)) \<le> subscriber_chan_buf) \<longrightarrow> (\<forall>j. length (sub_ch (h' j)) \<le> subscriber_chan_buf)"
    using 2(1)[OF open1 open2] by blast
  moreover have "(\<forall>j. length (sub_ch (h j)) \<le> subscriber_chan_buf) \<longrightarrow>
      (\<forall>j. length (sub_ch (?h j)) \<le> subscriber_chan_buf)"
    by (simp add: offer_bound)
  ultimately show ?case using open1 by auto
qed simp

section \<open>Lemmas: trimming\<close>

lemma is_intent_event_eq: "is_intent_event = is_intent"
  by (simp add: is_intent_event_def is_intent_def fun_eq_iff)

lemma trim_length:
  "me > 0 \<Longrightarrow> int (length (trim_events_pin_intent es me)) \<le> max me (int (length es)) \<and>
   (int (length es) > me \<longrightarrow> int (length (trim_events_pin_intent es me)) = me)"
  by (auto simp: trim_events_pin_intent_def Let_def split: option.splits)

lemma trim_subset: "set (trim_events_pin_intent es me) \<subseteq> set es"
  by (auto simp: trim_events_pin_intent_def Let_def dest!: find_last_Some dest: in_set_dropD split: option.splits)

lemma find_last_drop:
  assumes "find_last P xs = Some j" "n \<le> j"
  shows "filter P (drop n xs) \<noteq> [] \<and> last (filter P (drop n xs)) = xs ! j"
proof -
  have j: "j < length xs" "P (xs ! j)" "\<forall>x \<in> set (drop (Suc j) xs). \<not> P x"
    using find_last_Some[OF assms(1)] by auto
  have "drop n xs = take (j - n) (drop n xs) @ xs ! j # drop (Suc j) xs"
    using id_take_nth_drop[of "j - n" "drop n xs"] j(1) assms(2) by simp
  from arg_cong[OF this, of "filter P"]
  have "filter P (drop n xs) = filter P (take (j - n) (drop n xs)) @ [xs ! j]"
    using j(2,3) by (simp only: filter_append filter.simps if_True filter_False)
  then show ?thesis by simp
qed

lemma trim_last_intent:
  assumes "me > 0"
  shows "last_intent \<lparr>view_id = i, view_events = trim_events_pin_intent es me\<rparr> =
         last_intent \<lparr>view_id = i, view_events = es\<rparr>"
proof (cases "int (length es) \<le> me")
  case True
  then show ?thesis by (simp add: trim_events_pin_intent_def)
next
  case big: False
  define n where "n = length es - nat me"
  have I: "view_intents \<lparr>view_id = i, view_events = xs\<rparr> = filter is_intent xs" for xs
    by (simp add: view_intents_filter)
  have T: "trim_events_pin_intent es me = (case find_last is_intent es of None \<Rightarrow> drop n es
      | Some j \<Rightarrow> if n \<le> j then drop n es else es ! j # drop (length es - (nat me - 1)) es)"
    using big assms
    by (auto simp: trim_events_pin_intent_def is_intent_event_eq Let_def n_def split: option.splits)
  show ?thesis
  proof (cases "find_last is_intent es")
    case None
    then have "filter is_intent es = []" "filter is_intent (drop n es) = []"
      by (auto simp: filter_empty_conv find_last_None dest: in_set_dropD)
    then show ?thesis using None by (simp add: T last_intent_last I)
  next
    case (Some j)
    note keep = find_last_filter[OF Some]
    show ?thesis
    proof (cases "n \<le> j")
      case True
      then show ?thesis using find_last_drop[OF Some True] keep Some by (simp add: T last_intent_last I)
    next
      case False
      have j: "is_intent (es ! j)" "\<forall>x \<in> set (drop (Suc j) es). \<not> is_intent x"
        using find_last_Some[OF Some] by auto
      have "j < length es - nat me" "0 < nat me" using False assms by (simp_all add: n_def)
      then have "Suc j \<le> length es - (nat me - 1)" by linarith
      from set_drop_subset_set_drop[OF this, of es]
      have "filter is_intent (drop (length es - (nat me - 1)) es) = []"
        using j(2) by (auto simp: filter_empty_conv)
      then show ?thesis using False Some keep j(1) by (simp add: T last_intent_last I)
    qed
  qed
qed

section \<open>Lemmas: eviction\<close>

lemma oldest_loop_member:
  "oldest_loop a (oid, ot) es = (r, t) \<Longrightarrow>
     r = oid \<and> t = ot \<or> (\<exists>e. (r, e) \<in> set es \<and> r \<noteq> a \<and> t = en_updated_at e)"
proof (induction es arbitrary: oid ot)
  case (Cons p es)
  obtain k e where p: "p = (k, e)" by (cases p)
  consider "oldest_loop a (oid, ot) es = (r, t)" | "k \<noteq> a" "oldest_loop a (k, en_updated_at e) es = (r, t)"
    using Cons.prems p by (auto split: if_splits)
  then show ?case
  proof cases
    case 1
    from Cons.IH[OF this] show ?thesis by auto
  next
    case 2
    from Cons.IH[OF 2(2)] 2(1) p show ?thesis by auto
  qed
qed simp

lemma oldest_loop_min:
  "\<lbrakk>\<forall>(k, e) \<in> set es. k \<noteq> ''''; oid \<noteq> ''''; oldest_loop a (oid, ot) es = (r, t)\<rbrakk> \<Longrightarrow>
     r \<noteq> '''' \<and> t \<le> ot \<and> (\<forall>(k, e) \<in> set es. k \<noteq> a \<longrightarrow> t \<le> en_updated_at e)"
proof (induction es arbitrary: oid ot)
  case (Cons p es)
  obtain k e where p: "p = (k, e)" by (cases p)
  have ne: "\<forall>(k, e) \<in> set es. k \<noteq> ''''" "k \<noteq> ''''" using Cons.prems(1) p by auto
  show ?case
  proof (cases "k \<noteq> a \<and> en_updated_at e < ot")
    case True
    then have "oldest_loop a (k, en_updated_at e) es = (r, t)" using Cons.prems p by simp
    from Cons.IH[OF ne(1,2) this] True p show ?thesis by auto
  next
    case False
    then have "oldest_loop a (oid, ot) es = (r, t)" using Cons.prems p by (auto split: if_splits)
    from Cons.IH[OF ne(1) Cons.prems(2) this] False p show ?thesis by auto
  qed
qed simp

lemma oldest_loop_first:
  "\<lbrakk>\<forall>(k, e) \<in> set es. k \<noteq> ''''; (k0, e0) \<in> set es; k0 \<noteq> a; oldest_loop a ('''', ot) es = (r, t)\<rbrakk> \<Longrightarrow>
     r \<noteq> '''' \<and> (\<forall>(k, e) \<in> set es. k \<noteq> a \<longrightarrow> t \<le> en_updated_at e)"
proof (induction es)
  case (Cons p es)
  obtain k e where p: "p = (k, e)" by (cases p)
  have ne: "\<forall>(k, e) \<in> set es. k \<noteq> ''''" "k \<noteq> ''''" using Cons.prems(1) p by auto
  show ?case
  proof (cases "k = a")
    case True
    then have "oldest_loop a ('''', ot) es = (r, t)" "(k0, e0) \<in> set es" using Cons.prems p by auto
    from Cons.IH[OF ne(1) this(2) Cons.prems(3) this(1)] True p show ?thesis by auto
  next
    case False
    then have "oldest_loop a (k, en_updated_at e) es = (r, t)" using Cons.prems p by simp
    from oldest_loop_min[OF ne(1,2) this] p show ?thesis by auto
  qed
qed simp

text \<open>With another session present, the victim is a least recently updated
  session other than the active one.\<close>
lemma evict_oldest_spec:
  assumes "\<forall>(k, e) \<in> set (st_sessions s). k \<noteq> ''''" "(k0, e0) \<in> set (st_sessions s)" "k0 \<noteq> st_active_id s"
  shows "\<exists>v ve. evict_oldest_locked s = s\<lparr>st_sessions := gm_del v (st_sessions s)\<rparr> \<and>
    v \<noteq> st_active_id s \<and> (v, ve) \<in> set (st_sessions s) \<and>
    (\<forall>(k, e) \<in> set (st_sessions s). k \<noteq> st_active_id s \<longrightarrow> en_updated_at ve \<le> en_updated_at e)"
proof -
  obtain r t where r: "oldest_loop (st_active_id s) ('''', 0) (st_sessions s) = (r, t)" by fastforce
  have m: "r \<noteq> ''''" "\<forall>(k, e) \<in> set (st_sessions s). k \<noteq> st_active_id s \<longrightarrow> t \<le> en_updated_at e"
    using oldest_loop_first[OF assms r] by auto
  then obtain e where "(r, e) \<in> set (st_sessions s)" "r \<noteq> st_active_id s" "t = en_updated_at e"
    using oldest_loop_member[OF r] by auto
  with m have "evict_oldest_locked s = s\<lparr>st_sessions := gm_del r (st_sessions s)\<rparr> \<and>
    r \<noteq> st_active_id s \<and> (r, e) \<in> set (st_sessions s) \<and>
    (\<forall>(k, x) \<in> set (st_sessions s). k \<noteq> st_active_id s \<longrightarrow> en_updated_at e \<le> en_updated_at x)"
    using r by (simp add: evict_oldest_locked_def)
  then show ?thesis by blast
qed

section \<open>Lemmas: appending\<close>

lemma store_append_cases:
  assumes "store_append now session_id ev s = Some s'" "sid = take max_session_id_len session_id"
  shows "\<exists>h s2. s2 = s\<lparr>st_active_id := sid, st_heap := h, st_sessions :=
      gm_put sid (settled_entry now sid (ev\<lparr>ev_session_id := sid\<rparr>) s) (st_sessions s)\<rparr> \<and>
    publish_loop (ev\<lparr>ev_session_id := sid\<rparr>) (st_subscribers s) (st_heap s) = Some h \<and>
    s' = (if st_max_sessions s > 0 \<and> int (length (st_sessions s2)) > st_max_sessions s
           then evict_oldest_locked s2 else s2)"
proof -
  obtain h where h: "publish_loop (ev\<lparr>ev_session_id := sid\<rparr>) (st_subscribers s) (st_heap s) = Some h"
    using assms by (auto simp: store_append_def publish_locked_def Let_def split: option.splits)
  let ?s2 = "s\<lparr>st_active_id := sid, st_heap := h, st_sessions :=
      gm_put sid (settled_entry now sid (ev\<lparr>ev_session_id := sid\<rparr>) s) (st_sessions s)\<rparr>"
  have "store_append now session_id ev s =
      Some (if st_max_sessions s > 0 \<and> int (length (st_sessions ?s2)) > st_max_sessions s
            then evict_oldest_locked ?s2 else ?s2)"
    using h assms(2) by (simp add: store_append_def publish_locked_def settled_entry_def Let_def)
  then show ?thesis using h assms(1) by (intro exI[of _ h] exI[of _ ?s2]) simp
qed

lemma settled_entry_ok:
  assumes "sessions_ok s" "sid \<noteq> ''''" "ev_session_id ev = sid"
  shows "entry_ok (st_max_events s) sid (settled_entry now sid ev s)"
proof -
  have "case gm_get (st_sessions s) sid of None \<Rightarrow> True | Some e \<Rightarrow> entry_ok (st_max_events s) sid e"
    using assms(1) by (auto simp: sessions_ok_def dest: map_of_SomeD split: option.splits)
  then show ?thesis using assms(2,3) trim_subset[of "en_events (grow_entry now sid ev s)" "st_max_events s"]
      trim_length[of "st_max_events s" "en_events (grow_entry now sid ev s)"]
    by (auto simp: settled_entry_def grow_entry_def entry_ok_def Let_def split: option.splits if_splits)
qed

lemma evict_sessions_ok:
  assumes ok: "gm_ok (st_sessions s)" "\<forall>(k, e) \<in> set (st_sessions s). entry_ok (st_max_events s) k e"
    and act: "st_active_id s \<in> set (gm_keys (st_sessions s))"
    and len: "st_max_sessions s > 0" "int (length (st_sessions s)) = st_max_sessions s + 1"
  shows "\<exists>v ve. evict_oldest_locked s = s\<lparr>st_sessions := gm_del v (st_sessions s)\<rparr> \<and>
      v \<noteq> st_active_id s \<and> (v, ve) \<in> set (st_sessions s) \<and>
      (\<forall>(k, e) \<in> set (st_sessions s). k \<noteq> st_active_id s \<longrightarrow> en_updated_at ve \<le> en_updated_at e)"
    and "sessions_ok (evict_oldest_locked s)"
proof -
  have keys: "\<forall>(k, e) \<in> set (st_sessions s). k \<noteq> ''''" using ok(2) by (auto simp: entry_ok_def)
  have "card (set (gm_keys (st_sessions s))) \<ge> 2"
    using len ok(1) distinct_card[of "gm_keys (st_sessions s)"] by simp
  then have "\<not> fst ` set (st_sessions s) \<subseteq> {st_active_id s}"
    using card_mono[of "{st_active_id s}" "fst ` set (st_sessions s)"] by auto
  then obtain k0 e0 where "(k0, e0) \<in> set (st_sessions s)" "k0 \<noteq> st_active_id s" by fastforce
  from evict_oldest_spec[OF keys this]
  obtain v ve where v: "evict_oldest_locked s = s\<lparr>st_sessions := gm_del v (st_sessions s)\<rparr>"
    "v \<noteq> st_active_id s" "(v, ve) \<in> set (st_sessions s)"
    "\<forall>(k, e) \<in> set (st_sessions s). k \<noteq> st_active_id s \<longrightarrow> en_updated_at ve \<le> en_updated_at e" by blast
  then show "\<exists>v ve. evict_oldest_locked s = s\<lparr>st_sessions := gm_del v (st_sessions s)\<rparr> \<and>
      v \<noteq> st_active_id s \<and> (v, ve) \<in> set (st_sessions s) \<and>
      (\<forall>(k, e) \<in> set (st_sessions s). k \<noteq> st_active_id s \<longrightarrow> en_updated_at ve \<le> en_updated_at e)" by blast
  have "v \<in> set (gm_keys (st_sessions s))" using v(3) by force
  from gm_del_length[OF ok(1) this] show "sessions_ok (evict_oldest_locked s)"
    using v(1,2) ok act len by (auto simp: sessions_ok_def dest: gm_mem_del)
qed

lemma store_append_core:
  assumes ok: "sessions_ok s" and ne: "session_id \<noteq> ''''" and ap: "store_append now session_id ev s = Some s'"
  defines "sid \<equiv> take max_session_id_len session_id"
  defines "e \<equiv> settled_entry now sid (ev\<lparr>ev_session_id := sid\<rparr>) s"
  shows "sessions_ok s'" and "gm_get (st_sessions s') sid = Some e" and "st_ttl s' = st_ttl s"
    and "\<forall>k. k \<noteq> sid \<longrightarrow> gm_get (st_sessions s') k = gm_get (st_sessions s) k \<or>
       (gm_get (st_sessions s') k = None \<and> int (length (st_sessions s)) = st_max_sessions s \<and>
        (\<exists>x. gm_get (st_sessions s) k = Some x \<and>
          (\<forall>k' x'. k' \<noteq> sid \<longrightarrow> gm_get (st_sessions s) k' = Some x' \<longrightarrow> en_updated_at x \<le> en_updated_at x')))"
proof -
  obtain h s2 where s2: "s2 = s\<lparr>st_active_id := sid, st_heap := h, st_sessions := gm_put sid e (st_sessions s)\<rparr>"
    and s': "s' = (if st_max_sessions s > 0 \<and> int (length (st_sessions s2)) > st_max_sessions s
           then evict_oldest_locked s2 else s2)"
    using store_append_cases[OF ap sid_def[THEN meta_eq_to_obj_eq]] unfolding e_def by blast
  have sidne: "sid \<noteq> ''''" using ne by (simp add: sid_def max_session_id_len_def)
  have eok: "entry_ok (st_max_events s) sid e"
    unfolding e_def by (rule settled_entry_ok[OF ok sidne]) simp
  have base: "gm_ok (st_sessions s2)" "\<forall>(k, x) \<in> set (st_sessions s2). entry_ok (st_max_events s2) k x"
    "st_active_id s2 \<in> set (gm_keys (st_sessions s2))"
    using ok eok by (auto simp: s2 sessions_ok_def dest: gm_mem_put)
  have all: "sessions_ok s' \<and> gm_get (st_sessions s') sid = Some e \<and> st_ttl s' = st_ttl s \<and>
    (\<forall>k. k \<noteq> sid \<longrightarrow> gm_get (st_sessions s') k = gm_get (st_sessions s) k \<or>
       (gm_get (st_sessions s') k = None \<and> int (length (st_sessions s)) = st_max_sessions s \<and>
        (\<exists>x. gm_get (st_sessions s) k = Some x \<and>
          (\<forall>k' x'. k' \<noteq> sid \<longrightarrow> gm_get (st_sessions s) k' = Some x' \<longrightarrow> en_updated_at x \<le> en_updated_at x'))))"
  proof (cases "st_max_sessions s > 0 \<and> int (length (st_sessions s2)) > st_max_sessions s")
    case False
    then show ?thesis using base by (auto simp: s' s2 sessions_ok_def)
  next
    case True
    then have len: "int (length (st_sessions s2)) = st_max_sessions s2 + 1"
      "int (length (st_sessions s)) = st_max_sessions s"
      using ok by (auto simp: s2 sessions_ok_def gm_put_length split: if_splits)
    have pos: "st_max_sessions s2 > 0" using True by (simp add: s2)
    note ev = evict_sessions_ok[OF base pos len(1)]
    obtain v ve where v: "s' = s2\<lparr>st_sessions := gm_del v (st_sessions s2)\<rparr>" "v \<noteq> sid"
      "(v, ve) \<in> set (st_sessions s2)"
      "\<forall>(k, x) \<in> set (st_sessions s2). k \<noteq> sid \<longrightarrow> en_updated_at ve \<le> en_updated_at x"
      using ev(1) True by (auto simp: s' s2)
    have get: "gm_get (st_sessions s) k = Some x" if "(k, x) \<in> set (st_sessions s2)" "k \<noteq> sid" for k x
      using that ok by (auto simp: s2 sessions_ok_def dest: gm_put_other)
    have least: "en_updated_at ve \<le> en_updated_at x'"
      if "k' \<noteq> sid" "gm_get (st_sessions s) k' = Some x'" for k' x'
    proof -
      have "gm_get (st_sessions s2) k' = Some x'" using that by (simp add: s2)
      then show ?thesis using v(4) that(1) by (auto dest: map_of_SomeD)
    qed
    show ?thesis using ev(2) True v get[OF v(3,2)] least len(2) by (auto simp: s' s2)
  qed
  then show "sessions_ok s'" "gm_get (st_sessions s') sid = Some e" "st_ttl s' = st_ttl s"
    "\<forall>k. k \<noteq> sid \<longrightarrow> gm_get (st_sessions s') k = gm_get (st_sessions s) k \<or>
       (gm_get (st_sessions s') k = None \<and> int (length (st_sessions s)) = st_max_sessions s \<and>
        (\<exists>x. gm_get (st_sessions s) k = Some x \<and>
          (\<forall>k' x'. k' \<noteq> sid \<longrightarrow> gm_get (st_sessions s) k' = Some x' \<longrightarrow> en_updated_at x \<le> en_updated_at x')))"
    by blast+
qed

section \<open>Lemmas: the invariant\<close>

lemma evict_frame [simp]:
  "st_subscribers (evict_oldest_locked s) = st_subscribers s" "st_heap (evict_oldest_locked s) = st_heap s"
  "st_next (evict_oldest_locked s) = st_next s" "st_max_events (evict_oldest_locked s) = st_max_events s"
  "st_max_sessions (evict_oldest_locked s) = st_max_sessions s" "st_ttl (evict_oldest_locked s) = st_ttl s"
  by (simp_all add: evict_oldest_locked_def Let_def)

lemma append_frame:
  assumes "store_append now session_id ev s = Some s'"
  shows "st_subscribers s' = st_subscribers s" "st_next s' = st_next s" "st_max_events s' = st_max_events s"
    "st_max_sessions s' = st_max_sessions s" "st_ttl s' = st_ttl s"
    "\<exists>sid. publish_loop (ev\<lparr>ev_session_id := sid\<rparr>) (st_subscribers s) (st_heap s) = Some (st_heap s')"
  using store_append_cases[OF assms refl] by (auto split: if_splits)

lemma append_total:
  assumes "subs_ok s"
  shows "\<exists>s'. store_append now session_id ev s = Some s' \<and> subs_ok s'"
proof -
  define sid where "sid = take max_session_id_len session_id"
  obtain h where h: "publish_loop (ev\<lparr>ev_session_id := sid\<rparr>) (st_subscribers s) (st_heap s) = Some h"
    using publish_loop_total[of "st_subscribers s" "st_heap s"] assms unfolding subs_ok_def by blast
  then obtain s' where s': "store_append now session_id ev s = Some s'"
    by (simp add: store_append_def publish_locked_def Let_def sid_def)
  obtain sid' where "publish_loop (ev\<lparr>ev_session_id := sid'\<rparr>) (st_subscribers s) (st_heap s) = Some (st_heap s')"
    using append_frame(6)[OF s'] by blast
  then have "(\<forall>i. sub_closed (st_heap s' i) = sub_closed (st_heap s i)) \<and>
    (\<forall>i. length (sub_ch (st_heap s' i)) \<le> subscriber_chan_buf)"
    using publish_loop_total[of "st_subscribers s" "st_heap s" "ev\<lparr>ev_session_id := sid'\<rparr>"] assms
    by (auto simp: subs_ok_def)
  then have "subs_ok s'" using assms append_frame(1,2)[OF s'] by (simp add: subs_ok_def)
  then show ?thesis using s' by blast
qed

lemma entry_ok_restamp:
  "entry_ok me k e \<Longrightarrow> n \<noteq> '''' \<Longrightarrow>
   entry_ok me n (e\<lparr>en_id := n, en_events := map (\<lambda>v. v\<lparr>ev_session_id := n\<rparr>) (en_events e)\<rparr>)"
  by (auto simp: entry_ok_def)

lemma rekey_ok:
  assumes "sessions_ok s"
  shows "sessions_ok (rekey old_id new_id s)"
proof (cases "rekey old_id new_id s = s")
  case False
  define nid where "nid = take max_session_id_len new_id"
  obtain e where e: "gm_get (st_sessions s) old_id = Some e" "gm_get (st_sessions s) nid = None"
    "old_id \<noteq> ''''" "new_id \<noteq> ''''"
    using False by (auto simp: rekey_def nid_def Let_def split: if_splits option.splits)
  let ?e = "e\<lparr>en_id := nid, en_events := map (\<lambda>v. v\<lparr>ev_session_id := nid\<rparr>) (en_events e)\<rparr>"
  have r: "rekey old_id new_id s = s\<lparr>st_sessions := gm_del old_id (gm_put nid ?e (st_sessions s)),
      st_active_id := (if st_active_id s = old_id then nid else st_active_id s)\<rparr>"
    using False e by (auto simp: rekey_def nid_def Let_def split: if_splits)
  have ne: "nid \<noteq> old_id" "nid \<noteq> ''''" using e by (auto simp: nid_def max_session_id_len_def)
  have ok1: "entry_ok (st_max_events s) nid ?e"
    using assms e(1) ne(2) by (intro entry_ok_restamp[of _ old_id]) (auto simp: sessions_ok_def dest: map_of_SomeD)
  have keys: "nid \<notin> fst ` set (st_sessions s)" "old_id \<in> fst ` set (st_sessions s)"
    using e by (auto simp: map_of_eq_None_iff dest: gm_get_keys)
  have gok: "gm_ok (gm_put nid ?e (st_sessions s))" using assms by (simp add: sessions_ok_def)
  have len: "length (gm_del old_id (gm_put nid ?e (st_sessions s))) = length (st_sessions s)"
    using gm_del_length[OF gok, of old_id] keys by (simp add: gm_put_length)
  have ents: "\<forall>(k, x) \<in> set (gm_del old_id (gm_put nid ?e (st_sessions s))). entry_ok (st_max_events s) k x"
    using assms ok1 by (auto simp: sessions_ok_def dest!: gm_mem_del gm_mem_put)
  have act: "(if st_active_id s = old_id then nid else st_active_id s) = '''' \<or>
      (if st_active_id s = old_id then nid else st_active_id s)
        \<in> fst ` set (gm_del old_id (gm_put nid ?e (st_sessions s)))"
    using assms ne(1) unfolding sessions_ok_def gm_keys_del gm_keys_put by auto
  show ?thesis using assms gok len ents act unfolding r sessions_ok_def by simp
qed (simp add: assms)

lemma store_cleanup_ok:
  assumes "sessions_ok s"
  shows "sessions_ok (cleanup_locked now s)"
proof -
  have len: "st_max_sessions s > 0 \<longrightarrow>
      int (length (filter (\<lambda>(k, e). \<not> is_expired s e now) (st_sessions s))) \<le> st_max_sessions s"
    using assms unfolding sessions_ok_def
    by (metis (no_types, lifting) length_filter_le of_nat_mono order_trans)
  have "st_active_id (cleanup_locked now s) = '''' \<or>
    st_active_id (cleanup_locked now s) \<in> set (gm_keys (st_sessions (cleanup_locked now s)))"
  proof (cases "gm_get (st_sessions s) (st_active_id s)")
    case None
    then have "st_active_id s = ''''" using assms unfolding sessions_ok_def map_of_eq_None_iff by auto
    then show ?thesis using None by (simp add: cleanup_locked_def)
  next
    case (Some e)
    then show ?thesis by (force simp: cleanup_locked_def dest: map_of_SomeD)
  qed
  then show ?thesis using assms len by (simp add: sessions_ok_def cleanup_locked_def)
qed

lemma rekey_frame [simp]:
  "st_subscribers (rekey a b s) = st_subscribers s" "st_heap (rekey a b s) = st_heap s"
  "st_next (rekey a b s) = st_next s" "st_max_events (rekey a b s) = st_max_events s"
  "st_max_sessions (rekey a b s) = st_max_sessions s" "st_ttl (rekey a b s) = st_ttl s"
  by (simp_all add: rekey_def Let_def split: option.splits)

lemma cleanup_frame [simp]:
  "st_subscribers (cleanup_locked n s) = st_subscribers s" "st_heap (cleanup_locked n s) = st_heap s"
  "st_next (cleanup_locked n s) = st_next s"
  by (simp_all add: cleanup_locked_def)

lemma sessions_ok_frame:
  assumes "st_sessions s' = st_sessions s" "st_max_events s' = st_max_events s"
    "st_max_sessions s' = st_max_sessions s" "st_active_id s' = st_active_id s"
  shows "sessions_ok s' = sessions_ok s"
  using assms by (simp add: sessions_ok_def)

lemma subscribe_subs_ok: "subs_ok s \<Longrightarrow> subs_ok (snd (subscribe s))"
  unfolding subs_ok_def subscribe_def by (auto simp: subscriber_chan_buf_def less_SucI)

lemma cancel_subs_ok: "subs_ok s \<Longrightarrow> subs_ok (cancel_detach i s) \<and> i \<notin> set (st_subscribers (cancel_detach i s))"
  unfolding subs_ok_def cancel_detach_def by (auto dest: notin_set_remove1)

lemma close_ch_subs_ok: "subs_ok s \<Longrightarrow> i \<notin> set (st_subscribers s) \<Longrightarrow> subs_ok (close_ch i s)"
  unfolding subs_ok_def close_ch_def by auto

lemma receive_subs_ok: "subs_ok s \<Longrightarrow> subs_ok (receive i s)"
  unfolding subs_ok_def receive_def by (auto intro: le_trans[OF diff_le_self])

lemma store_step_inv:
  assumes "store_step x y" "store_inv x"
  shows "store_inv y"
  using assms
proof (induction rule: store_step.induct)
  case (step_append now sid ev s s' todo)
  have "sessions_ok s" "subs_ok s" using step_append(3) by (simp_all add: store_inv_def)
  then have "sessions_ok s'" "subs_ok s'"
    using store_append_core(1)[OF _ step_append(2,1)] append_total[of s now sid ev] step_append(1) by auto
  then show ?case using step_append(3) append_frame(1,2)[OF step_append(1)] by (simp add: store_inv_def)
next
  case (step_rekey s todo old_id new_id)
  then show ?case by (simp add: store_inv_def rekey_ok subs_ok_def)
next
  case (step_cleanup s todo now)
  then show ?case by (simp add: store_inv_def store_cleanup_ok subs_ok_def)
next
  case (step_subscribe s i s' todo)
  have "sessions_ok (snd (subscribe s)) = sessions_ok s"
    by (rule sessions_ok_frame) (simp_all add: subscribe_def)
  then have "sessions_ok s'" "subs_ok s'"
    using subscribe_subs_ok[of s] step_subscribe by (simp_all add: store_inv_def)
  then show ?case using step_subscribe by (auto simp: store_inv_def subscribe_def)
next
  case (step_cancel i s todo)
  have "sessions_ok (cancel_detach i s)"
    using step_cancel(2) by (simp add: store_inv_def cancel_detach_def sessions_ok_def)
  then show ?case using step_cancel cancel_subs_ok[of s i]
    by (auto simp: store_inv_def cancel_detach_def dest: notin_set_remove1)
next
  case (step_close s "is" s' todo)
  have "sessions_ok (snd (close_detach s)) = sessions_ok s"
    by (rule sessions_ok_frame) (simp_all add: close_detach_def)
  then show ?case using step_close
    by (auto simp: store_inv_def subs_ok_def close_detach_def split: if_splits)
next
  case (step_close_ch i todo s)
  have "sessions_ok (close_ch i s)"
    using step_close_ch(2) by (simp add: store_inv_def close_ch_def sessions_ok_def)
  then show ?case using step_close_ch close_ch_subs_ok[of s i]
    by (auto simp: store_inv_def close_ch_def dest: notin_set_remove1)
next
  case (step_receive s todo i)
  have "sessions_ok (receive i s)"
    using step_receive by (simp add: store_inv_def receive_def sessions_ok_def)
  then show ?case using step_receive receive_subs_ok[of s i] by (simp add: store_inv_def receive_def)
qed

lemma store_reach_inv: "store_reach ttl me ms x \<Longrightarrow> store_inv x"
proof (induction rule: store_reach.induct)
  case reach_new
  then show ?case by (simp add: store_inv_def new_store_def sessions_ok_def subs_ok_def)
next
  case (reach_step x y)
  then show ?case using store_step_inv by blast
qed

section \<open>Properties of the session store\<close>

lemma subseq_drop: "subseq (drop n xs) xs"
  by (metis append_take_drop_id list_emb_append2 subseq_order.refl)

lemma subseq_nth_drop: "i < n \<Longrightarrow> i < length xs \<Longrightarrow> subseq (xs ! i # drop n xs) xs"
proof -
  assume i: "i < n" "i < length xs"
  have "subseq (drop (n - Suc i) (drop (Suc i) xs)) (drop (Suc i) xs)" by (rule subseq_drop)
  then have "subseq (xs ! i # drop n xs) (drop i xs)"
    using i Cons_nth_drop_Suc[OF i(2)] by (metis drop_drop le_add_diff_inverse2 Suc_leI subseq_Cons2)
  then show ?thesis using subseq_drop subseq_order.trans by blast
qed

text \<open>Trimming an over-full session keeps exactly the configured number
  of events, in chronological order, all of them from the session, and the
  latest user intent that a view reports is the same before and after.\<close>
lemma trim_pins_last_intent:
  assumes "me > 0" "int (length es) > me"
  shows "int (length (trim_events_pin_intent es me)) = me \<and>
         subseq (trim_events_pin_intent es me) es \<and>
         last_intent \<lparr>view_id = i, view_events = trim_events_pin_intent es me\<rparr> =
         last_intent \<lparr>view_id = i, view_events = es\<rparr>"
proof -
  have "subseq (trim_events_pin_intent es me) es"
    using find_last_Some[of is_intent_event es] assms
    by (auto simp: trim_events_pin_intent_def Let_def subseq_drop intro!: subseq_nth_drop split: option.splits)
  then show ?thesis using trim_length[OF assms(1), of es] trim_last_intent[OF assms(1)] assms(2) by simp
qed

lemma trim_pins_last_intent_witness:
  "trim_events_pin_intent [intent_event, tool_event, tool_event, tool_event] 2 = [intent_event, tool_event] \<and>
   subseq (trim_events_pin_intent [intent_event, tool_event, tool_event, tool_event] 2)
     [intent_event, tool_event, tool_event, tool_event]"
  using trim_pins_last_intent[of 2 "[intent_event, tool_event, tool_event, tool_event]" "''s''"]
  by (simp add: trim_events_pin_intent_def find_last_def is_intent_event_def intent_event_def tool_event_def)



text \<open>Claim C8.  In every interleaving of appends, renames, cleanups, subscriptions,
  cancellations, receives and the final close, an Append never sends on a
  closed channel, the session and event bounds hold, and no subscriber
  channel exceeds its capacity.\<close>
theorem store_reachable_safe:
  assumes "store_reach ttl me ms (s, todo)"
  shows "store_append now sid ev s \<noteq> None \<and> sessions_ok s \<and>
    (\<forall>i. length (sub_ch (st_heap s i)) \<le> subscriber_chan_buf)"
proof -
  have "sessions_ok s" "subs_ok s" using store_reach_inv[OF assms] by (simp_all add: store_inv_def)
  then show ?thesis using append_total[of s now sid ev] by (auto simp: subs_ok_def)
qed

theorem store_reachable_safe_witness:
  "store_append 1 ''a'' intent_event (cancel_detach 0 (snd (subscribe (new_store 60 10 10)))) \<noteq> None"
proof -
  have "store_reach 60 10 10 (new_store 60 10 10, [])" by (rule reach_new)
  then have "store_reach 60 10 10 (snd (subscribe (new_store 60 10 10)), [])"
    by (rule reach_step) (rule step_subscribe, simp add: subscribe_def)
  then have "store_reach 60 10 10 (cancel_detach 0 (snd (subscribe (new_store 60 10 10))), [0])"
    by (rule reach_step) (rule step_cancel, simp add: subscribe_def new_store_def)
  from store_reachable_safe[OF this] show ?thesis by blast
qed

text \<open>Renaming an existing session to a free identifier moves all its
  events, restamped, under the new identifier; the old identifier disappears,
  the active pointer follows, and no other session changes.\<close>
lemma rekey_moves_session:
  assumes "gm_get (st_sessions s) old_id = Some e" "old_id \<noteq> ''''" "new_id \<noteq> ''''" "old_id \<noteq> new_id"
    and "gm_get (st_sessions s) (take max_session_id_len new_id) = None"
  shows "gm_get (st_sessions (rekey old_id new_id s)) old_id = None \<and>
    map_option en_events (gm_get (st_sessions (rekey old_id new_id s)) (take max_session_id_len new_id)) =
      Some (map (\<lambda>v. v\<lparr>ev_session_id := take max_session_id_len new_id\<rparr>) (en_events e)) \<and>
    (st_active_id s = old_id \<longrightarrow> st_active_id (rekey old_id new_id s) = take max_session_id_len new_id) \<and>
    (\<forall>k. k \<noteq> old_id \<longrightarrow> k \<noteq> take max_session_id_len new_id \<longrightarrow>
       gm_get (st_sessions (rekey old_id new_id s)) k = gm_get (st_sessions s) k)"
proof -
  have "take max_session_id_len new_id \<noteq> old_id" using assms(1,5) by auto
  then show ?thesis using assms by (simp add: rekey_def Let_def)
qed

lemma rekey_moves_session_witness:
  "\<exists>s e. gm_get (st_sessions s) DefaultSessionID = Some e \<and> en_events e = [tool_event] \<and>
     map_option en_events (gm_get (st_sessions (rekey DefaultSessionID ''ctx'' s)) ''ctx'') =
       Some [tool_event\<lparr>ev_session_id := ''ctx''\<rparr>]"
proof -
  define e where "e = \<lparr>en_id = DefaultSessionID, en_events = [tool_event], en_created_at = 0, en_updated_at = 0\<rparr>"
  define s where "s = (new_store 60 10 10)\<lparr>st_sessions := [(DefaultSessionID, e)]\<rparr>"
  have "gm_get (st_sessions s) DefaultSessionID = Some e" "en_events e = [tool_event]"
    by (simp_all add: s_def e_def)
  with rekey_moves_session[OF this(1), of "''ctx''"] show ?thesis
    by (intro exI[of _ s] exI[of _ e]) (simp add: DefaultSessionID_def max_session_id_len_def s_def)
qed

end
