(* ===== verification/Broker_Session.thy ===== *)
theory Broker_Session
  imports Go_Prelude
begin

text \<open>
  The session manager of the token broker
  (\<^verbatim>\<open>token-broker/internal/session/manager.go\<close>, \<^verbatim>\<open>semaphore.go\<close>) and the data of
  \<^verbatim>\<open>core/interfaces.go\<close>.

  Session objects live on a heap, because goroutines keep pointers to a
  session after it was removed from the manager or replaced under its key.
  Channels are lists with their capacity written out; closing a closed
  channel panics, which is \<^const>\<open>None\<close>.  Timers are armed, then fire, and the
  callback of a fired timer runs later, when it gets the lock.
\<close>

section \<open>Data\<close>

datatype oauth_status = OAuthTxStatusWaitingCode | OAuthTxStatusCompleted | OAuthTxStatusFailed

record oauth_completion =
  comp_code :: string
  comp_state :: string
  comp_error :: "string option"

record oauth_tx =
  tx_resource_url :: string
  tx_auth_endpoint :: string
  tx_token_endpoint :: string
  tx_scopes :: "string list"
  tx_code_verifier :: string
  tx_state :: string
  tx_callback_url :: string
  tx_auth_url :: string
  tx_status :: oauth_status
  tx_completion_chan :: "oauth_completion list"

record broker_event =
  be_type :: string
  be_auth_url :: string
  be_message :: string
  be_code :: string

record token_result =
  tr_token :: string
  tr_error :: "string option"

record token_waiter =
  tw_chan :: "token_result list"
  tw_cap :: nat
  tw_closed :: bool

text \<open>\<^verbatim>\<open>SimpleSemaphore\<close>: the capacity and the number of held slots.\<close>
record semaphore =
  sem_cap :: nat
  sem_held :: nat

definition new_semaphore :: "nat \<Rightarrow> semaphore" where
  "new_semaphore cap = \<lparr>sem_cap = cap, sem_held = 0\<rparr>"

text \<open>None: the send blocks, so the caller waits (or is cancelled).\<close>
definition sem_acquire :: "semaphore \<Rightarrow> semaphore option" where
  "sem_acquire s = (if sem_held s < sem_cap s then Some (s\<lparr>sem_held := Suc (sem_held s)\<rparr>) else None)"

definition sem_release :: "semaphore \<Rightarrow> semaphore" where
  "sem_release s = (if sem_held s > 0 then s\<lparr>sem_held := sem_held s - 1\<rparr> else s)"

record session =
  bs_key :: string
  bs_user_id :: string
  bs_redirect_url :: string
  bs_created_at :: time
  bs_last_poll_at :: time
  bs_expiration_deadline :: time
  bs_semaphore :: semaphore
  bs_event_waiters :: "broker_event list"
  bs_token_waiters :: "(string, token_waiter list) gomap"
  bs_done :: bool
  bs_active_tx :: "oauth_tx option"

record session_manager =
  sm_sessions :: "(string, nat) gomap"
  sm_heap :: "nat \<Rightarrow> session"
  sm_next :: nat
  sm_user_sessions :: "(string, string list) gomap"
  sm_session_timeout :: time
  sm_max_sessions_per_user :: int
  sm_timers :: "(string, nat) gomap"
  sm_armed :: "(nat \<times> string \<times> time) list"
  sm_fired :: "string list"
  sm_next_timer :: nat
  sm_shutdown :: bool

definition event_waiters_cap :: nat where
  "event_waiters_cap = 1"

section \<open>Operations\<close>

definition mk_session :: "time \<Rightarrow> time \<Rightarrow> string \<Rightarrow> string \<Rightarrow> string \<Rightarrow> session" where
  "mk_session now timeout key user url =
     \<lparr>bs_key = key, bs_user_id = user, bs_redirect_url = url, bs_created_at = now, bs_last_poll_at = now,
      bs_expiration_deadline = now + timeout, bs_semaphore = new_semaphore 1, bs_event_waiters = [],
      bs_token_waiters = [], bs_done = False, bs_active_tx = None\<rparr>"

definition new_session_manager :: "time \<Rightarrow> int \<Rightarrow> session_manager" where
  "new_session_manager timeout max_sessions =
     \<lparr>sm_sessions = [], sm_heap = (\<lambda>_. mk_session 0 0 '''' '''' ''''), sm_next = 0, sm_user_sessions = [],
      sm_session_timeout = timeout, sm_max_sessions_per_user = max_sessions, sm_timers = [], sm_armed = [],
      sm_fired = [], sm_next_timer = 0, sm_shutdown = False\<rparr>"

abbreviation err_max_sessions :: string where
  "err_max_sessions \<equiv> ''max sessions per user exceeded''"

definition create_session ::
  "time \<Rightarrow> string \<Rightarrow> string \<Rightarrow> string \<Rightarrow> session_manager \<Rightarrow> string option \<times> session_manager" where
  "create_session now key user url sm =
     (if (case gm_get (sm_user_sessions sm) user of
            Some l \<Rightarrow> int (length l) \<ge> sm_max_sessions_per_user sm | None \<Rightarrow> False)
      then (Some err_max_sessions, sm)
      else (None,
        sm\<lparr>sm_heap := (sm_heap sm)(sm_next sm := mk_session now (sm_session_timeout sm) key user url),
           sm_next := Suc (sm_next sm),
           sm_sessions := gm_put key (sm_next sm) (sm_sessions sm),
           sm_user_sessions := gm_put user (gm_get_or [] (sm_user_sessions sm) user @ [key]) (sm_user_sessions sm)\<rparr>))"

definition get_session :: "string \<Rightarrow> session_manager \<Rightarrow> string + nat" where
  "get_session key sm = (case gm_get (sm_sessions sm) key of
      None \<Rightarrow> Inl ''session not found'' | Some i \<Rightarrow> Inr i)"

definition get_session_by_state :: "string \<Rightarrow> session_manager \<Rightarrow> string + nat" where
  "get_session_by_state state sm =
     (case last_index_byte (CHR ''.'') state of
        None \<Rightarrow> Inl ''invalid state format: no separator found''
      | Some last_dot \<Rightarrow>
          (case gm_get (sm_sessions sm) (take last_dot state) of
             None \<Rightarrow> Inl ''session not found for state''
           | Some i \<Rightarrow>
               (case bs_active_tx (sm_heap sm i) of
                  None \<Rightarrow> Inl ''state mismatch''
                | Some tx \<Rightarrow> if tx_state tx \<noteq> state then Inl ''state mismatch'' else Inr i)))"

definition validate_session :: "string \<Rightarrow> string \<Rightarrow> session_manager \<Rightarrow> string option" where
  "validate_session key user sm = (case gm_get (sm_sessions sm) key of
      None \<Rightarrow> Some ''session not found''
    | Some i \<Rightarrow> if bs_user_id (sm_heap sm i) \<noteq> user then Some ''session user mismatch'' else None)"

text \<open>\<^verbatim>\<open>timer.Stop()\<close>: an armed timer will not fire any more; the callback of one
  that already fired is not affected.\<close>
definition stop_timer :: "nat \<Rightarrow> session_manager \<Rightarrow> session_manager" where
  "stop_timer t sm = sm\<lparr>sm_armed := filter (\<lambda>(i, _). i \<noteq> t) (sm_armed sm)\<rparr>"

definition drop_timer :: "string \<Rightarrow> session_manager \<Rightarrow> session_manager" where
  "drop_timer key sm = (case gm_get (sm_timers sm) key of
      None \<Rightarrow> sm
    | Some t \<Rightarrow> (stop_timer t sm)\<lparr>sm_timers := gm_del key (sm_timers sm)\<rparr>)"

text \<open>Best-effort send to a waiter followed by the close of its channel; None if
  it was closed before.\<close>
definition finish_waiter :: "token_result \<Rightarrow> token_waiter \<Rightarrow> token_waiter option" where
  "finish_waiter r w = (if tw_closed w then None
     else Some (w\<lparr>tw_chan := (if length (tw_chan w) < tw_cap w then tw_chan w @ [r] else tw_chan w),
                   tw_closed := True\<rparr>))"

fun finish_waiters :: "token_result \<Rightarrow> token_waiter list \<Rightarrow> token_waiter list option" where
  "finish_waiters r [] = Some []"
| "finish_waiters r (w # ws) = (case finish_waiter r w of
      None \<Rightarrow> None
    | Some w' \<Rightarrow> map_option (\<lambda>l. w' # l) (finish_waiters r ws))"

fun fail_waiters ::
  "string \<Rightarrow> (string, token_waiter list) gomap \<Rightarrow> (string, token_waiter list) gomap option" where
  "fail_waiters reason [] = Some []"
| "fail_waiters reason ((url, ws) # m) =
     (case finish_waiters \<lparr>tr_token = '''', tr_error = Some reason\<rparr> ws of
        None \<Rightarrow> None
      | Some ws' \<Rightarrow> map_option (\<lambda>m'. (url, ws') # m') (fail_waiters reason m))"

definition offer_event :: "broker_event \<Rightarrow> session \<Rightarrow> session option" where
  "offer_event ev s = (if length (bs_event_waiters s) < event_waiters_cap
     then Some (s\<lparr>bs_event_waiters := bs_event_waiters s @ [ev]\<rparr>) else None)"

text \<open>What the cleanup does to the session object itself.\<close>
definition retire_session :: "string \<Rightarrow> session \<Rightarrow> session option" where
  "retire_session reason s =
     (case fail_waiters reason (bs_token_waiters s) of
        None \<Rightarrow> None
      | Some tw \<Rightarrow>
          if bs_done s then None
          else let s1 = s\<lparr>bs_token_waiters := tw, bs_done := True\<rparr>
               in Some (case offer_event \<lparr>be_type = ''error'', be_auth_url = '''', be_message = reason,
                                          be_code = ''session_expired''\<rparr> s1 of
                          Some s2 \<Rightarrow> s2 | None \<Rightarrow> s1))"

definition forget_user_key :: "string \<Rightarrow> string \<Rightarrow> session_manager \<Rightarrow> session_manager" where
  "forget_user_key user key sm =
     (case gm_get (sm_user_sessions sm) user of
        None \<Rightarrow> sm
      | Some l \<Rightarrow>
          (let l' = filter (\<lambda>k. k \<noteq> key) l
           in sm\<lparr>sm_user_sessions := (if length l' > 0 then gm_put user l' (sm_user_sessions sm)
                                       else gm_del user (sm_user_sessions sm))\<rparr>))"

definition cleanup_session_locked ::
  "string \<Rightarrow> nat \<Rightarrow> string \<Rightarrow> session_manager \<Rightarrow> session_manager option" where
  "cleanup_session_locked key i reason sm =
     (let sm1 = drop_timer key sm in
      case retire_session reason (sm_heap sm1 i) of
        None \<Rightarrow> None
      | Some s \<Rightarrow>
          (let sm2 = sm1\<lparr>sm_heap := (sm_heap sm1)(i := s)\<rparr>;
               sm3 = forget_user_key (bs_user_id s) key sm2
           in Some (sm3\<lparr>sm_sessions := gm_del key (sm_sessions sm3)\<rparr>)))"

definition end_session :: "string \<Rightarrow> session_manager \<Rightarrow> (string option \<times> session_manager) option" where
  "end_session key sm = (case gm_get (sm_sessions sm) key of
      None \<Rightarrow> Some (Some ''session not found'', sm)
    | Some i \<Rightarrow> map_option (\<lambda>sm'. (None, sm')) (cleanup_session_locked key i ''session ended'' sm))"

definition expire_session :: "string \<Rightarrow> session_manager \<Rightarrow> session_manager option" where
  "expire_session key sm = (case gm_get (sm_sessions sm) key of
      None \<Rightarrow> Some sm
    | Some i \<Rightarrow> cleanup_session_locked key i ''session expired'' sm)"

definition reset_session_timer :: "time \<Rightarrow> string \<Rightarrow> session_manager \<Rightarrow> session_manager" where
  "reset_session_timer now key sm = (case gm_get (sm_sessions sm) key of
      None \<Rightarrow> sm
    | Some i \<Rightarrow>
        (let sm1 = drop_timer key sm
         in sm1\<lparr>sm_heap := (sm_heap sm1)(i := (sm_heap sm1 i)\<lparr>bs_last_poll_at := now,
               bs_expiration_deadline := now + sm_session_timeout sm1\<rparr>)\<rparr>))"

definition start_session_timer :: "time \<Rightarrow> string \<Rightarrow> session_manager \<Rightarrow> session_manager" where
  "start_session_timer now key sm = (case gm_get (sm_sessions sm) key of
      None \<Rightarrow> sm
    | Some i \<Rightarrow>
        (let sm1 = (case gm_get (sm_timers sm) key of None \<Rightarrow> sm | Some t \<Rightarrow> stop_timer t sm);
             t = sm_next_timer sm1
         in sm1\<lparr>sm_next_timer := Suc t,
                sm_armed := (t, key, now + sm_session_timeout sm1) # sm_armed sm1,
                sm_timers := gm_put key t (sm_timers sm1)\<rparr>))"

text \<open>The runtime fires a due timer: its callback is scheduled.\<close>
definition fire_timer :: "nat \<Rightarrow> string \<Rightarrow> session_manager \<Rightarrow> session_manager" where
  "fire_timer t key sm = (stop_timer t sm)\<lparr>sm_fired := key # sm_fired sm\<rparr>"

fun shutdown_loop :: "(string, nat) gomap \<Rightarrow> session_manager \<Rightarrow> session_manager option" where
  "shutdown_loop [] sm = Some sm"
| "shutdown_loop ((k, i) # m) sm =
     (case cleanup_session_locked k i ''shutdown'' sm of None \<Rightarrow> None | Some sm' \<Rightarrow> shutdown_loop m sm')"

definition shutdown :: "session_manager \<Rightarrow> session_manager option" where
  "shutdown sm = (if sm_shutdown sm then None
     else shutdown_loop (sm_sessions sm) (sm\<lparr>sm_shutdown := True, sm_armed := [], sm_timers := []\<rparr>))"

definition get_session_count :: "session_manager \<Rightarrow> nat" where
  "get_session_count sm = length (sm_sessions sm)"

definition get_user_session_count :: "string \<Rightarrow> session_manager \<Rightarrow> nat" where
  "get_user_session_count user sm = (case gm_get (sm_user_sessions sm) user of Some l \<Rightarrow> length l | None \<Rightarrow> 0)"

section \<open>The manager as a transition system\<close>

text \<open>\<^verbatim>\<open>step_touch\<close> stands for what token acquisition does to a session object it
  holds: semaphore, events and transaction change, identity does not.\<close>
inductive sm_step :: "session_manager \<Rightarrow> session_manager \<Rightarrow> bool" where
  step_create: "create_session now key user url sm = (r, sm') \<Longrightarrow> sm_step sm sm'"
| step_end: "end_session key sm = Some (r, sm') \<Longrightarrow> sm_step sm sm'"
| step_reset: "sm_step sm (reset_session_timer now key sm)"
| step_start: "sm_step sm (start_session_timer now key sm)"
| step_fire: "(t, key, d) \<in> set (sm_armed sm) \<Longrightarrow> sm_step sm (fire_timer t key sm)"
| step_expire: "key \<in> set (sm_fired sm) \<Longrightarrow> expire_session key sm = Some sm' \<Longrightarrow>
     sm_step sm (sm'\<lparr>sm_fired := remove1 key (sm_fired sm)\<rparr>)"
| step_touch: "bs_key s = bs_key (sm_heap sm i) \<Longrightarrow> bs_user_id s = bs_user_id (sm_heap sm i) \<Longrightarrow>
     bs_done s = bs_done (sm_heap sm i) \<Longrightarrow> bs_token_waiters s = bs_token_waiters (sm_heap sm i) \<Longrightarrow>
     sm_step sm (sm\<lparr>sm_heap := (sm_heap sm)(i := s)\<rparr>)"

inductive sm_reach :: "time \<Rightarrow> int \<Rightarrow> session_manager \<Rightarrow> bool" for timeout mx where
  sm_reach_new: "sm_reach timeout mx (new_session_manager timeout mx)"
| sm_reach_step: "sm_reach timeout mx sm \<Longrightarrow> sm_step sm sm' \<Longrightarrow> sm_reach timeout mx sm'"

text \<open>The sessions a user owns.\<close>
definition owned_keys :: "string \<Rightarrow> session_manager \<Rightarrow> string list" where
  "owned_keys user sm = map fst (filter (\<lambda>(k, i). bs_user_id (sm_heap sm i) = user) (sm_sessions sm))"

definition live_ok :: "session_manager \<Rightarrow> string \<Rightarrow> nat \<Rightarrow> bool" where
  "live_ok sm k i = (i < sm_next sm \<and> bs_key (sm_heap sm i) = k \<and> \<not> bs_done (sm_heap sm i) \<and>
     bs_token_waiters (sm_heap sm i) = [] \<and>
     (\<exists>l. gm_get (sm_user_sessions sm) (bs_user_id (sm_heap sm i)) = Some l \<and> k \<in> set l))"

definition sm_ok :: "session_manager \<Rightarrow> bool" where
  "sm_ok sm = (gm_ok (sm_sessions sm) \<and> gm_ok (sm_user_sessions sm) \<and>
     (\<forall>k i. gm_get (sm_sessions sm) k = Some i \<longrightarrow> live_ok sm k i) \<and>
     (\<forall>u l. gm_get (sm_user_sessions sm) u = Some l \<longrightarrow>
        l \<noteq> [] \<and> int (length l) \<le> max 1 (sm_max_sessions_per_user sm)))"

section \<open>Lemmas: the invariant\<close>

lemma stop_timer_frame [simp]:
  "sm_sessions (stop_timer t sm) = sm_sessions sm" "sm_heap (stop_timer t sm) = sm_heap sm"
  "sm_next (stop_timer t sm) = sm_next sm" "sm_user_sessions (stop_timer t sm) = sm_user_sessions sm"
  "sm_max_sessions_per_user (stop_timer t sm) = sm_max_sessions_per_user sm"
  "sm_session_timeout (stop_timer t sm) = sm_session_timeout sm" "sm_fired (stop_timer t sm) = sm_fired sm"
  by (simp_all add: stop_timer_def)

lemma drop_timer_frame [simp]:
  "sm_sessions (drop_timer k sm) = sm_sessions sm" "sm_heap (drop_timer k sm) = sm_heap sm"
  "sm_next (drop_timer k sm) = sm_next sm" "sm_user_sessions (drop_timer k sm) = sm_user_sessions sm"
  "sm_max_sessions_per_user (drop_timer k sm) = sm_max_sessions_per_user sm"
  "sm_session_timeout (drop_timer k sm) = sm_session_timeout sm" "sm_fired (drop_timer k sm) = sm_fired sm"
  by (simp_all add: drop_timer_def split: option.splits)

lemma retire_session_total:
  assumes "bs_token_waiters s = []" "\<not> bs_done s"
  shows "\<exists>s'. retire_session reason s = Some s' \<and> bs_user_id s' = bs_user_id s \<and> bs_done s'"
  using assms by (auto simp: retire_session_def offer_event_def Let_def split: option.splits)

lemma forget_user_key_frame [simp]:
  "sm_sessions (forget_user_key u k sm) = sm_sessions sm" "sm_heap (forget_user_key u k sm) = sm_heap sm"
  "sm_next (forget_user_key u k sm) = sm_next sm" "sm_fired (forget_user_key u k sm) = sm_fired sm"
  "sm_max_sessions_per_user (forget_user_key u k sm) = sm_max_sessions_per_user sm"
  by (simp_all add: forget_user_key_def Let_def split: option.splits)

lemma forget_user_key_get:
  "gm_get (sm_user_sessions (forget_user_key u k sm)) u' =
     (if u' = u then (case gm_get (sm_user_sessions sm) u of
          None \<Rightarrow> None
        | Some l \<Rightarrow> (let l' = filter (\<lambda>x. x \<noteq> k) l in if l' = [] then None else Some l'))
      else gm_get (sm_user_sessions sm) u')"
  by (auto simp: forget_user_key_def Let_def split: option.splits)

lemma forget_user_key_gm_ok:
  "gm_ok (sm_user_sessions sm) \<Longrightarrow> gm_ok (sm_user_sessions (forget_user_key u k sm))"
  by (simp add: forget_user_key_def Let_def split: option.splits)

text \<open>The effect of a cleanup on a live session.\<close>
lemma cleanup_effect:
  assumes "sm_ok sm" "gm_get (sm_sessions sm) key = Some i"
  shows "\<exists>sm' s. cleanup_session_locked key i reason sm = Some sm' \<and>
     sm_sessions sm' = gm_del key (sm_sessions sm) \<and> sm_heap sm' = (sm_heap sm)(i := s) \<and>
     sm_next sm' = sm_next sm \<and> sm_max_sessions_per_user sm' = sm_max_sessions_per_user sm \<and>
     sm_fired sm' = sm_fired sm \<and> bs_done s \<and> gm_ok (sm_user_sessions sm') \<and>
     (\<forall>u. gm_get (sm_user_sessions sm') u = gm_get (sm_user_sessions (forget_user_key (bs_user_id (sm_heap sm i)) key sm)) u)"
proof -
  have live: "live_ok sm key i" and ok: "gm_ok (sm_user_sessions sm)" using assms by (auto simp: sm_ok_def)
  obtain s where s: "retire_session reason (sm_heap sm i) = Some s"
    "bs_user_id s = bs_user_id (sm_heap sm i)" "bs_done s"
    using retire_session_total[of "sm_heap sm i" reason] live by (auto simp: live_ok_def)
  then show ?thesis
    using ok by (fastforce simp: cleanup_session_locked_def Let_def forget_user_key_get forget_user_key_gm_ok)
qed

lemma cleanup_max:
  "cleanup_session_locked key i reason sm = Some sm' \<Longrightarrow>
   sm_max_sessions_per_user sm' = sm_max_sessions_per_user sm"
  by (auto simp: cleanup_session_locked_def Let_def split: option.splits)

lemma cleanup_session_ok:
  assumes ok: "sm_ok sm" and i: "gm_get (sm_sessions sm) key = Some i"
    and c: "cleanup_session_locked key i reason sm = Some sm'"
  shows "sm_ok sm'"
proof -
  obtain s where eff: "sm_sessions sm' = gm_del key (sm_sessions sm)" "sm_heap sm' = (sm_heap sm)(i := s)"
    "sm_next sm' = sm_next sm" "sm_max_sessions_per_user sm' = sm_max_sessions_per_user sm"
    "gm_ok (sm_user_sessions sm')"
    "\<And>u. gm_get (sm_user_sessions sm') u =
         gm_get (sm_user_sessions (forget_user_key (bs_user_id (sm_heap sm i)) key sm)) u"
    using cleanup_effect[OF ok i, of reason] c by auto
  have "live_ok sm' k j" if "gm_get (sm_sessions sm') k = Some j" for k j
  proof -
    have k: "k \<noteq> key" "gm_get (sm_sessions sm) k = Some j" using that eff(1) by (auto split: if_splits)
    have lj: "live_ok sm k j" and li: "live_ok sm key i" using ok k(2) i by (auto simp: sm_ok_def)
    then have "j \<noteq> i" using k(1) by (auto simp: live_ok_def)
    then show ?thesis using lj k(1) by (auto simp: live_ok_def eff forget_user_key_get Let_def filter_empty_conv)
  qed
  moreover have "l \<noteq> [] \<and> int (length l) \<le> max 1 (sm_max_sessions_per_user sm')"
    if g: "gm_get (sm_user_sessions sm') u = Some l" for u l
  proof -
    have le: "int (length (filter P xs)) \<le> int (length xs)" for P and xs :: "string list" by simp
    show ?thesis using g ok le unfolding sm_ok_def
      by (fastforce simp: eff forget_user_key_get Let_def split: if_splits option.splits intro: order_trans[OF le])
  qed
  ultimately show ?thesis using ok eff by (simp add: sm_ok_def)
qed

lemma create_ok:
  assumes ok: "sm_ok sm" and c: "create_session now key user url sm = (r, sm')"
  shows "sm_ok sm'"
proof (cases "r = None")
  case False
  then show ?thesis using assms by (auto simp: create_session_def split: if_splits option.splits)
next
  case True
  define l where "l = gm_get_or [] (sm_user_sessions sm) user"
  let ?s = "mk_session now (sm_session_timeout sm) key user url"
  have sm': "sm' = sm\<lparr>sm_heap := (sm_heap sm)(sm_next sm := ?s), sm_next := Suc (sm_next sm),
      sm_sessions := gm_put key (sm_next sm) (sm_sessions sm),
      sm_user_sessions := gm_put user (l @ [key]) (sm_user_sessions sm)\<rparr>"
    using True c by (auto simp: create_session_def l_def split: if_splits)
  have quota: "int (length l) < sm_max_sessions_per_user sm \<or> l = []"
    using True c by (auto simp: create_session_def l_def gm_get_or_def split: if_splits option.splits)
  have keep: "live_ok sm' k j" if "gm_get (sm_sessions sm) k = Some j" for k j
  proof -
    have "live_ok sm k j" using ok that by (simp add: sm_ok_def)
    then show ?thesis by (auto simp: live_ok_def sm' l_def gm_get_or_def split: option.splits)
  qed
  have "live_ok sm' key (sm_next sm)" by (simp add: live_ok_def sm' mk_session_def)
  then have "live_ok sm' k j" if "gm_get (sm_sessions sm') k = Some j" for k j
    using that keep by (auto simp: sm' split: if_splits)
  moreover have "x \<noteq> [] \<and> int (length x) \<le> max 1 (sm_max_sessions_per_user sm')"
    if "gm_get (sm_user_sessions sm') u = Some x" for u x
    using that ok quota by (auto simp: sm' sm_ok_def split: if_splits)
  ultimately show ?thesis using ok by (simp add: sm_ok_def sm')
qed

lemma sm_ok_frame:
  assumes "sm_ok sm" "sm_sessions sm' = sm_sessions sm" "sm_user_sessions sm' = sm_user_sessions sm"
    "sm_next sm' = sm_next sm" "sm_max_sessions_per_user sm' = sm_max_sessions_per_user sm"
    and "\<And>i. bs_key (sm_heap sm' i) = bs_key (sm_heap sm i) \<and> bs_user_id (sm_heap sm' i) = bs_user_id (sm_heap sm i) \<and>
      bs_done (sm_heap sm' i) = bs_done (sm_heap sm i) \<and> bs_token_waiters (sm_heap sm' i) = bs_token_waiters (sm_heap sm i)"
  shows "sm_ok sm'"
proof -
  have "live_ok sm' k i = live_ok sm k i" for k i using assms(2-6) by (simp add: live_ok_def)
  then show ?thesis using assms by (simp add: sm_ok_def)
qed

lemma end_ok:
  assumes "sm_ok sm" "end_session key sm = Some (r, sm')"
  shows "sm_ok sm'"
  using assms cleanup_session_ok[OF assms(1)] by (auto simp: end_session_def split: option.splits)

lemma expire_ok:
  assumes "sm_ok sm" "expire_session key sm = Some sm'"
  shows "sm_ok sm'"
  using assms cleanup_session_ok[OF assms(1)] by (auto simp: expire_session_def split: option.splits)

lemma sm_step_ok:
  assumes "sm_step sm sm'" "sm_ok sm"
  shows "sm_ok sm'"
  using assms
proof (induction rule: sm_step.induct)
  case (step_create now key user url sm r sm')
  then show ?case using create_ok by blast
next
  case (step_end key sm r sm')
  then show ?case using end_ok by blast
next
  case (step_reset sm now key)
  then show ?case
    by (rule sm_ok_frame) (auto simp: reset_session_timer_def Let_def split: option.splits)
next
  case (step_start sm now key)
  then show ?case
    by (rule sm_ok_frame) (auto simp: start_session_timer_def Let_def split: option.splits)
next
  case (step_fire t key d sm)
  from step_fire(2) show ?case by (rule sm_ok_frame) (auto simp: fire_timer_def)
next
  case (step_expire key sm sm')
  then have "sm_ok sm'" using expire_ok by blast
  then show ?case by (rule sm_ok_frame) auto
next
  case (step_touch s sm i)
  from step_touch(5) show ?case by (rule sm_ok_frame) (use step_touch in auto)
qed

lemma sm_reach_ok: "sm_reach timeout mx sm \<Longrightarrow> sm_ok sm \<and> sm_max_sessions_per_user sm = mx"
proof (induction rule: sm_reach.induct)
  case sm_reach_new
  then show ?case by (simp add: sm_ok_def new_session_manager_def)
next
  case (sm_reach_step sm sm')
  then have ok: "sm_ok sm'" using sm_step_ok by blast
  from sm_reach_step(2) have "sm_max_sessions_per_user sm' = sm_max_sessions_per_user sm"
  proof (cases rule: sm_step.cases)
    case (step_end key r)
    then show ?thesis by (auto simp: end_session_def dest: cleanup_max split: option.splits)
  next
    case (step_expire key sm1)
    then show ?thesis by (auto simp: expire_session_def dest: cleanup_max split: option.splits)
  qed (auto simp: create_session_def reset_session_timer_def start_session_timer_def fire_timer_def Let_def
      split: if_splits option.splits)
  then show ?case using ok sm_reach_step(3) by simp
qed

lemma owned_keys_bound:
  assumes "sm_ok sm"
  shows "int (length (owned_keys u sm)) \<le> max 1 (sm_max_sessions_per_user sm)"
proof (cases "gm_get (sm_user_sessions sm) u")
  case None
  have "owned_keys u sm = []"
    using assms None by (fastforce simp: owned_keys_def sm_ok_def live_ok_def filter_empty_conv)
  then show ?thesis by simp
next
  case (Some l)
  have d: "distinct (owned_keys u sm)"
    using assms by (simp add: owned_keys_def sm_ok_def distinct_map_filter)
  have "set (owned_keys u sm) \<subseteq> set l"
    using assms Some by (fastforce simp: owned_keys_def sm_ok_def live_ok_def)
  then have "card (set (owned_keys u sm)) \<le> length l"
    by (meson List.finite_set card_length card_mono le_trans)
  then show ?thesis using distinct_card[OF d] assms Some by (fastforce simp: sm_ok_def)
qed

lemma shutdown_loop_total:
  assumes "sm_ok sm" "distinct (map fst m)" "\<forall>(k, i) \<in> set m. gm_get (sm_sessions sm) k = Some i"
  shows "\<exists>sm'. shutdown_loop m sm = Some sm' \<and> sm_ok sm' \<and>
           (\<forall>k. gm_get (sm_sessions sm') k = (if k \<in> fst ` set m then None else gm_get (sm_sessions sm) k)) \<and>
           (\<forall>(k, i) \<in> set m. bs_done (sm_heap sm' i)) \<and>
           (\<forall>i. bs_done (sm_heap sm i) \<longrightarrow> bs_done (sm_heap sm' i))"
  using assms
proof (induction m sm rule: shutdown_loop.induct)
  case (2 k i m sm)
  have ki: "gm_get (sm_sessions sm) k = Some i" using 2(4) by simp
  obtain sm1 s where c: "cleanup_session_locked k i ''shutdown'' sm = Some sm1"
    and eff: "sm_sessions sm1 = gm_del k (sm_sessions sm)" "sm_heap sm1 = (sm_heap sm)(i := s)" "bs_done s"
    using cleanup_effect[OF 2(2) ki, of "''shutdown''"] by blast
  have "k' \<noteq> k" if "(k', j) \<in> set m" for k' j using 2(3) that imageI[OF that, of fst] by auto
  then have "\<forall>(k', j) \<in> set m. gm_get (sm_sessions sm1) k' = Some j" using 2(4) by (auto simp: eff(1))
  from 2(1)[OF c cleanup_session_ok[OF 2(2) ki c] _ this] 2(3)
  obtain sm' where "shutdown_loop m sm1 = Some sm'" "sm_ok sm'"
    "\<forall>k'. gm_get (sm_sessions sm') k' = (if k' \<in> fst ` set m then None else gm_get (sm_sessions sm1) k')"
    "\<forall>(k', j) \<in> set m. bs_done (sm_heap sm' j)" "\<forall>j. bs_done (sm_heap sm1 j) \<longrightarrow> bs_done (sm_heap sm' j)"
    by auto
  then show ?case using c eff by auto
qed auto

section \<open>Properties of the session manager\<close>

text \<open>Claim C7.  In every state the manager can reach, ending or expiring any
  session never closes a channel twice, and no user owns more live sessions
  than the configured maximum (or one, when the maximum is below one).\<close>
theorem session_manager_safe:
  assumes "sm_reach timeout mx sm"
  shows "end_session key sm \<noteq> None \<and> expire_session key sm \<noteq> None \<and>
         int (length (owned_keys user sm)) \<le> max 1 mx"
proof -
  have ok: "sm_ok sm" "sm_max_sessions_per_user sm = mx" using sm_reach_ok[OF assms] by auto
  have "end_session key sm \<noteq> None \<and> expire_session key sm \<noteq> None"
    using cleanup_effect[OF ok(1)]
    by (auto simp: end_session_def expire_session_def split: option.splits) blast+
  then show ?thesis using owned_keys_bound[OF ok(1), of user] ok(2) by simp
qed

theorem session_manager_safe_witness:
  "int (length (owned_keys ''alice'' (snd (create_session 0 ''k'' ''alice'' '''' (new_session_manager 60 2))))) \<le> 2"
proof -
  have "sm_reach 60 2 (snd (create_session 0 ''k'' ''alice'' '''' (new_session_manager 60 2)))"
    by (rule sm_reach_step[OF sm_reach_new step_create]) (rule prod.collapse[symmetric])
  from session_manager_safe[OF this] show ?thesis by simp
qed

text \<open>Claim C26.  Shutdown of a reachable manager that was not shut down before
  succeeds, leaves no session, and signals Done on every session it had.\<close>
theorem shutdown_ends_all:
  assumes "sm_reach timeout mx sm" "\<not> sm_shutdown sm"
  shows "\<exists>sm'. shutdown sm = Some sm' \<and> get_session_count sm' = 0 \<and>
           (\<forall>(k, i) \<in> set (sm_sessions sm). bs_done (sm_heap sm' i))"
proof -
  let ?sm = "sm\<lparr>sm_shutdown := True, sm_armed := [], sm_timers := []\<rparr>"
  have ok: "sm_ok sm" using sm_reach_ok[OF assms(1)] by simp
  then have ok': "sm_ok ?sm" by (rule sm_ok_frame) auto
  have "\<forall>(k, i) \<in> set (sm_sessions sm). gm_get (sm_sessions ?sm) k = Some i" "distinct (map fst (sm_sessions sm))"
    using ok by (auto simp: sm_ok_def)
  from shutdown_loop_total[OF ok' this(2,1)]
  obtain sm' where s: "shutdown_loop (sm_sessions sm) ?sm = Some sm'"
    "\<forall>k. gm_get (sm_sessions sm') k = (if k \<in> fst ` set (sm_sessions sm) then None else gm_get (sm_sessions sm) k)"
    "\<forall>(k, i) \<in> set (sm_sessions sm). bs_done (sm_heap sm' i)" by auto
  have "gm_get (sm_sessions sm') k = None" for k
    using s(2) by (simp add: map_of_eq_None_iff)
  then have "sm_sessions sm' = []" by (cases "sm_sessions sm'") (auto split: if_splits, metis option.distinct(1))
  then show ?thesis using s assms(2) by (auto simp: shutdown_def get_session_count_def)
qed

theorem shutdown_ends_all_witness:
  "\<exists>sm'. shutdown (snd (create_session 0 ''k'' ''alice'' '''' (new_session_manager 60 2))) = Some sm' \<and>
     get_session_count sm' = 0"
proof -
  have "sm_reach 60 2 (snd (create_session 0 ''k'' ''alice'' '''' (new_session_manager 60 2)))"
    by (rule sm_reach_step[OF sm_reach_new step_create]) (rule prod.collapse[symmetric])
  from shutdown_ends_all[OF this] show ?thesis
    by (auto simp: create_session_def new_session_manager_def)
qed

text \<open>Creating a session under a key that is live for another user takes
  the key over: the first user's requests fail validation, the first session
  is never told that it is over, and after the new owner ends the session the
  key still counts against the first user's quota.\<close>
lemma create_existing_key_takes_over:
  assumes "sm_ok sm" "gm_get (sm_sessions sm) key = Some i" "bs_user_id (sm_heap sm i) = u1" "u1 \<noteq> u2"
    and "create_session now key u2 url sm = (None, sm')"
  shows "validate_session key u1 sm' = Some ''session user mismatch'' \<and> \<not> bs_done (sm_heap sm' i) \<and>
    (\<exists>sm''. end_session key sm' = Some (None, sm'') \<and> gm_get (sm_sessions sm'') key = None \<and>
       \<not> bs_done (sm_heap sm'' i) \<and> 0 < get_user_session_count u1 sm'' \<and>
       get_user_session_count u1 sm'' = get_user_session_count u1 sm)"
proof -
  have live: "live_ok sm key i" using assms(1,2) by (simp add: sm_ok_def)
  have ok': "sm_ok sm'" by (rule create_ok[OF assms(1,5)])
  have key': "gm_get (sm_sessions sm') key = Some (sm_next sm)"
    and user': "bs_user_id (sm_heap sm' (sm_next sm)) = u2" and old: "sm_heap sm' i = sm_heap sm i"
    and list': "gm_get (sm_user_sessions sm') u1 = gm_get (sm_user_sessions sm) u1"
    using assms(4,5) live by (auto simp: create_session_def mk_session_def live_ok_def split: if_splits)
  obtain l where l: "gm_get (sm_user_sessions sm) u1 = Some l" "key \<in> set l"
    using live assms(3) by (auto simp: live_ok_def)
  obtain sm'' s where c: "cleanup_session_locked key (sm_next sm) ''session ended'' sm' = Some sm''"
    "sm_sessions sm'' = gm_del key (sm_sessions sm')" "sm_heap sm'' = (sm_heap sm')(sm_next sm := s)"
    "\<forall>u. gm_get (sm_user_sessions sm'') u = gm_get (sm_user_sessions (forget_user_key u2 key sm')) u"
    using cleanup_effect[OF ok' key', of "''session ended''"] user' by auto
  have "i \<noteq> sm_next sm" using live by (simp add: live_ok_def)
  moreover have "gm_get (sm_user_sessions sm'') u1 = Some l"
    using c(4) list' l(1) assms(4) by (simp add: forget_user_key_get)
  moreover have "l \<noteq> []" using l(2) by auto
  ultimately show ?thesis
    using key' user' old assms(4) c live l(1)
    by (simp add: validate_session_def end_session_def get_user_session_count_def live_ok_def)
qed

theorem create_existing_key_takes_over_witness:
  "\<exists>sm'. create_session 1 ''k'' ''bob'' '''' (snd (create_session 0 ''k'' ''alice'' '''' (new_session_manager 60 2))) = (None, sm') \<and>
     validate_session ''k'' ''alice'' sm' = Some ''session user mismatch''"
proof -
  let ?sm = "snd (create_session 0 ''k'' ''alice'' '''' (new_session_manager 60 2))"
  have ok: "sm_ok ?sm"
    by (rule create_ok[of "new_session_manager 60 2" 0 "''k''" "''alice''" "''''" None])
      (simp_all add: sm_ok_def new_session_manager_def create_session_def)
  have c: "create_session 1 ''k'' ''bob'' '''' ?sm = (None, snd (create_session 1 ''k'' ''bob'' '''' ?sm))"
    by (simp add: create_session_def new_session_manager_def)
  from create_existing_key_takes_over[OF ok _ _ _ c, of 0 "''alice''"] c show ?thesis
    by (simp add: create_session_def new_session_manager_def mk_session_def)
qed

text \<open>A poll that resets the session timer does not cancel the callback of
  a timer that has already fired: the callback still removes the session,
  although its deadline was just moved a full timeout into the future.\<close>
lemma reset_does_not_cancel_fired_timer:
  assumes "sm_ok sm" "gm_get (sm_sessions sm) key = Some i" "key \<in> set (sm_fired sm)"
  shows "key \<in> set (sm_fired (reset_session_timer now key sm)) \<and>
    bs_expiration_deadline (sm_heap (reset_session_timer now key sm) i) = now + sm_session_timeout sm \<and>
    (\<exists>sm'. expire_session key (reset_session_timer now key sm) = Some sm' \<and>
       gm_get (sm_sessions sm') key = None)"
proof -
  let ?r = "reset_session_timer now key sm"
  have ok: "sm_ok ?r" using sm_step_ok[OF step_reset assms(1)] .
  have g: "gm_get (sm_sessions ?r) key = Some i"
    using assms(2) by (simp add: reset_session_timer_def Let_def)
  from cleanup_effect[OF ok g, of "''session expired''"] show ?thesis
    using assms(2,3) g by (auto simp: expire_session_def reset_session_timer_def Let_def)
qed

theorem reset_does_not_cancel_fired_timer_witness:
  "\<exists>sm'. expire_session ''k'' (reset_session_timer 61 ''k'' (fire_timer 0 ''k'' (start_session_timer 0 ''k''
     (snd (create_session 0 ''k'' ''alice'' '''' (new_session_manager 60 2)))))) = Some sm' \<and>
     gm_get (sm_sessions sm') ''k'' = None"
proof -
  let ?c = "snd (create_session 0 ''k'' ''alice'' '''' (new_session_manager 60 2))"
  let ?sm = "fire_timer 0 ''k'' (start_session_timer 0 ''k'' ?c)"
  have "sm_reach 60 2 ?c"
    by (rule sm_reach_step[OF sm_reach_new step_create]) (rule prod.collapse[symmetric])
  then have "sm_reach 60 2 ?sm"
    by (rule sm_reach_step[OF sm_reach_step[OF _ step_start] step_fire[of _ _ 60]])
      (simp add: start_session_timer_def create_session_def new_session_manager_def)
  then have ok: "sm_ok ?sm" using sm_reach_ok by blast
  from reset_does_not_cancel_fired_timer[OF ok, of "''k''" 0 61] show ?thesis
    by (auto simp: fire_timer_def start_session_timer_def create_session_def new_session_manager_def)
qed

end
