(* ===== verification/Cache_Spec.thy ===== *)
theory Cache_Spec
  imports Go_Prelude
begin

text \<open>
  What every cache of the system promises, as one interface: a cache may
  forget, but what it answers for a key is the value of the latest write to
  that key.  Each cache of the development interprets the locale on its own
  operations.
\<close>

text \<open>\<^verbatim>\<open>writes op = Some (k, v)\<close> says that the operation stores \<^verbatim>\<open>v\<close> under \<^verbatim>\<open>k\<close>; a
  lookup happens at some time of the clock.\<close>
locale forgetful_cache =
  fixes empty :: 'c
    and lookup :: "time \<Rightarrow> 'c \<Rightarrow> 'k \<Rightarrow> 'v option"
    and step :: "'op \<Rightarrow> 'c \<Rightarrow> 'c"
    and writes :: "'op \<Rightarrow> ('k \<times> 'v) option"
    and invar :: "'c \<Rightarrow> bool"
  assumes lookup_empty: "lookup t empty k = None"
    and lookup_written: "invar c \<Longrightarrow> writes op = Some (k, v) \<Longrightarrow> lookup t (step op c) k \<in> {None, Some v}"
    and lookup_other: "invar c \<Longrightarrow> (\<And>v. writes op \<noteq> Some (k, v)) \<Longrightarrow> lookup t (step op c) k \<in> {None, lookup t c k}"
    and invar_empty: "invar empty"
    and invar_step: "invar c \<Longrightarrow> invar (step op c)"
begin

lemma invar_run: "invar (foldl (\<lambda>c op. step op c) empty ops)"
  by (induction ops rule: rev_induct) (simp_all add: invar_empty invar_step)

text \<open>A hit is the latest write under its key, after any sequence of operations.\<close>
lemma hit_is_latest_write:
  assumes "lookup t (foldl (\<lambda>c op. step op c) empty ops) k = Some v"
  shows "\<exists>pre op post. ops = pre @ op # post \<and> writes op = Some (k, v) \<and>
           (\<forall>op' \<in> set post. \<forall>v'. writes op' \<noteq> Some (k, v'))"
  using assms
proof (induction ops rule: rev_induct)
  case Nil
  then show ?case by (simp add: lookup_empty)
next
  case (snoc op ops)
  let ?c = "foldl (\<lambda>c op. step op c) empty ops"
  have hit: "lookup t (step op ?c) k = Some v" using snoc.prems by simp
  show ?case
  proof (cases "\<exists>v'. writes op = Some (k, v')")
    case True
    then show ?thesis using hit lookup_written[OF invar_run, of op k _ t ops] by fastforce
  next
    case False
    then have "lookup t ?c k = Some v" using hit lookup_other[OF invar_run, of op k t ops] by auto
    from snoc.IH[OF this] obtain pre op' post where
      "ops = pre @ op' # post" "writes op' = Some (k, v)"
      "\<forall>op'' \<in> set post. \<forall>v'. writes op'' \<noteq> Some (k, v')" by blast
    then have "ops @ [op] = pre @ op' # (post @ [op])"
      "\<forall>op'' \<in> set (post @ [op]). \<forall>v'. writes op'' \<noteq> Some (k, v')" using False by auto
    then show ?thesis using \<open>writes op' = Some (k, v)\<close> by blast
  qed
qed

lemma hit_was_written:
  assumes "lookup t (foldl (\<lambda>c op. step op c) empty ops) k = Some v"
  shows "\<exists>op \<in> set ops. writes op = Some (k, v)"
  using hit_is_latest_write[OF assms] by auto

end

end
