(* ===== verification/Broker_Cache.thy ===== *)
theory Broker_Cache
  imports Cache_Spec
begin

text \<open>
  The token cache of the broker (\<^verbatim>\<open>token-broker/internal/cache/token_cache.go\<close>)
  and the expiry it derives from a token (\<^verbatim>\<open>jwt_parser.go\<close>), with the unpadded
  URL alphabet of \<^verbatim>\<open>encoding/base64\<close>.  The JSON decoder is an argument: it maps
  the payload bytes to the \<^verbatim>\<open>exp\<close> claim (0 when absent) or to None when the
  payload is not a JSON object with an integer \<^verbatim>\<open>exp\<close>.
\<close>

section \<open>Unpadded base64 with the URL alphabet\<close>

definition b64_alphabet :: string where
  "b64_alphabet = ''ABCDEFGHIJKLMNOPQRSTUVWXYZabcdefghijklmnopqrstuvwxyz0123456789-_''"

definition b64_char :: "nat \<Rightarrow> char" where
  "b64_char n = b64_alphabet ! n"

definition b64_val :: "char \<Rightarrow> nat option" where
  "b64_val c = index_byte c b64_alphabet"

fun b64_groups :: "nat list \<Rightarrow> nat list" where
  "b64_groups [] = []"
| "b64_groups [a] = [a div 4, (a mod 4) * 16]"
| "b64_groups [a, b] = [a div 4, (a mod 4) * 16 + b div 16, (b mod 16) * 4]"
| "b64_groups (a # b # c # xs) =
     [a div 4, (a mod 4) * 16 + b div 16, (b mod 16) * 4 + c div 64, c mod 64] @ b64_groups xs"

definition b64_encode :: "bytes \<Rightarrow> string" where
  "b64_encode bs = map b64_char (b64_groups (map of_char bs))"

fun b64_ungroup :: "nat list \<Rightarrow> nat list option" where
  "b64_ungroup [] = Some []"
| "b64_ungroup [a] = None"
| "b64_ungroup [a, b] = Some [a * 4 + b div 16]"
| "b64_ungroup [a, b, c] = Some [a * 4 + b div 16, (b mod 16) * 16 + c div 4]"
| "b64_ungroup (a # b # c # d # xs) =
     map_option (\<lambda>r. [a * 4 + b div 16, (b mod 16) * 16 + c div 4, (c mod 4) * 64 + d] @ r) (b64_ungroup xs)"

fun b64_vals :: "string \<Rightarrow> nat list option" where
  "b64_vals [] = Some []"
| "b64_vals (c # cs) =
     (case b64_val c of None \<Rightarrow> None | Some v \<Rightarrow> map_option (\<lambda>r. v # r) (b64_vals cs))"

text \<open>\<^verbatim>\<open>RawURLEncoding.DecodeString\<close>: line breaks are skipped, any other byte
  outside the alphabet (the padding character included) is an error, and so
  is a single left-over character.\<close>
definition b64_decode :: "string \<Rightarrow> bytes option" where
  "b64_decode s =
     (case b64_vals (filter (\<lambda>c. of_char c \<noteq> (10 :: nat) \<and> of_char c \<noteq> (13 :: nat)) s) of
        None \<Rightarrow> None
      | Some vs \<Rightarrow> map_option (map char_of) (b64_ungroup vs))"

section \<open>Expiry of a token\<close>

definition nanos :: int where
  "nanos = 1000000000"

definition one_year :: time where
  "one_year = 365 * 24 * 3600 * nanos"

definition add_padding :: "string \<Rightarrow> string" where
  "add_padding payload =
     (if length payload mod 4 = 2 then payload @ ''==''
      else if length payload mod 4 = 3 then payload @ ''='' else payload)"

definition parse_jwt_expiry :: "(bytes \<Rightarrow> int option) \<Rightarrow> time \<Rightarrow> string \<Rightarrow> time" where
  "parse_jwt_expiry json_exp now token =
     (case split_on (CHR ''.'') token of
        [_, payload, _] \<Rightarrow>
          (case b64_decode (add_padding payload) of
             None \<Rightarrow> now + one_year
           | Some decoded \<Rightarrow>
               (case json_exp decoded of
                  None \<Rightarrow> now + one_year
                | Some e \<Rightarrow> if e = 0 then now + one_year else e * nanos))
      | _ \<Rightarrow> now + one_year)"

definition is_token_expired :: "time \<Rightarrow> time \<Rightarrow> bool" where
  "is_token_expired now expires_at =
     (if now > expires_at then True else if expires_at - now < 5 * 60 * nanos then True else False)"

section \<open>The cache\<close>

record token_entry =
  te_access_token :: string
  te_expires_at :: time
  te_created_at :: time

type_synonym token_cache = "(string, (string, token_entry) gomap) gomap"

definition get_token :: "time \<Rightarrow> string \<Rightarrow> string \<Rightarrow> token_cache \<Rightarrow> string option" where
  "get_token now session_key resource_url tc =
     (case gm_get tc session_key of
        None \<Rightarrow> None
      | Some m \<Rightarrow>
          (case gm_get m resource_url of
             None \<Rightarrow> None
           | Some e \<Rightarrow> if is_token_expired now (te_expires_at e) then None else Some (te_access_token e)))"

definition set_token ::
  "(bytes \<Rightarrow> int option) \<Rightarrow> time \<Rightarrow> string \<Rightarrow> string \<Rightarrow> string \<Rightarrow> token_cache \<Rightarrow> token_cache" where
  "set_token json_exp now session_key resource_url token tc =
     gm_put session_key
       (gm_put resource_url
          \<lparr>te_access_token = token, te_expires_at = parse_jwt_expiry json_exp now token, te_created_at = now\<rparr>
          (gm_get_or [] tc session_key)) tc"

definition put_or_drop :: "string \<Rightarrow> (string, token_entry) gomap \<Rightarrow> token_cache \<Rightarrow> token_cache" where
  "put_or_drop session_key m tc = (if length m = 0 then gm_del session_key tc else gm_put session_key m tc)"

definition delete_token :: "string \<Rightarrow> string \<Rightarrow> token_cache \<Rightarrow> token_cache" where
  "delete_token session_key resource_url tc =
     (case gm_get tc session_key of
        None \<Rightarrow> tc
      | Some m \<Rightarrow> put_or_drop session_key (gm_del resource_url m) tc)"

definition get_cache_size :: "token_cache \<Rightarrow> nat" where
  "get_cache_size tc = sum_list (map (\<lambda>(k, m). length m) tc)"

definition get_session_token_count :: "string \<Rightarrow> token_cache \<Rightarrow> nat" where
  "get_session_token_count session_key tc =
     (case gm_get tc session_key of Some m \<Rightarrow> length m | None \<Rightarrow> 0)"

text \<open>\<^verbatim>\<open>CleanupExpiredTokens\<close>: the number of removed tokens and the cache.\<close>
fun cleanup_expired_tokens :: "time \<Rightarrow> token_cache \<Rightarrow> nat \<times> token_cache" where
  "cleanup_expired_tokens now [] = (0, [])"
| "cleanup_expired_tokens now ((k, m) # tc) =
     (let live = filter (\<lambda>(r, e). \<not> is_token_expired now (te_expires_at e)) m;
          (n, tc') = cleanup_expired_tokens now tc
      in (length m - length live + n, if length live = 0 then tc' else (k, live) # tc'))"

text \<open>The operations as a command language, for sequences of them.\<close>
datatype cache_op =
    SetToken time string string string
  | DeleteToken string string
  | CleanupExpired time

fun cache_step :: "(bytes \<Rightarrow> int option) \<Rightarrow> cache_op \<Rightarrow> token_cache \<Rightarrow> token_cache" where
  "cache_step je (SetToken now k r t) tc = set_token je now k r t tc"
| "cache_step je (DeleteToken k r) tc = delete_token k r tc"
| "cache_step je (CleanupExpired now) tc = snd (cleanup_expired_tokens now tc)"

fun cache_writes :: "cache_op \<Rightarrow> ((string \<times> string) \<times> string) option" where
  "cache_writes (SetToken now k r t) = Some ((k, r), t)"
| "cache_writes _ = None"

definition cache_lookup :: "time \<Rightarrow> token_cache \<Rightarrow> string \<times> string \<Rightarrow> string option" where
  "cache_lookup now tc kr = get_token now (fst kr) (snd kr) tc"

text \<open>Both levels of the map have distinct keys.\<close>
definition tc_ok :: "token_cache \<Rightarrow> bool" where
  "tc_ok tc = (gm_ok tc \<and> (\<forall>(k, m) \<in> set tc. gm_ok m))"

section \<open>Lemmas: base64\<close>

lemma b64_val_char: "n < 64 \<Longrightarrow> b64_val (b64_char n) = Some n"
proof -
  have "\<forall>n \<in> set [0..<64]. b64_val (b64_char n) = Some n" by code_simp
  then show "n < 64 \<Longrightarrow> b64_val (b64_char n) = Some n" by simp
qed

lemma b64_char_visible:
  "n < 64 \<Longrightarrow> b64_char n \<noteq> CHR ''.'' \<and> of_char (b64_char n) \<noteq> (10 :: nat) \<and> of_char (b64_char n) \<noteq> (13 :: nat)"
proof -
  have "\<forall>n \<in> set [0..<64]. b64_char n \<noteq> CHR ''.'' \<and> of_char (b64_char n) \<noteq> (10 :: nat) \<and>
      of_char (b64_char n) \<noteq> (13 :: nat)" by code_simp
  then show "n < 64 \<Longrightarrow> b64_char n \<noteq> CHR ''.'' \<and> of_char (b64_char n) \<noteq> (10 :: nat) \<and> of_char (b64_char n) \<noteq> (13 :: nat)"
    by simp
qed

lemma b64_groups_bound: "\<forall>x \<in> set bs. x < 256 \<Longrightarrow> \<forall>x \<in> set (b64_groups bs). x < 64"
  by (induction bs rule: b64_groups.induct) auto

lemma b64_groups_length:
  "length (b64_groups bs) = 4 * (length bs div 3) + (if length bs mod 3 = 0 then 0 else length bs mod 3 + 1)"
  by (induction bs rule: b64_groups.induct) (auto simp: mod_Suc div_Suc)

lemma b64_ungroup_groups: "\<forall>x \<in> set bs. x < 256 \<Longrightarrow> b64_ungroup (b64_groups bs) = Some bs"
proof (induction bs rule: b64_groups.induct)
  case (4 a b c xs)
  then show ?case by auto
qed auto

lemma b64_vals_map: "\<forall>x \<in> set vs. x < 64 \<Longrightarrow> b64_vals (map b64_char vs) = Some vs"
  by (induction vs) (auto simp: b64_val_char)

lemma b64_vals_invalid: "b64_val c = None \<Longrightarrow> c \<in> set s \<Longrightarrow> b64_vals s = None"
  by (induction s) (auto split: option.splits)

lemma b64_encode_vals:
  "\<forall>x \<in> set (b64_groups (map of_char bs)). x < (64 :: nat)"
  by (rule b64_groups_bound) simp

lemma b64_encode_chars: "\<forall>c \<in> set (b64_encode bs). c \<noteq> CHR ''.'' \<and> of_char c \<noteq> (10 :: nat) \<and> of_char c \<noteq> (13 :: nat)"
  using b64_encode_vals[of bs] b64_char_visible by (auto simp: b64_encode_def)

lemma b64_decode_encode: "b64_decode (b64_encode bs) = Some bs"
proof -
  have "filter (\<lambda>c. of_char c \<noteq> (10 :: nat) \<and> of_char c \<noteq> (13 :: nat)) (b64_encode bs) = b64_encode bs"
    using b64_encode_chars[of bs] by (simp add: filter_True)
  moreover have "b64_vals (b64_encode bs) = Some (b64_groups (map of_char bs))"
    unfolding b64_encode_def by (rule b64_vals_map[OF b64_encode_vals])
  moreover have "b64_ungroup (b64_groups (map of_char bs)) = Some (map of_char bs)"
    by (rule b64_ungroup_groups) simp
  ultimately show ?thesis by (simp add: b64_decode_def comp_def)
qed

lemma b64_length: "length (b64_encode bs) mod 4 = (if length bs mod 3 = 0 then 0 else length bs mod 3 + 1)"
proof -
  have "length bs mod 3 < 3" by simp
  then show ?thesis by (auto simp: b64_encode_def b64_groups_length)
qed

lemma b64_decode_padded: "b64_decode (s @ CHR ''='' # t) = None"
proof -
  have "b64_val (CHR ''='') = None" by code_simp
  then have "b64_vals (filter (\<lambda>c. of_char c \<noteq> (10 :: nat) \<and> of_char c \<noteq> (13 :: nat)) (s @ CHR ''='' # t)) = None"
    by (rule b64_vals_invalid) simp
  then show ?thesis by (simp add: b64_decode_def)
qed

section \<open>Lemmas: the cache\<close>

lemma tc_ok_inner: "tc_ok tc \<Longrightarrow> gm_get tc k = Some m \<Longrightarrow> gm_ok m"
  by (auto simp: tc_ok_def dest: map_of_SomeD)

lemma is_token_expired_mono: "is_token_expired now e \<Longrightarrow> now \<le> now' \<Longrightarrow> is_token_expired now' e"
  by (auto simp: is_token_expired_def nanos_def split: if_splits)

lemma cleanup_keys: "fst ` set (snd (cleanup_expired_tokens now tc)) \<subseteq> fst ` set tc"
proof (induction now tc rule: cleanup_expired_tokens.induct)
  case (2 now k m tc)
  obtain a b where c: "cleanup_expired_tokens now tc = (a, b)" by fastforce
  then have "fst ` set b \<subseteq> fst ` set tc" using 2[OF refl] by simp
  then have "fst ` set b \<subseteq> fst ` set ((k, m) # tc)" by auto
  then show ?case using c by (simp add: Let_def)
qed simp

lemma cleanup_get:
  assumes "gm_ok tc"
  shows "gm_get (snd (cleanup_expired_tokens now tc)) k =
    (case gm_get tc k of None \<Rightarrow> None
     | Some m \<Rightarrow> (let l = filter (\<lambda>(r, e). \<not> is_token_expired now (te_expires_at e)) m in if l = [] then None else Some l))"
  using assms
proof (induction now tc rule: cleanup_expired_tokens.induct)
  case (2 now k' m tc)
  have "k' \<notin> fst ` set (snd (cleanup_expired_tokens now tc))" using cleanup_keys[of now tc] 2(2) by auto
  then have none: "gm_get (snd (cleanup_expired_tokens now tc)) k' = None" by (simp add: map_of_eq_None_iff)
  show ?case
    using 2(1)[OF refl] 2(2) none by (cases "k = k'") (auto simp: Let_def split: prod.splits)
qed simp

lemma token_cleanup_ok:
  assumes "tc_ok tc"
  shows "tc_ok (snd (cleanup_expired_tokens now tc))"
  using assms
proof (induction now tc rule: cleanup_expired_tokens.induct)
  case (2 now k m tc)
  have "k \<notin> fst ` set (snd (cleanup_expired_tokens now tc))"
    using cleanup_keys[of now tc] 2(2) by (auto simp: tc_ok_def)
  then show ?case
    using 2(1)[OF refl] 2(2) by (auto simp: Let_def tc_ok_def split: prod.splits)
qed simp

lemma put_or_drop_ok: "tc_ok tc \<Longrightarrow> gm_ok m \<Longrightarrow> tc_ok (put_or_drop k m tc)"
  by (auto simp: tc_ok_def put_or_drop_def dest!: gm_mem_put gm_mem_del)

lemma gm_get_or_ok: "tc_ok tc \<Longrightarrow> gm_ok (gm_get_or [] tc k)"
  by (auto simp: gm_get_or_def dest: tc_ok_inner split: option.splits)

lemma cache_step_ok: "tc_ok tc \<Longrightarrow> tc_ok (cache_step je op tc)"
proof (cases op)
  case (SetToken now k r t)
  assume ok: "tc_ok tc"
  have "gm_ok (gm_put r e (gm_get_or [] tc k))" for e using gm_get_or_ok[OF ok] by simp
  then show ?thesis using ok SetToken by (auto simp: tc_ok_def set_token_def dest!: gm_mem_put)
next
  case (DeleteToken k r)
  assume "tc_ok tc"
  then show ?thesis using DeleteToken
    by (auto simp: delete_token_def dest: tc_ok_inner intro!: put_or_drop_ok split: option.splits)
qed (simp add: token_cleanup_ok)

lemma get_token_cleanup:
  assumes "tc_ok tc"
  shows "get_token t k r (snd (cleanup_expired_tokens now tc)) \<in> {None, get_token t k r tc}"
    and "now \<le> t \<Longrightarrow> get_token t k r (snd (cleanup_expired_tokens now tc)) = get_token t k r tc"
proof -
  have g: "gm_ok tc" using assms by (simp add: tc_ok_def)
  have inner: "gm_get (filter (\<lambda>(r, e). \<not> is_token_expired now (te_expires_at e)) m) r =
      (case gm_get m r of Some e \<Rightarrow> if \<not> is_token_expired now (te_expires_at e) then Some e else None | None \<Rightarrow> None)"
    if "gm_get tc k = Some m" for m
    by (rule gm_get_filter[OF tc_ok_inner[OF assms that]])
  show "get_token t k r (snd (cleanup_expired_tokens now tc)) \<in> {None, get_token t k r tc}"
    using inner by (auto simp: get_token_def cleanup_get[OF g] Let_def split: option.splits if_splits)
  assume "now \<le> t"
  then show "get_token t k r (snd (cleanup_expired_tokens now tc)) = get_token t k r tc"
    using inner is_token_expired_mono[of now _ t]
    by (auto simp: get_token_def cleanup_get[OF g] Let_def split: option.splits if_splits) 
qed

text \<open>The broker's token cache is a forgetful cache for any JSON decoder.\<close>
interpretation broker_tokens: forgetful_cache "[]" cache_lookup "cache_step je" cache_writes tc_ok for je
proof (standard, goal_cases)
  case (1 t k)
  then show ?case by (simp add: cache_lookup_def get_token_def)
next
  case (2 c op k v t)
  then show ?case
    by (cases op) (auto simp: cache_lookup_def get_token_def set_token_def)
next
  case (3 c op k t)
  show ?case
  proof (cases op)
    case (SetToken now sk r tok)
    then have "k \<noteq> (sk, r)" using 3(2)[of tok] by auto
    then show ?thesis using SetToken
      by (cases k) (auto simp: cache_lookup_def get_token_def set_token_def gm_get_or_def split: option.splits)
  next
    case (DeleteToken sk r)
    then show ?thesis
      by (cases k) (auto simp: cache_lookup_def get_token_def delete_token_def put_or_drop_def split: option.splits)
  next
    case (CleanupExpired now)
    then show ?thesis using get_token_cleanup(1)[OF 3(1), of t "fst k" "snd k" now]
      by (simp add: cache_lookup_def)
  qed
next
  case 4
  then show ?case by (simp add: tc_ok_def)
next
  case (5 c op)
  then show ?case by (rule cache_step_ok)
qed

lemma cleanup_size:
  "fst (cleanup_expired_tokens now tc) + get_cache_size (snd (cleanup_expired_tokens now tc)) = get_cache_size tc"
proof (induction now tc rule: cleanup_expired_tokens.induct)
  case (2 now k m tc)
  let ?l = "filter (\<lambda>(r, e). \<not> is_token_expired now (te_expires_at e)) m"
  have le: "length ?l \<le> length m" by (rule length_filter_le)
  obtain a b where c: "cleanup_expired_tokens now tc = (a, b)" by fastforce
  have "get_cache_size (snd (cleanup_expired_tokens now ((k, m) # tc))) = length ?l + get_cache_size b"
    "fst (cleanup_expired_tokens now ((k, m) # tc)) = length m - length ?l + a"
    "get_cache_size ((k, m) # tc) = length m + get_cache_size tc"
    using c by (simp_all add: Let_def get_cache_size_def)
  moreover have "a + get_cache_size b = get_cache_size tc" using 2[OF refl] c by simp
  ultimately show ?case using le by linarith
qed simp

lemma expired_add_year: "\<not> is_token_expired now (now + one_year)"
  by (simp add: is_token_expired_def one_year_def nanos_def)

section \<open>Properties of the token cache\<close>

text \<open>Claim C21.  After any sequence of stores, deletions and cleanups, a token served
  for a session and resource is the one most recently stored for exactly that
  session and resource.\<close>
theorem token_cache_isolation:
  assumes "get_token t session_key resource_url (foldl (\<lambda>c op. cache_step je op c) [] ops) = Some token"
  shows "\<exists>pre now post. ops = pre @ SetToken now session_key resource_url token # post \<and>
     (\<forall>op \<in> set post. \<forall>now' token'. op \<noteq> SetToken now' session_key resource_url token')"
proof -
  have "cache_lookup t (foldl (\<lambda>c op. cache_step je op c) [] ops) (session_key, resource_url) = Some token"
    using assms by (simp add: cache_lookup_def)
  from broker_tokens.hit_is_latest_write[OF this] obtain pre op post where
    o: "ops = pre @ op # post" "cache_writes op = Some ((session_key, resource_url), token)"
    "\<forall>op' \<in> set post. \<forall>v'. cache_writes op' \<noteq> Some ((session_key, resource_url), v')" by blast
  obtain now where "op = SetToken now session_key resource_url token" using o(2) by (cases op) auto
  then show ?thesis using o by fastforce
qed

theorem token_cache_isolation_witness:
  "\<exists>pre now post. [SetToken 0 ''s1'' ''r'' ''a'', SetToken 1 ''s2'' ''r'' ''b''] =
     pre @ SetToken now ''s1'' ''r'' ''a'' # post"
proof -
  have "get_token 5 ''s1'' ''r''
      (foldl (\<lambda>c op. cache_step (\<lambda>_. None) op c) [] [SetToken 0 ''s1'' ''r'' ''a'', SetToken 1 ''s2'' ''r'' ''b'']) = Some ''a''"
    by (simp add: get_token_def set_token_def gm_get_or_def parse_jwt_expiry_def is_token_expired_def one_year_def nanos_def)
  from token_cache_isolation[OF this] show ?thesis by blast
qed

text \<open>Claim C27.  Removing expired tokens is invisible to later lookups, and the
  reported number of removals is exactly the shrinkage of the cache.\<close>
theorem cleanup_invisible:
  assumes "tc_ok tc" "now \<le> t"
  shows "get_token t session_key resource_url (snd (cleanup_expired_tokens now tc)) =
           get_token t session_key resource_url tc \<and>
         fst (cleanup_expired_tokens now tc) + get_cache_size (snd (cleanup_expired_tokens now tc)) =
           get_cache_size tc"
  using get_token_cleanup(2)[OF assms] cleanup_size by blast

theorem cleanup_invisible_witness:
  "fst (cleanup_expired_tokens 10 [(''s'', [(''r'', \<lparr>te_access_token = ''a'', te_expires_at = 3, te_created_at = 0\<rparr>)])]) = 1 \<and>
   get_token 11 ''s'' ''r'' (snd (cleanup_expired_tokens 10
      [(''s'', [(''r'', \<lparr>te_access_token = ''a'', te_expires_at = 3, te_created_at = 0\<rparr>)])])) = None"
  using cleanup_invisible[of "[(''s'', [(''r'', \<lparr>te_access_token = ''a'', te_expires_at = 3, te_created_at = 0\<rparr>)])]" 10 11 "''s''" "''r''"]
  by (simp add: tc_ok_def get_token_def is_token_expired_def)

text \<open>Claim C30.  For a well-formed JWT the expiry claim is honoured only when the
  payload length is a multiple of three: otherwise the padding added before
  the unpadded decoder makes decoding fail, and the token is kept for a year
  whatever its exp claim says.\<close>
theorem jwt_expiry_lost_by_padding:
  assumes "CHR ''.'' \<notin> set h" "CHR ''.'' \<notin> set sg"
  shows "parse_jwt_expiry json_exp now (h @ ''.'' @ b64_encode payload @ ''.'' @ sg) =
    (if length payload mod 3 = 0
     then (case json_exp payload of None \<Rightarrow> now + one_year
           | Some e \<Rightarrow> if e = 0 then now + one_year else e * nanos)
     else now + one_year)"
proof -
  have p: "CHR ''.'' \<notin> set (b64_encode payload)" using b64_encode_chars[of payload] by auto
  have s: "split_on (CHR ''.'') (h @ ''.'' @ b64_encode payload @ ''.'' @ sg) = [h, b64_encode payload, sg]"
    using assms p by (simp add: split_on_append split_on_single)
  have "b64_decode (add_padding (b64_encode payload)) = (if length payload mod 3 = 0 then Some payload else None)"
    using b64_length[of payload] b64_decode_padded[of "b64_encode payload" "''=''"]
      b64_decode_padded[of "b64_encode payload" "''''"]
    by (auto simp: add_padding_def b64_decode_encode)
  then show ?thesis unfolding parse_jwt_expiry_def s by simp
qed

theorem jwt_expiry_lost_by_padding_witness:
  "parse_jwt_expiry (\<lambda>_. Some 100) 7 (''h.'' @ b64_encode ''{}'' @ ''.s'') = 7 + one_year"
  using jwt_expiry_lost_by_padding[of "''h''" "''s''" "\<lambda>_. Some 100" 7 "''{}''"] by simp

end
