(* ===== verification/Broker_Flow.thy ===== *)
theory Broker_Flow
  imports Broker_Session Broker_Cache Sha256
begin

text \<open>
  Token acquisition in the broker (\<^verbatim>\<open>token-broker/internal/core/broker.go\<close>), the
  PKCE and state helpers (\<^verbatim>\<open>pkg/oauth/pkce.go\<close>, \<^verbatim>\<open>internal/oauth/client.go\<close>), the
  endpoint discovery (\<^verbatim>\<open>internal/oauth/discovery.go\<close>), the request
  authentication (\<^verbatim>\<open>internal/auth/jwt.go\<close>) and the HTTP handlers
  (\<^verbatim>\<open>internal/api/handlers.go\<close>).

  \<^verbatim>\<open>AcquireToken\<close> and \<^verbatim>\<open>performOAuthFlow\<close> block in three places (the semaphore,
  the wait for the callback, the HTTP calls); they are cut there into the
  definitions below, and \<^verbatim>\<open>broker_step\<close> interleaves any number of requests
  with the session operations.  Answers of the network, random bytes and the
  branch a \<^verbatim>\<open>select\<close> takes are arguments.
\<close>

section \<open>PKCE, state and discovery\<close>

record pkce_challenge =
  pk_verifier :: string
  pk_challenge :: string
  pk_method :: string

text \<open>\<^verbatim>\<open>GeneratePKCEChallenge\<close> on the 32 random bytes it read.\<close>
definition generate_pkce_challenge :: "bytes \<Rightarrow> pkce_challenge" where
  "generate_pkce_challenge random =
     (let verifier = b64_encode random
      in \<lparr>pk_verifier = verifier, pk_challenge = b64_encode (sha256 verifier), pk_method = ''S256''\<rparr>)"

definition generate_state :: "bytes \<Rightarrow> string" where
  "generate_state random = b64_encode random"

text \<open>The query parameters and the state of \<^verbatim>\<open>BuildAuthorizationURL\<close>; the escaping
  of the query string belongs to \<^verbatim>\<open>net/url\<close>.\<close>
definition authorization_params ::
  "string \<Rightarrow> string \<Rightarrow> string \<Rightarrow> string list \<Rightarrow> pkce_challenge \<Rightarrow> (string \<times> string) list" where
  "authorization_params client_id callback_url state scopes pkce =
     [(''client_id'', client_id), (''redirect_uri'', callback_url), (''response_type'', ''code''),
      (''state'', state), (''code_challenge'', pk_challenge pkce), (''code_challenge_method'', pk_method pkce)]
     @ (if length scopes > 0 then [(''scope'', join_with '' '' scopes)] else [])"

definition build_state :: "string \<Rightarrow> bytes \<Rightarrow> string" where
  "build_state session_key random = session_key @ ''.'' @ generate_state random"

record resource_config =
  rc_scopes :: "string list"
  rc_authorization_endpoint :: string
  rc_token_endpoint :: string

record discoverer_config =
  dc_authorization_endpoint :: string
  dc_token_endpoint :: string
  dc_scopes_supported :: "string list"
  dc_resource_scopes :: "(string, string list) gomap"
  dc_resource_configs :: "(string, resource_config) gomap"

datatype discovery_error = InvalidResourceURL | DiscoveryRequestFailed string | NoAuthorizationServers

text \<open>The scope override shared by the two discovery paths.\<close>
definition override_scopes :: "discoverer_config \<Rightarrow> string \<Rightarrow> string list \<Rightarrow> string list" where
  "override_scopes cfg url scopes =
     (case gm_get (dc_resource_configs cfg) url of
        Some rc \<Rightarrow> if length (rc_scopes rc) > 0 then rc_scopes rc
                   else (case gm_get (dc_resource_scopes cfg) url of Some s \<Rightarrow> s | None \<Rightarrow> scopes)
      | None \<Rightarrow> (case gm_get (dc_resource_scopes cfg) url of Some s \<Rightarrow> s | None \<Rightarrow> scopes))"

text \<open>\<^verbatim>\<open>valid_url\<close> is the http(s)-with-host test on the parsed URL and \<^verbatim>\<open>fetch\<close> the
  GET of the well-known document with its authorization servers and scopes.\<close>
definition discover_endpoints ::
  "(string \<Rightarrow> bool) \<Rightarrow> (string \<Rightarrow> string + (string list \<times> string list)) \<Rightarrow> discoverer_config \<Rightarrow> string \<Rightarrow>
   discovery_error + (string \<times> string \<times> string list)" where
  "discover_endpoints valid_url fetch cfg url =
     (let rco = gm_get (dc_resource_configs cfg) url in
      if (case rco of Some rc \<Rightarrow> rc_authorization_endpoint rc \<noteq> '''' \<and> rc_token_endpoint rc \<noteq> '''' | None \<Rightarrow> False)
      then Inr (rc_authorization_endpoint (the rco), rc_token_endpoint (the rco), rc_scopes (the rco))
      else if dc_authorization_endpoint cfg \<noteq> '''' \<and> dc_token_endpoint cfg \<noteq> ''''
      then Inr (dc_authorization_endpoint cfg, dc_token_endpoint cfg,
                override_scopes cfg url (dc_scopes_supported cfg))
      else if \<not> valid_url url then Inl InvalidResourceURL
      else case fetch (trim_suffix url ''/'' @ ''/.well-known/oauth-protected-resource'') of
             Inl e \<Rightarrow> Inl (DiscoveryRequestFailed e)
           | Inr (servers, scopes) \<Rightarrow>
               (case servers of
                  [] \<Rightarrow> Inl NoAuthorizationServers
                | srv # _ \<Rightarrow>
                    (let base = trim_suffix srv ''/'';
                         ae = (case rco of Some rc \<Rightarrow> if rc_authorization_endpoint rc \<noteq> ''''
                                 then rc_authorization_endpoint rc else base @ ''/authorize''
                               | None \<Rightarrow> base @ ''/authorize'');
                         te = (case rco of Some rc \<Rightarrow> if rc_token_endpoint rc \<noteq> ''''
                                 then rc_token_endpoint rc else base @ ''/access_token''
                               | None \<Rightarrow> base @ ''/access_token'')
                     in Inr (ae, te, override_scopes cfg url scopes))))"

section \<open>Acquiring a token\<close>

datatype flow_error =
    ErrDiscovery discovery_error
  | ErrPKCE string
  | ErrBuildURL string
  | ErrEventCancelled
  | ErrNoEventWaiter
  | ErrCompletion string
  | ErrOAuthTimeout
  | ErrSessionEnded
  | ErrContextCancelled
  | ErrExchange string

datatype acquire_error =
    ErrValidation string
  | ErrGetSession string
  | ErrSemaphore
  | ErrFlow flow_error

text \<open>Validation and first cache lookup: a failure, a token, or neither.\<close>
definition acquire_lookup ::
  "time \<Rightarrow> string \<Rightarrow> string \<Rightarrow> string \<Rightarrow> session_manager \<Rightarrow> token_cache \<Rightarrow> acquire_error + string option" where
  "acquire_lookup now key user url sm tc =
     (case validate_session key user sm of
        Some e \<Rightarrow> Inl (ErrValidation e)
      | None \<Rightarrow> Inr (get_token now key url tc))"

text \<open>What the flow keeps in local variables while it waits.\<close>
record flow_locals =
  fl_token_endpoint :: string
  fl_verifier :: string
  fl_callback_url :: string

text \<open>From discovery up to the published event.\<close>
definition begin_flow ::
  "discovery_error + (string \<times> string \<times> string list) \<Rightarrow> string + pkce_challenge \<Rightarrow> string + (string \<times> bytes) \<Rightarrow>
   bool \<Rightarrow> string \<Rightarrow> string \<Rightarrow> session \<Rightarrow> (flow_error + flow_locals) \<times> session" where
  "begin_flow disc pkce built cancelled callback_url url s =
     (case disc of
        Inl e \<Rightarrow> (Inl (ErrDiscovery e), s)
      | Inr (ae, te, scopes) \<Rightarrow>
        (case pkce of
           Inl e \<Rightarrow> (Inl (ErrPKCE e), s)
         | Inr pk \<Rightarrow>
           (let tx = \<lparr>tx_resource_url = url, tx_auth_endpoint = ae, tx_token_endpoint = te, tx_scopes = scopes,
                      tx_code_verifier = pk_verifier pk, tx_state = '''', tx_callback_url = '''', tx_auth_url = '''',
                      tx_status = OAuthTxStatusWaitingCode, tx_completion_chan = []\<rparr>
            in case built of
                 Inl e \<Rightarrow> (Inl (ErrBuildURL e), s\<lparr>bs_active_tx := Some (tx\<lparr>tx_status := OAuthTxStatusFailed\<rparr>)\<rparr>)
               | Inr (auth_url, nonce) \<Rightarrow>
                 (let s2 = s\<lparr>bs_active_tx := Some (tx\<lparr>tx_auth_url := auth_url, tx_callback_url := callback_url,
                                                     tx_state := build_state (bs_key s) nonce\<rparr>)\<rparr>
                  in if cancelled then (Inl ErrEventCancelled, s2)
                     else case offer_event \<lparr>be_type = ''oauth_url_ready'', be_auth_url = auth_url,
                                            be_message = '''', be_code = ''''\<rparr> s2 of
                            None \<Rightarrow> (Inl ErrNoEventWaiter, s2)
                          | Some s3 \<Rightarrow> (Inr \<lparr>fl_token_endpoint = te, fl_verifier = pk_verifier pk,
                                             fl_callback_url = callback_url\<rparr>, s3)))))"

definition set_tx_status :: "oauth_status \<Rightarrow> session \<Rightarrow> session" where
  "set_tx_status st s = s\<lparr>bs_active_tx := map_option (\<lambda>tx. tx\<lparr>tx_status := st\<rparr>) (bs_active_tx s)\<rparr>"

text \<open>The four ways the wait of the flow can end.\<close>
datatype wake = WakeCompletion | WakeTimeout | WakeDone | WakeCancelled

definition wait_flow :: "wake \<Rightarrow> session \<Rightarrow> ((flow_error + string) \<times> session) option" where
  "wait_flow wk s =
     (case wk of
        WakeCompletion \<Rightarrow>
          (case bs_active_tx s of
             None \<Rightarrow> None
           | Some tx \<Rightarrow>
               (case tx_completion_chan tx of
                  [] \<Rightarrow> None
                | c # cs \<Rightarrow>
                    (let s' = s\<lparr>bs_active_tx := Some (tx\<lparr>tx_completion_chan := cs\<rparr>)\<rparr>
                     in Some (case comp_error c of
                          Some e \<Rightarrow> (Inl (ErrCompletion e), s')
                        | None \<Rightarrow> (Inr (comp_code c), s')))))
      | WakeTimeout \<Rightarrow> Some (Inl ErrOAuthTimeout, set_tx_status OAuthTxStatusFailed s)
      | WakeDone \<Rightarrow> if bs_done s then Some (Inl ErrSessionEnded, set_tx_status OAuthTxStatusFailed s) else None
      | WakeCancelled \<Rightarrow> Some (Inl ErrContextCancelled, set_tx_status OAuthTxStatusFailed s))"

text \<open>From the answer of the token endpoint to the end of the flow.  The outer
  option is the panic of closing a closed waiter.\<close>
definition finish_flow ::
  "(bytes \<Rightarrow> int option) \<Rightarrow> time \<Rightarrow> string + string \<Rightarrow> string \<Rightarrow> session \<Rightarrow> token_cache \<Rightarrow>
   ((flow_error + string) \<times> session \<times> token_cache) option" where
  "finish_flow je now exchanged url s tc =
     (case exchanged of
        Inl e \<Rightarrow> Some (Inl (ErrExchange e), set_tx_status OAuthTxStatusFailed s, tc)
      | Inr token \<Rightarrow>
          (let s1 = set_tx_status OAuthTxStatusCompleted s;
               tc' = set_token je now (bs_key s1) url token tc
           in case gm_get (bs_token_waiters s1) url of
                None \<Rightarrow> Some (Inr token, s1\<lparr>bs_active_tx := None\<rparr>, tc')
              | Some ws \<Rightarrow>
                  (case finish_waiters \<lparr>tr_token = token, tr_error = None\<rparr> ws of
                     None \<Rightarrow> None
                   | Some _ \<Rightarrow> Some (Inr token, s1\<lparr>bs_token_waiters := gm_del url (bs_token_waiters s1),
                                                    bs_active_tx := None\<rparr>, tc'))))"

definition completion_chan_cap :: nat where
  "completion_chan_cap = 1"

definition complete_oauth ::
  "string \<Rightarrow> string \<Rightarrow> string \<Rightarrow> string \<Rightarrow> session_manager \<Rightarrow> string option \<times> session_manager" where
  "complete_oauth key user code state sm =
     (case validate_session key user sm of
        Some e \<Rightarrow> (Some (''session validation failed: '' @ e), sm)
      | None \<Rightarrow>
          (case get_session key sm of
             Inl e \<Rightarrow> (Some (''session not found: '' @ e), sm)
           | Inr i \<Rightarrow>
               (case bs_active_tx (sm_heap sm i) of
                  None \<Rightarrow> (Some ''no active OAuth transaction'', sm)
                | Some tx \<Rightarrow>
                    if length (tx_completion_chan tx) < completion_chan_cap
                    then (None, sm\<lparr>sm_heap := (sm_heap sm)(i := (sm_heap sm i)\<lparr>bs_active_tx :=
                            Some (tx\<lparr>tx_completion_chan := tx_completion_chan tx
                              @ [\<lparr>comp_code = code, comp_state = state, comp_error = None\<rparr>]\<rparr>)\<rparr>)\<rparr>)
                    else (Some ''no waiter for OAuth completion'', sm))))"

section \<open>HTTP handlers\<close>

text \<open>The responses; \<^verbatim>\<open>FlatError\<close> and \<^verbatim>\<open>NestedError\<close> are the two error formats.\<close>
datatype response =
    FlatError int string
  | NestedError int string
  | TokenBody string
  | EventBody broker_event
  | StatusOnly int
  | Redirect string "(string \<times> string) list"
  | PlainText int string
  | NoResponse

record verified_claims =
  vc_subject :: string
  vc_extra :: "(string, json) gomap"

record jwt_claims =
  jc_sub :: string
  jc_jti :: string
  jc_session_uid :: string

definition get_session_key :: "jwt_claims \<Rightarrow> string" where
  "get_session_key c = (if jc_session_uid c \<noteq> '''' then jc_session_uid c else jc_jti c)"

definition extract_bearer_token :: "string \<Rightarrow> string option" where
  "extract_bearer_token h =
     (if h = '''' then None
      else if \<not> has_prefix h ''Bearer '' then None
      else let t = trim_prefix h ''Bearer '' in if t = '''' then None else Some t)"

text \<open>The JSON decoder of the claims is an argument.\<close>
definition parse_jwt_without_validation :: "(bytes \<Rightarrow> jwt_claims option) \<Rightarrow> string \<Rightarrow> jwt_claims option" where
  "parse_jwt_without_validation json_claims token =
     (case split_on (CHR ''.'') token of
        [_, p, _] \<Rightarrow>
          (case b64_decode p of
             None \<Rightarrow> None
           | Some payload \<Rightarrow>
               (case json_claims payload of
                  None \<Rightarrow> None
                | Some c \<Rightarrow> if jc_sub c = '''' then None
                            else if jc_session_uid c = '''' \<and> jc_jti c = '''' then None else Some c))
      | _ \<Rightarrow> None)"

definition string_claim :: "(string, json) gomap \<Rightarrow> string \<Rightarrow> string" where
  "string_claim m k = (case gm_get m k of Some (JStr s) \<Rightarrow> s | _ \<Rightarrow> '''')"

record handler =
  hd_allowed_redirect_hosts :: "string list"
  hd_verifier :: "(string \<Rightarrow> string list \<Rightarrow> string + verified_claims) option"
  hd_audiences :: "string list"
  hd_json_claims :: "bytes \<Rightarrow> jwt_claims option"
  hd_hostname :: "string \<Rightarrow> string option"

text \<open>\<^verbatim>\<open>parseAndValidateJWT\<close>: user and session key, or None after a 401.\<close>
definition parse_and_validate_jwt :: "handler \<Rightarrow> string \<Rightarrow> (string \<times> string) option" where
  "parse_and_validate_jwt h auth_header =
     (case extract_bearer_token auth_header of
        None \<Rightarrow> None
      | Some tok \<Rightarrow>
          (case hd_verifier h of
             Some verify \<Rightarrow>
               (case verify tok (hd_audiences h) of
                  Inl _ \<Rightarrow> None
                | Inr claims \<Rightarrow>
                    (let sk0 = string_claim (vc_extra claims) ''session_uid'';
                         sk = (if sk0 = '''' then string_claim (vc_extra claims) ''jti'' else sk0)
                     in if vc_subject claims = '''' \<or> sk = '''' then None else Some (vc_subject claims, sk)))
           | None \<Rightarrow> map_option (\<lambda>c. (jc_sub c, get_session_key c))
                        (parse_jwt_without_validation (hd_json_claims h) tok)))"

definition is_allowed_redirect_host :: "handler \<Rightarrow> string \<Rightarrow> bool" where
  "is_allowed_redirect_host h host = (host \<in> set (hd_allowed_redirect_hosts h))"

text \<open>The body is the decoded redirect URL, or None when it does not decode.\<close>
definition handle_create_session ::
  "handler \<Rightarrow> time \<Rightarrow> string \<Rightarrow> string option \<Rightarrow> session_manager \<Rightarrow> response \<times> session_manager" where
  "handle_create_session h now auth_header body sm =
     (case parse_and_validate_jwt h auth_header of
        None \<Rightarrow> (NestedError 401 ''invalid_token'', sm)
      | Some (user, key) \<Rightarrow>
          (case body of
             None \<Rightarrow> (NestedError 400 ''invalid_request'', sm)
           | Some url \<Rightarrow>
               if url \<noteq> '''' \<and> length (hd_allowed_redirect_hosts h) > 0 \<and>
                  (case hd_hostname h url of None \<Rightarrow> True | Some host \<Rightarrow> \<not> is_allowed_redirect_host h host)
               then (NestedError 400 ''invalid_request'', sm)
               else (case create_session now key user url sm of
                  (Some e, sm') \<Rightarrow>
                    (if e = err_max_sessions then NestedError 429 ''too_many_sessions''
                     else NestedError 500 ''internal_error'', sm')
                | (None, sm') \<Rightarrow> (StatusOnly 201, sm'))))"

definition is_upstream :: "acquire_error \<Rightarrow> bool" where
  "is_upstream e = (case e of
      ErrFlow (ErrDiscovery _) \<Rightarrow> True | ErrFlow (ErrExchange _) \<Rightarrow> True | _ \<Rightarrow> False)"

text \<open>The error classification of \<^verbatim>\<open>HandleGetToken\<close>.\<close>
definition classify_error :: "acquire_error \<Rightarrow> response" where
  "classify_error e =
     (if e = ErrFlow ErrOAuthTimeout then FlatError 408 ''timeout''
      else if e = ErrFlow ErrSessionEnded then FlatError 401 ''session_expired''
      else if is_upstream e then FlatError 502 ''oauth_upstream''
      else FlatError 500 ''internal_error'')"

text \<open>\<^verbatim>\<open>HandleGetToken\<close> around the result of \<^verbatim>\<open>AcquireToken\<close>.\<close>
definition handle_get_token ::
  "handler \<Rightarrow> string \<Rightarrow> string \<Rightarrow> session_manager \<Rightarrow> (string \<Rightarrow> string \<Rightarrow> string \<Rightarrow> acquire_error + string) \<Rightarrow> response" where
  "handle_get_token h auth_header server_url sm acquire =
     (case parse_and_validate_jwt h auth_header of
        None \<Rightarrow> FlatError 401 ''invalid_token''
      | Some (user, key) \<Rightarrow>
          if server_url = '''' then FlatError 400 ''invalid_request''
          else if validate_session key user sm \<noteq> None then FlatError 401 ''unauthorized''
          else (case acquire key user server_url of
                  Inl e \<Rightarrow> classify_error e
                | Inr token \<Rightarrow> TokenBody token))"

datatype poll_branch = PollEvent | PollDone | PollCancelled

text \<open>\<^verbatim>\<open>handleEventLongPoll\<close> up to the select; the branch of the select is an
  argument and None means that branch is not ready.\<close>
definition handle_event_long_poll ::
  "time \<Rightarrow> time \<Rightarrow> string \<Rightarrow> string \<Rightarrow> poll_branch \<Rightarrow> session_manager \<Rightarrow> (response \<times> session_manager) option" where
  "handle_event_long_poll now later key user branch sm =
     (if validate_session key user sm \<noteq> None then Some (NestedError 401 ''unauthorized'', sm)
      else let sm1 = reset_session_timer now key sm in
        case get_session key sm1 of
          Inl _ \<Rightarrow> Some (NestedError 401 ''session_not_found'', sm1)
        | Inr i \<Rightarrow>
            (case branch of
               PollEvent \<Rightarrow>
                 (case bs_event_waiters (sm_heap sm1 i) of
                    [] \<Rightarrow> None
                  | ev # evs \<Rightarrow> Some (EventBody ev, start_session_timer later key
                      (sm1\<lparr>sm_heap := (sm_heap sm1)(i := (sm_heap sm1 i)\<lparr>bs_event_waiters := evs\<rparr>)\<rparr>)))
             | PollDone \<Rightarrow>
                 (if bs_done (sm_heap sm1 i)
                  then Some (EventBody \<lparr>be_type = ''error'', be_auth_url = '''', be_message = ''Session expired'',
                                        be_code = ''session_expired''\<rparr>, start_session_timer later key sm1)
                  else None)
             | PollCancelled \<Rightarrow> Some (NoResponse, start_session_timer later key sm1)))"

definition handle_end_session ::
  "handler \<Rightarrow> string \<Rightarrow> session_manager \<Rightarrow> (response \<times> session_manager) option" where
  "handle_end_session h auth_header sm =
     (case parse_and_validate_jwt h auth_header of
        None \<Rightarrow> Some (NestedError 401 ''invalid_token'', sm)
      | Some (user, key) \<Rightarrow>
          if validate_session key user sm \<noteq> None then Some (NestedError 401 ''unauthorized'', sm)
          else map_option (\<lambda>(e, sm'). case e of
                 Some _ \<Rightarrow> (NestedError 500 ''internal_error'', sm') | None \<Rightarrow> (StatusOnly 200, sm'))
               (end_session key sm))"

text \<open>\<^verbatim>\<open>HandleOAuthCallback\<close> on the four query parameters; a redirect carries the
  base URL and the parameters that \<^verbatim>\<open>addQueryParams\<close> sets.\<close>
definition handle_oauth_callback ::
  "string \<Rightarrow> string \<Rightarrow> string \<Rightarrow> string \<Rightarrow> session_manager \<Rightarrow> response \<times> session_manager" where
  "handle_oauth_callback code state err err_desc sm =
     (if err \<noteq> '''' then
        (case get_session_by_state state sm of
           Inr i \<Rightarrow>
             if state \<noteq> '''' \<and> bs_redirect_url (sm_heap sm i) \<noteq> ''''
             then (Redirect (bs_redirect_url (sm_heap sm i))
                     [(''oauth_status'', ''error''), (''error'', err), (''error_description'', err_desc)], sm)
             else (PlainText 400 ''OAuth error'', sm)
         | Inl _ \<Rightarrow> (PlainText 400 ''OAuth error'', sm))
      else if code = '''' \<or> state = '''' then (PlainText 400 ''Missing code or state parameter'', sm)
      else case get_session_by_state state sm of
             Inl _ \<Rightarrow> (PlainText 400 ''Invalid or expired OAuth session'', sm)
           | Inr i \<Rightarrow>
               (let s = sm_heap sm i in
                case complete_oauth (bs_key s) (bs_user_id s) code state sm of
                  (Some _, sm') \<Rightarrow>
                    (if bs_redirect_url s \<noteq> ''''
                     then (Redirect (bs_redirect_url s) [(''oauth_status'', ''error''),
                             (''error'', ''token_exchange_failed''),
                             (''error_description'', ''Failed to exchange authorization code for access token'')], sm')
                     else (PlainText 500 ''Failed to complete OAuth flow'', sm'))
                | (None, sm') \<Rightarrow>
                    (if bs_redirect_url s = '''' then (PlainText 200 ''OAuth authorization successful'', sm')
                     else (Redirect (bs_redirect_url s) [(''oauth_status'', ''success'')], sm'))))"

section \<open>Requests, interleaved\<close>

text \<open>Where a call of \<^verbatim>\<open>AcquireToken\<close> stands; the number is the session object it
  holds a pointer to.\<close>
datatype pc =
    PcStart
  | PcValidated
  | PcMissed
  | PcQueued nat
  | PcHolding nat
  | PcBegin nat
  | PcFlow nat flow_locals
  | PcExchange nat flow_locals string
  | PcDone "acquire_error + string"

record request =
  rq_key :: string
  rq_user :: string
  rq_resource :: string
  rq_pc :: pc

record broker =
  br_sm :: session_manager
  br_cache :: token_cache
  br_now :: time
  br_requests :: "request list"

fun holds :: "nat \<Rightarrow> pc \<Rightarrow> bool" where
  "holds i (PcHolding j) = (j = i)"
| "holds i (PcBegin j) = (j = i)"
| "holds i (PcFlow j _) = (j = i)"
| "holds i (PcExchange j _ _) = (j = i)"
| "holds i _ = False"

fun points_to :: "pc \<Rightarrow> nat option" where
  "points_to (PcQueued j) = Some j"
| "points_to (PcHolding j) = Some j"
| "points_to (PcBegin j) = Some j"
| "points_to (PcFlow j _) = Some j"
| "points_to (PcExchange j _ _) = Some j"
| "points_to _ = None"

definition goto :: "nat \<Rightarrow> pc \<Rightarrow> broker \<Rightarrow> broker" where
  "goto n p b = b\<lparr>br_requests := (br_requests b)[n := (br_requests b ! n)\<lparr>rq_pc := p\<rparr>]\<rparr>"

definition put_session :: "nat \<Rightarrow> session \<Rightarrow> broker \<Rightarrow> broker" where
  "put_session i s b = b\<lparr>br_sm := (br_sm b)\<lparr>sm_heap := (sm_heap (br_sm b))(i := s)\<rparr>\<rparr>"

definition released :: "session \<Rightarrow> session" where
  "released s = s\<lparr>bs_semaphore := sem_release (bs_semaphore s)\<rparr>"

abbreviation obj :: "broker \<Rightarrow> nat \<Rightarrow> session" where
  "obj b i \<equiv> sm_heap (br_sm b) i"

text \<open>The operations of the manager, without what acquisition does to sessions.\<close>
inductive lifecycle_step :: "session_manager \<Rightarrow> session_manager \<Rightarrow> bool" where
  life_create: "create_session now key user url sm = (r, sm') \<Longrightarrow> lifecycle_step sm sm'"
| life_end: "end_session key sm = Some (r, sm') \<Longrightarrow> lifecycle_step sm sm'"
| life_reset: "lifecycle_step sm (reset_session_timer now key sm)"
| life_start: "lifecycle_step sm (start_session_timer now key sm)"
| life_fire: "(t, key, d) \<in> set (sm_armed sm) \<Longrightarrow> lifecycle_step sm (fire_timer t key sm)"
| life_expire: "key \<in> set (sm_fired sm) \<Longrightarrow> expire_session key sm = Some sm' \<Longrightarrow>
     lifecycle_step sm (sm'\<lparr>sm_fired := remove1 key (sm_fired sm)\<rparr>)"

inductive broker_step :: "(bytes \<Rightarrow> int option) \<Rightarrow> broker \<Rightarrow> broker \<Rightarrow> bool" for je where
  br_request: "broker_step je b (b\<lparr>br_requests := br_requests b @ [\<lparr>rq_key = key, rq_user = user,
     rq_resource = url, rq_pc = PcStart\<rparr>]\<rparr>)"
| br_tick: "br_now b \<le> t \<Longrightarrow> broker_step je b (b\<lparr>br_now := t\<rparr>)"
| br_life: "lifecycle_step (br_sm b) sm' \<Longrightarrow> broker_step je b (b\<lparr>br_sm := sm'\<rparr>)"
| br_callback: "complete_oauth key user code state (br_sm b) = (r, sm') \<Longrightarrow> broker_step je b (b\<lparr>br_sm := sm'\<rparr>)"
| br_poll: "bs_event_waiters (obj b i) = ev # evs \<Longrightarrow>
     broker_step je b (put_session i ((obj b i)\<lparr>bs_event_waiters := evs\<rparr>) b)"
| br_validate: "n < length (br_requests b) \<Longrightarrow> q = br_requests b ! n \<Longrightarrow> rq_pc q = PcStart \<Longrightarrow>
     broker_step je b (goto n (case validate_session (rq_key q) (rq_user q) (br_sm b) of
        Some e \<Rightarrow> PcDone (Inl (ErrValidation e)) | None \<Rightarrow> PcValidated) b)"
| br_first_lookup: "n < length (br_requests b) \<Longrightarrow> q = br_requests b ! n \<Longrightarrow> rq_pc q = PcValidated \<Longrightarrow>
     broker_step je b (goto n (case get_token (br_now b) (rq_key q) (rq_resource q) (br_cache b) of
        Some t \<Rightarrow> PcDone (Inr t) | None \<Rightarrow> PcMissed) b)"
| br_get_session: "n < length (br_requests b) \<Longrightarrow> q = br_requests b ! n \<Longrightarrow> rq_pc q = PcMissed \<Longrightarrow>
     broker_step je b (goto n (case get_session (rq_key q) (br_sm b) of
        Inl e \<Rightarrow> PcDone (Inl (ErrGetSession e)) | Inr i \<Rightarrow> PcQueued i) b)"
| br_acquire: "n < length (br_requests b) \<Longrightarrow> rq_pc (br_requests b ! n) = PcQueued i \<Longrightarrow>
     sem_acquire (bs_semaphore (obj b i)) = Some sem \<Longrightarrow>
     broker_step je b (goto n (PcHolding i) (put_session i ((obj b i)\<lparr>bs_semaphore := sem\<rparr>) b))"
| br_acquire_cancelled: "n < length (br_requests b) \<Longrightarrow> rq_pc (br_requests b ! n) = PcQueued i \<Longrightarrow>
     broker_step je b (goto n (PcDone (Inl ErrSemaphore)) b)"
| br_recheck_hit: "n < length (br_requests b) \<Longrightarrow> q = br_requests b ! n \<Longrightarrow> rq_pc q = PcHolding i \<Longrightarrow>
     get_token (br_now b) (rq_key q) (rq_resource q) (br_cache b) = Some t \<Longrightarrow>
     broker_step je b (goto n (PcDone (Inr t)) (put_session i (released (obj b i)) b))"
| br_recheck_miss: "n < length (br_requests b) \<Longrightarrow> q = br_requests b ! n \<Longrightarrow> rq_pc q = PcHolding i \<Longrightarrow>
     get_token (br_now b) (rq_key q) (rq_resource q) (br_cache b) = None \<Longrightarrow>
     broker_step je b (goto n (PcBegin i) b)"
| br_begin_fails: "n < length (br_requests b) \<Longrightarrow> q = br_requests b ! n \<Longrightarrow> rq_pc q = PcBegin i \<Longrightarrow>
     begin_flow disc pkce built cancelled callback_url (rq_resource q) (obj b i) = (Inl e, s) \<Longrightarrow>
     broker_step je b (goto n (PcDone (Inl (ErrFlow e))) (put_session i (released s) b))"
| br_begin: "n < length (br_requests b) \<Longrightarrow> q = br_requests b ! n \<Longrightarrow> rq_pc q = PcBegin i \<Longrightarrow>
     begin_flow disc pkce built cancelled callback_url (rq_resource q) (obj b i) = (Inr fl, s) \<Longrightarrow>
     broker_step je b (goto n (PcFlow i fl) (put_session i s b))"
| br_wait_fails: "n < length (br_requests b) \<Longrightarrow> rq_pc (br_requests b ! n) = PcFlow i fl \<Longrightarrow>
     wait_flow wk (obj b i) = Some (Inl e, s) \<Longrightarrow>
     broker_step je b (goto n (PcDone (Inl (ErrFlow e))) (put_session i (released s) b))"
| br_wait: "n < length (br_requests b) \<Longrightarrow> rq_pc (br_requests b ! n) = PcFlow i fl \<Longrightarrow>
     wait_flow wk (obj b i) = Some (Inr code, s) \<Longrightarrow>
     broker_step je b (goto n (PcExchange i fl code) (put_session i s b))"
| br_finish: "n < length (br_requests b) \<Longrightarrow> q = br_requests b ! n \<Longrightarrow> rq_pc q = PcExchange i fl code \<Longrightarrow>
     finish_flow je (br_now b) exchanged (rq_resource q) (obj b i) (br_cache b) = Some (r, s, tc) \<Longrightarrow>
     broker_step je b (goto n (PcDone (case r of Inl e \<Rightarrow> Inl (ErrFlow e) | Inr t \<Rightarrow> Inr t))
       ((put_session i (released s) b)\<lparr>br_cache := tc\<rparr>))"

definition new_broker :: "time \<Rightarrow> int \<Rightarrow> broker" where
  "new_broker timeout mx = \<lparr>br_sm = new_session_manager timeout mx, br_cache = [], br_now = 0, br_requests = []\<rparr>"

inductive broker_reach :: "(bytes \<Rightarrow> int option) \<Rightarrow> time \<Rightarrow> int \<Rightarrow> broker \<Rightarrow> bool" for je timeout mx where
  br_reach_new: "broker_reach je timeout mx (new_broker timeout mx)"
| br_reach_step: "broker_reach je timeout mx b \<Longrightarrow> broker_step je b b' \<Longrightarrow> broker_reach je timeout mx b'"

text \<open>A request that waits for, or redeems, a code owns the transaction of its
  session.\<close>
definition owns_tx :: "session \<Rightarrow> string \<Rightarrow> flow_locals \<Rightarrow> bool" where
  "owns_tx s url fl = (case bs_active_tx s of
      None \<Rightarrow> False
    | Some tx \<Rightarrow> tx_resource_url tx = url \<and> tx_token_endpoint tx = fl_token_endpoint fl \<and>
                 tx_code_verifier tx = fl_verifier fl)"

definition request_ok :: "session_manager \<Rightarrow> request \<Rightarrow> bool" where
  "request_ok sm q =
     ((\<forall>i. points_to (rq_pc q) = Some i \<longrightarrow> i < sm_next sm \<and> bs_key (sm_heap sm i) = rq_key q) \<and>
      (\<forall>i fl. rq_pc q = PcFlow i fl \<longrightarrow> owns_tx (sm_heap sm i) (rq_resource q) fl) \<and>
      (\<forall>i fl c. rq_pc q = PcExchange i fl c \<longrightarrow> owns_tx (sm_heap sm i) (rq_resource q) fl))"

definition broker_ok :: "broker \<Rightarrow> bool" where
  "broker_ok b = (sm_ok (br_sm b) \<and> (\<forall>q \<in> set (br_requests b). request_ok (br_sm b) q) \<and>
     (\<forall>i < sm_next (br_sm b). sem_cap (bs_semaphore (obj b i)) = 1 \<and>
        length (filter (\<lambda>q. holds i (rq_pc q)) (br_requests b)) = sem_held (bs_semaphore (obj b i)) \<and>
        sem_held (bs_semaphore (obj b i)) \<le> 1))"

definition keeps_objects :: "session_manager \<Rightarrow> session_manager \<Rightarrow> bool" where
  "keeps_objects sm sm' = (sm_next sm \<le> sm_next sm' \<and>
     (\<forall>i < sm_next sm. bs_key (sm_heap sm' i) = bs_key (sm_heap sm i) \<and>
        bs_semaphore (sm_heap sm' i) = bs_semaphore (sm_heap sm i) \<and>
        bs_active_tx (sm_heap sm' i) = bs_active_tx (sm_heap sm i)) \<and>
     (\<forall>i. sm_next sm \<le> i \<and> i < sm_next sm' \<longrightarrow> bs_semaphore (sm_heap sm' i) = new_semaphore 1))"

text \<open>Token waiters are never registered.\<close>
definition no_waiters :: "session_manager \<Rightarrow> bool" where
  "no_waiters sm = (\<forall>i. bs_token_waiters (sm_heap sm i) = [])"

definition broker_inv :: "broker \<Rightarrow> bool" where
  "broker_inv b = (broker_ok b \<and> no_waiters (br_sm b))"

section \<open>Sample states\<close>

definition sample_manager :: session_manager where
  "sample_manager = snd (create_session 0 ''k.1'' ''u'' ''http://b'' (new_session_manager 100 5))"

definition sample_tx :: oauth_tx where
  "sample_tx = \<lparr>tx_resource_url = ''r'', tx_auth_endpoint = ''a'', tx_token_endpoint = ''t'', tx_scopes = [],
     tx_code_verifier = ''v'', tx_state = build_state ''k.1'' [], tx_callback_url = ''cb'', tx_auth_url = ''url'',
     tx_status = OAuthTxStatusWaitingCode, tx_completion_chan = []\<rparr>"

definition sample_flow_manager :: session_manager where
  "sample_flow_manager = sample_manager\<lparr>sm_heap := (sm_heap sample_manager)(0 :=
     (sm_heap sample_manager 0)\<lparr>bs_active_tx := Some sample_tx\<rparr>)\<rparr>"

definition sample_broker :: "pc \<Rightarrow> session \<Rightarrow> broker" where
  "sample_broker p s = \<lparr>br_sm = sample_manager\<lparr>sm_heap := (sm_heap sample_manager)(0 := s)\<rparr>, br_cache = [],
     br_now = 0, br_requests = [\<lparr>rq_key = ''k.1'', rq_user = ''u'', rq_resource = ''r'', rq_pc = p\<rparr>]\<rparr>"

definition sample_session :: session where
  "sample_session = mk_session 0 100 ''k.1'' ''u'' ''http://b''"

definition sample_locals :: flow_locals where
  "sample_locals = \<lparr>fl_token_endpoint = ''t'', fl_verifier = ''v'', fl_callback_url = ''cb''\<rparr>"

definition sample_started :: session where
  "sample_started = sample_session\<lparr>bs_semaphore := \<lparr>sem_cap = 1, sem_held = 1\<rparr>, bs_active_tx := Some sample_tx,
     bs_event_waiters := [\<lparr>be_type = ''oauth_url_ready'', be_auth_url = ''url'', be_message = '''', be_code = ''''\<rparr>]\<rparr>"

definition sample_handler :: handler where
  "sample_handler = \<lparr>hd_allowed_redirect_hosts = [], hd_verifier = Some (\<lambda>tok aud.
       if tok = ''jwt'' then Inr \<lparr>vc_subject = ''u'', vc_extra = [(''jti'', JStr ''k.1'')]\<rparr> else Inl ''bad token''),
     hd_audiences = [''broker''], hd_json_claims = (\<lambda>_. None), hd_hostname = (\<lambda>_. None)\<rparr>"

section \<open>Lemmas: the interleaving\<close>

text \<open>What every lifecycle operation keeps of the existing session objects.\<close>
lemma retire_keeps:
  "retire_session reason s = Some s' \<Longrightarrow>
   bs_key s' = bs_key s \<and> bs_semaphore s' = bs_semaphore s \<and> bs_active_tx s' = bs_active_tx s"
  by (auto simp: retire_session_def offer_event_def Let_def split: option.splits if_splits)

lemma cleanup_keeps: "cleanup_session_locked key i reason sm = Some sm' \<Longrightarrow> keeps_objects sm sm'"
  by (auto simp: cleanup_session_locked_def keeps_objects_def Let_def dest: retire_keeps split: option.splits)

lemma lifecycle_keeps: "lifecycle_step sm sm' \<Longrightarrow> keeps_objects sm sm'"
proof (induction rule: lifecycle_step.induct)
  case (life_create now key user url sm r sm')
  then show ?case by (auto simp: create_session_def keeps_objects_def mk_session_def less_Suc_eq split: if_splits)
next
  case (life_end key sm r sm')
  then show ?case by (auto simp: end_session_def dest: cleanup_keeps split: option.splits) (simp add: keeps_objects_def)
next
  case (life_expire key sm sm')
  then have "keeps_objects sm sm'"
    by (auto simp: expire_session_def dest: cleanup_keeps split: option.splits) (simp add: keeps_objects_def)
  then show ?case by (simp add: keeps_objects_def)
qed (auto simp: keeps_objects_def reset_session_timer_def start_session_timer_def fire_timer_def Let_def
    split: option.splits)

lemma lifecycle_sm_step: "lifecycle_step sm sm' \<Longrightarrow> sm_step sm sm'"
  by (induction rule: lifecycle_step.induct) (auto intro: sm_step.intros)

lemma holds_points: "holds i p \<Longrightarrow> points_to p = Some i"
  by (cases p) auto

lemma broker_ok_lifecycle:
  assumes ok: "broker_ok b" and st: "lifecycle_step (br_sm b) sm'"
  shows "broker_ok (b\<lparr>br_sm := sm'\<rparr>)"
proof -
  have k: "keeps_objects (br_sm b) sm'" by (rule lifecycle_keeps[OF st])
  have sm: "sm_ok sm'" using sm_step_ok[OF lifecycle_sm_step[OF st]] ok by (simp add: broker_ok_def)
  have rq: "request_ok sm' q" if "q \<in> set (br_requests b)" for q
  proof -
    have "request_ok (br_sm b) q" using ok that by (simp add: broker_ok_def)
    then show ?thesis using k by (fastforce simp: request_ok_def keeps_objects_def owns_tx_def)
  qed
  have new: "filter (\<lambda>q. holds i (rq_pc q)) (br_requests b) = []" if "sm_next (br_sm b) \<le> i" for i
    using ok that by (fastforce simp: filter_empty_conv broker_ok_def request_ok_def dest: holds_points)
  have "sem_cap (bs_semaphore (sm_heap sm' i)) = 1 \<and>
      length (filter (\<lambda>q. holds i (rq_pc q)) (br_requests b)) = sem_held (bs_semaphore (sm_heap sm' i)) \<and>
      sem_held (bs_semaphore (sm_heap sm' i)) \<le> 1" if i: "i < sm_next sm'" for i
  proof (cases "i < sm_next (br_sm b)")
    case True
    then show ?thesis using ok k by (simp add: broker_ok_def keeps_objects_def)
  next
    case False
    then show ?thesis using k i new[of i] by (simp add: keeps_objects_def new_semaphore_def)
  qed
  then show ?thesis using sm rq by (simp add: broker_ok_def)
qed

lemma filter_update_length:
  "n < length xs \<Longrightarrow> length (filter P (xs[n := y])) + (if P (xs ! n) then 1 else 0) =
     length (filter P xs) + (if P y then 1 else 0)"
proof (induction xs arbitrary: n)
  case (Cons x xs)
  then show ?case by (cases n) auto
qed simp

lemma step_touch_ok:
  assumes "sm_ok sm" "bs_key s = bs_key (sm_heap sm i)" "bs_user_id s = bs_user_id (sm_heap sm i)"
    "bs_done s = bs_done (sm_heap sm i)" "bs_token_waiters s = bs_token_waiters (sm_heap sm i)"
  shows "sm_ok (sm\<lparr>sm_heap := (sm_heap sm)(i := s)\<rparr>)"
  by (rule sm_step_ok[OF step_touch assms(1)]) (use assms in auto)

text \<open>One lemma for every step of a request that holds, takes or gives back its
  session: the session object changes from \<^verbatim>\<open>obj b i\<close> to \<^verbatim>\<open>s\<close> and the request
  from its old position to \<^verbatim>\<open>p\<close>.\<close>
lemma broker_ok_move:
  assumes ok: "broker_ok b" and n: "n < length (br_requests b)"
    and pt: "points_to (rq_pc (br_requests b ! n)) = Some i"
    and same: "bs_key s = bs_key (obj b i)" "bs_user_id s = bs_user_id (obj b i)" "bs_done s = bs_done (obj b i)"
      "bs_token_waiters s = bs_token_waiters (obj b i)" "sem_cap (bs_semaphore s) = sem_cap (bs_semaphore (obj b i))"
    and cnt: "sem_held (bs_semaphore s) + (if holds i (rq_pc (br_requests b ! n)) then 1 else 0) =
      sem_held (bs_semaphore (obj b i)) + (if holds i p then 1 else 0)" "sem_held (bs_semaphore s) \<le> 1"
    and ptp: "points_to p = Some i \<or> points_to p = None"
    and own: "\<And>j fl. p = PcFlow j fl \<Longrightarrow> owns_tx s (rq_resource (br_requests b ! n)) fl"
      "\<And>j fl c. p = PcExchange j fl c \<Longrightarrow> owns_tx s (rq_resource (br_requests b ! n)) fl"
    and tx: "bs_active_tx s = bs_active_tx (obj b i) \<or> holds i (rq_pc (br_requests b ! n))"
  shows "broker_ok (goto n p (put_session i s b))"
proof -
  let ?q = "br_requests b ! n" and ?rs = "(br_requests b)[n := (br_requests b ! n)\<lparr>rq_pc := p\<rparr>]"
  let ?sm = "(br_sm b)\<lparr>sm_heap := (sm_heap (br_sm b))(i := s)\<rparr>"
  have qok: "request_ok (br_sm b) ?q" using ok n by (simp add: broker_ok_def)
  have i: "i < sm_next (br_sm b)" "bs_key (obj b i) = rq_key ?q" using qok pt by (auto simp: request_ok_def)
  have sm: "sm_ok ?sm" by (rule step_touch_ok) (use ok same in \<open>auto simp: broker_ok_def\<close>)
  have self: "request_ok ?sm (?q\<lparr>rq_pc := p\<rparr>)"
  proof -
    have "j = i" if "points_to p = Some j" for j using that ptp by auto
    then show ?thesis using own i same(1) by (force simp: request_ok_def)
  qed
  have excl: "\<not> holds i (rq_pc q)" if h: "holds i (rq_pc ?q)" and m: "m < length (br_requests b)" "m \<noteq> n"
    and q: "q = br_requests b ! m" for q m
  proof
    assume hq: "holds i (rq_pc q)"
    have "card {n, m} \<le> card {k. k < length (br_requests b) \<and> holds i (rq_pc (br_requests b ! k))}"
      using h hq n m q by (intro card_mono) auto
    then have "2 \<le> length (filter (\<lambda>q. holds i (rq_pc q)) (br_requests b))"
      using m(2) by (simp add: length_filter_conv_card)
    then show False using ok i(1) by (force simp: broker_ok_def)
  qed
  have "request_ok ?sm q" if q: "q \<in> set ?rs" for q
  proof -
    obtain m where m: "m < length (br_requests b)" "q = ?rs ! m" using q by (auto simp: in_set_conv_nth)
    show ?thesis
    proof (cases "m = n")
      case True
      then show ?thesis using m n self by simp
    next
      case False
      then have qm: "q = br_requests b ! m" using m by simp
      then have qo: "request_ok (br_sm b) q" using ok m by (simp add: broker_ok_def)
      have "bs_active_tx s = bs_active_tx (obj b i)" if "holds i (rq_pc q)"
        using tx excl[OF _ m(1) False qm] that by blast
      then show ?thesis using qo same(1) by (fastforce simp: request_ok_def owns_tx_def)
    qed
  qed
  moreover have "sem_cap (bs_semaphore (sm_heap ?sm j)) = 1 \<and>
      length (filter (\<lambda>q. holds j (rq_pc q)) ?rs) = sem_held (bs_semaphore (sm_heap ?sm j)) \<and>
      sem_held (bs_semaphore (sm_heap ?sm j)) \<le> 1" if j: "j < sm_next (br_sm b)" for j
  proof -
    have base: "sem_cap (bs_semaphore (obj b j)) = 1"
      "length (filter (\<lambda>q. holds j (rq_pc q)) (br_requests b)) = sem_held (bs_semaphore (obj b j))"
      "sem_held (bs_semaphore (obj b j)) \<le> 1" using ok j by (auto simp: broker_ok_def)
    note fl = filter_update_length[OF n, of "\<lambda>q. holds j (rq_pc q)" "?q\<lparr>rq_pc := p\<rparr>"]
    have other: "j \<noteq> i \<Longrightarrow> \<not> holds j (rq_pc ?q) \<and> \<not> holds j p"
      using pt ptp holds_points[of j "rq_pc ?q"] holds_points[of j p] by auto
    show ?thesis using base fl cnt same(5) other by (cases "j = i") (auto split: if_splits)
  qed
  ultimately show ?thesis using sm by (simp add: broker_ok_def goto_def put_session_def)
qed

lemma put_session_same: "put_session i (obj b i) b = b"
  by (simp add: put_session_def)

text \<open>A step of a request that holds nothing before and nothing after.\<close>
lemma broker_ok_goto:
  assumes ok: "broker_ok b" and n: "n < length (br_requests b)"
    and free: "\<And>i. \<not> holds i (rq_pc (br_requests b ! n))" "\<And>i. \<not> holds i p"
    and ptp: "\<And>i. points_to p = Some i \<Longrightarrow> i < sm_next (br_sm b) \<and> bs_key (obj b i) = rq_key (br_requests b ! n)"
  shows "broker_ok (goto n p b)"
proof -
  have "p \<noteq> PcFlow i fl" "p \<noteq> PcExchange i fl c" for i fl c using free(2)[of i] by auto
  then have "request_ok (br_sm b) ((br_requests b ! n)\<lparr>rq_pc := p\<rparr>)"
    using ptp by (simp add: request_ok_def)
  then have "\<forall>q \<in> set ((br_requests b)[n := (br_requests b ! n)\<lparr>rq_pc := p\<rparr>]). request_ok (br_sm b) q"
    using ok set_update_subset_insert[of "br_requests b" n] by (auto simp: broker_ok_def)
  moreover have "length (filter (\<lambda>q. holds i (rq_pc q)) ((br_requests b)[n := (br_requests b ! n)\<lparr>rq_pc := p\<rparr>])) =
      length (filter (\<lambda>q. holds i (rq_pc q)) (br_requests b))" for i
    using filter_update_length[OF n, of "\<lambda>q. holds i (rq_pc q)" "(br_requests b ! n)\<lparr>rq_pc := p\<rparr>"] free by simp
  ultimately show ?thesis using ok by (simp add: broker_ok_def goto_def)
qed

text \<open>A change of one session object that touches neither semaphore nor the
  identity of its transaction.\<close>
lemma broker_ok_touch:
  assumes ok: "broker_ok b"
    and same: "bs_key s = bs_key (obj b i)" "bs_user_id s = bs_user_id (obj b i)" "bs_done s = bs_done (obj b i)"
      "bs_token_waiters s = bs_token_waiters (obj b i)" "bs_semaphore s = bs_semaphore (obj b i)"
    and own: "\<And>url fl. owns_tx (obj b i) url fl \<Longrightarrow> owns_tx s url fl"
  shows "broker_ok (put_session i s b)"
proof -
  have "sm_ok ((br_sm b)\<lparr>sm_heap := (sm_heap (br_sm b))(i := s)\<rparr>)"
    by (rule step_touch_ok) (use ok same in \<open>auto simp: broker_ok_def\<close>)
  moreover have "request_ok ((br_sm b)\<lparr>sm_heap := (sm_heap (br_sm b))(i := s)\<rparr>) q" if "q \<in> set (br_requests b)" for q
  proof -
    have "request_ok (br_sm b) q" using ok that by (simp add: broker_ok_def)
    then show ?thesis using same(1) own by (fastforce simp: request_ok_def)
  qed
  ultimately show ?thesis using ok same(5) by (auto simp: broker_ok_def put_session_def)
qed

lemma begin_flow_keeps:
  assumes "begin_flow disc pkce built cancelled cb url s = (r, s')"
  shows "bs_key s' = bs_key s \<and> bs_user_id s' = bs_user_id s \<and> bs_done s' = bs_done s \<and>
    bs_token_waiters s' = bs_token_waiters s \<and> bs_semaphore s' = bs_semaphore s \<and>
    (\<forall>fl. r = Inr fl \<longrightarrow> owns_tx s' url fl)"
  using assms
  by (auto simp: begin_flow_def Let_def offer_event_def owns_tx_def split: sum.splits prod.splits option.splits if_splits)

lemma wait_flow_keeps:
  assumes "wait_flow wk s = Some (r, s')"
  shows "bs_key s' = bs_key s \<and> bs_user_id s' = bs_user_id s \<and> bs_done s' = bs_done s \<and>
    bs_token_waiters s' = bs_token_waiters s \<and> bs_semaphore s' = bs_semaphore s \<and>
    (owns_tx s url fl \<longrightarrow> owns_tx s' url fl)"
  using assms
  by (auto simp: wait_flow_def Let_def set_tx_status_def owns_tx_def
      split: wake.splits option.splits list.splits if_splits)

lemma finish_flow_keeps:
  assumes "finish_flow je now ex url s tc = Some (r, s', tc')" "bs_token_waiters s = []"
  shows "bs_key s' = bs_key s \<and> bs_user_id s' = bs_user_id s \<and> bs_done s' = bs_done s \<and>
    bs_token_waiters s' = bs_token_waiters s \<and> bs_semaphore s' = bs_semaphore s"
  using assms by (auto simp: finish_flow_def Let_def set_tx_status_def split: sum.splits)

lemma complete_oauth_effect:
  assumes "complete_oauth key user code state sm = (r, sm')"
  shows "sm' = sm \<or> (\<exists>i tx c. bs_active_tx (sm_heap sm i) = Some tx \<and>
     sm' = sm\<lparr>sm_heap := (sm_heap sm)(i := (sm_heap sm i)\<lparr>bs_active_tx := Some (tx\<lparr>tx_completion_chan := c\<rparr>)\<rparr>)\<rparr>)"
  using assms by (fastforce simp: complete_oauth_def split: option.splits sum.splits if_splits)

lemma released_simps [simp]:
  "bs_key (released s) = bs_key s" "bs_user_id (released s) = bs_user_id s" "bs_done (released s) = bs_done s"
  "bs_token_waiters (released s) = bs_token_waiters s" "bs_active_tx (released s) = bs_active_tx s"
  "sem_cap (bs_semaphore (released s)) = sem_cap (bs_semaphore s)"
  "sem_held (bs_semaphore (released s)) = sem_held (bs_semaphore s) - 1"
  by (simp_all add: released_def sem_release_def)

lemma broker_held:
  assumes "broker_ok b" "n < length (br_requests b)" "holds i (rq_pc (br_requests b ! n))"
  shows "sem_held (bs_semaphore (obj b i)) = 1"
proof -
  have "i < sm_next (br_sm b)"
    using assms holds_points[OF assms(3)] by (force simp: broker_ok_def request_ok_def)
  then have c: "length (filter (\<lambda>q. holds i (rq_pc q)) (br_requests b)) = sem_held (bs_semaphore (obj b i))"
    "sem_held (bs_semaphore (obj b i)) \<le> 1"
    using assms(1) by (auto simp: broker_ok_def)
  have "br_requests b ! n \<in> set (filter (\<lambda>q. holds i (rq_pc q)) (br_requests b))"
    using assms(2,3) by simp
  then have "0 < length (filter (\<lambda>q. holds i (rq_pc q)) (br_requests b))" by (metis length_pos_if_in_set)
  then show ?thesis using c by linarith
qed

lemma retire_no_waiters:
  "retire_session reason s = Some s' \<Longrightarrow> bs_token_waiters s = [] \<Longrightarrow> bs_token_waiters s' = []"
  by (auto simp: retire_session_def offer_event_def Let_def split: option.splits if_splits)

lemma cleanup_no_waiters:
  "cleanup_session_locked key i reason sm = Some sm' \<Longrightarrow> no_waiters sm \<Longrightarrow> no_waiters sm'"
  by (auto simp: cleanup_session_locked_def no_waiters_def Let_def retire_no_waiters split: option.splits)

lemma lifecycle_no_waiters:
  assumes "lifecycle_step sm sm'" "no_waiters sm"
  shows "no_waiters sm'"
  using assms
proof (induction rule: lifecycle_step.induct)
  case (life_create now key user url sm r sm')
  then show ?case by (auto simp: create_session_def no_waiters_def mk_session_def split: if_splits)
next
  case (life_end key sm r sm')
  then show ?case by (auto simp: end_session_def dest: cleanup_no_waiters split: option.splits)
next
  case (life_expire key sm sm')
  then have "no_waiters sm'" by (auto simp: expire_session_def dest: cleanup_no_waiters split: option.splits)
  then show ?case by (simp add: no_waiters_def)
qed (auto simp: no_waiters_def reset_session_timer_def start_session_timer_def fire_timer_def Let_def
    split: option.splits)

lemma put_session_no_waiters:
  "no_waiters (br_sm b) \<Longrightarrow> bs_token_waiters s = [] \<Longrightarrow> no_waiters (br_sm (goto n p (put_session i s b)))"
  by (simp add: no_waiters_def goto_def put_session_def)

lemma broker_step_no_waiters:
  assumes "broker_step je b b'" "no_waiters (br_sm b)"
  shows "no_waiters (br_sm b')"
  using assms
proof (induction rule: broker_step.induct)
  case (br_life b sm')
  then show ?case by (simp add: lifecycle_no_waiters)
next
  case (br_callback key user code state b r sm')
  then show ?case using complete_oauth_effect[OF br_callback(1)] by (auto simp: no_waiters_def)
next
  case (br_begin_fails n b q i disc pkce built cancelled cb e s)
  then show ?case using begin_flow_keeps[OF br_begin_fails(4)]
    by (intro put_session_no_waiters) (simp_all add: no_waiters_def)
next
  case (br_begin n b q i disc pkce built cancelled cb fl s)
  then show ?case using begin_flow_keeps[OF br_begin(4)]
    by (intro put_session_no_waiters) (simp_all add: no_waiters_def)
next
  case (br_wait_fails n b i fl wk e s)
  then show ?case using wait_flow_keeps[OF br_wait_fails(3)]
    by (intro put_session_no_waiters) (simp_all add: no_waiters_def)
next
  case (br_wait n b i fl wk code s)
  then show ?case using wait_flow_keeps[OF br_wait(3)]
    by (intro put_session_no_waiters) (simp_all add: no_waiters_def)
next
  case (br_finish n b q i fl code ex r s tc)
  then show ?case using finish_flow_keeps[OF br_finish(4)]
    by (simp add: no_waiters_def goto_def put_session_def)
qed (auto simp: no_waiters_def goto_def put_session_def)

lemma broker_step_ok:
  assumes "broker_step je b b'" "broker_inv b"
  shows "broker_ok b'"
  using assms
proof (induction rule: broker_step.induct)
  case (br_request b key user url)
  then show ?case by (auto simp: broker_inv_def broker_ok_def request_ok_def)
next
  case (br_tick b t)
  then show ?case by (simp add: broker_inv_def broker_ok_def)
next
  case (br_life b sm')
  then show ?case by (simp add: broker_inv_def broker_ok_lifecycle)
next
  case (br_callback key user code state b r sm')
  from complete_oauth_effect[OF br_callback(1)] show ?case
  proof (elim disjE exE conjE)
    fix i tx c
    assume tx: "bs_active_tx (obj b i) = Some tx"
      and sm': "sm' = (br_sm b)\<lparr>sm_heap := (sm_heap (br_sm b))(i := (obj b i)\<lparr>bs_active_tx :=
        Some (tx\<lparr>tx_completion_chan := c\<rparr>)\<rparr>)\<rparr>"
    have "broker_ok (put_session i ((obj b i)\<lparr>bs_active_tx := Some (tx\<lparr>tx_completion_chan := c\<rparr>)\<rparr>) b)"
      by (rule broker_ok_touch) (use br_callback(2) tx in \<open>auto simp: broker_inv_def owns_tx_def\<close>)
    then show ?case by (simp add: put_session_def sm')
  qed (use br_callback(2) in \<open>simp add: broker_inv_def\<close>)
next
  case (br_poll b i ev evs)
  show ?case by (rule broker_ok_touch) (use br_poll in \<open>auto simp: broker_inv_def owns_tx_def\<close>)
next
  case (br_validate n b q)
  then show ?case by (intro broker_ok_goto) (auto simp: broker_inv_def split: option.splits)
next
  case (br_first_lookup n b q)
  then show ?case by (intro broker_ok_goto) (auto simp: broker_inv_def split: option.splits)
next
  case (br_get_session n b q)
  then show ?case
    by (intro broker_ok_goto)
      (auto simp: broker_inv_def broker_ok_def get_session_def sm_ok_def live_ok_def split: option.splits sum.splits)
next
  case (br_acquire n b i sem)
  have "request_ok (br_sm b) (br_requests b ! n)" using br_acquire by (simp add: broker_inv_def broker_ok_def)
  then have "i < sm_next (br_sm b)" using br_acquire(2) by (simp add: request_ok_def)
  then have "sem_cap (bs_semaphore (obj b i)) = 1" using br_acquire(4) by (simp add: broker_inv_def broker_ok_def)
  then show ?case using br_acquire
    by (intro broker_ok_move) (auto simp: broker_inv_def sem_acquire_def split: if_splits)
next
  case (br_acquire_cancelled n b i)
  then show ?case by (intro broker_ok_goto) (auto simp: broker_inv_def)
next
  case (br_recheck_hit n b q i t)
  then show ?case using broker_held[of b n i] by (intro broker_ok_move) (auto simp: broker_inv_def)
next
  case (br_recheck_miss n b q i)
  then have "broker_ok (goto n (PcBegin i) (put_session i (obj b i) b))"
    using broker_held[of b n i] by (intro broker_ok_move) (auto simp: broker_inv_def)
  then show ?case by (simp add: put_session_same)
next
  case (br_begin_fails n b q i disc pkce built cancelled cb e s)
  then show ?case using begin_flow_keeps[OF br_begin_fails(4)] broker_held[of b n i]
    by (intro broker_ok_move) (auto simp: broker_inv_def)
next
  case (br_begin n b q i disc pkce built cancelled cb fl s)
  then show ?case using begin_flow_keeps[OF br_begin(4)] broker_held[of b n i]
    by (intro broker_ok_move) (auto simp: broker_inv_def)
next
  case (br_wait_fails n b i fl wk e s)
  then show ?case using wait_flow_keeps[OF br_wait_fails(3)] broker_held[of b n i]
    by (intro broker_ok_move) (auto simp: broker_inv_def)
next
  case (br_wait n b i fl wk code s)
  have "owns_tx (obj b i) (rq_resource (br_requests b ! n)) fl"
    using br_wait by (auto simp: broker_inv_def broker_ok_def request_ok_def)
  then show ?case using br_wait wait_flow_keeps[OF br_wait(3)] broker_held[of b n i]
    by (intro broker_ok_move) (auto simp: broker_inv_def)
next
  case (br_finish n b q i fl code ex r s tc)
  have "broker_ok (goto n (PcDone (case r of Inl e \<Rightarrow> Inl (ErrFlow e) | Inr t \<Rightarrow> Inr t)) (put_session i (released s) b))"
    using br_finish finish_flow_keeps[OF br_finish(4)] broker_held[of b n i]
    by (intro broker_ok_move) (auto simp: broker_inv_def no_waiters_def)
  then show ?case by (simp add: broker_ok_def goto_def put_session_def)
qed

lemma broker_reach_inv: "broker_reach je timeout mx b \<Longrightarrow> broker_inv b"
proof (induction rule: broker_reach.induct)
  case br_reach_new
  then show ?case
    by (simp add: broker_inv_def broker_ok_def no_waiters_def new_broker_def new_session_manager_def sm_ok_def
        mk_session_def)
next
  case (br_reach_step b b')
  then show ?case using broker_step_ok broker_step_no_waiters unfolding broker_inv_def by blast
qed

section \<open>Properties\<close>

lemma generate_state_no_dot: "\<forall>y \<in> set (generate_state nonce). y \<noteq> CHR ''.''"
  using b64_encode_chars by (auto simp: generate_state_def)

lemma build_state_last_dot: "last_index_byte (CHR ''.'') (build_state key nonce) = Some (length key)"
proof -
  have "build_state key nonce = key @ CHR ''.'' # generate_state nonce" by (simp add: build_state_def)
  then show ?thesis using generate_state_no_dot unfolding last_index_byte_def by (simp add: find_last_append)
qed

lemma build_state_key: "take (length key) (build_state key nonce) = key"
  by (simp add: build_state_def)

lemma parse_jwt_claims:
  "parse_jwt_without_validation j tok = Some c \<Longrightarrow> jc_sub c \<noteq> '''' \<and> get_session_key c \<noteq> ''''"
  by (auto simp: parse_jwt_without_validation_def get_session_key_def split: list.splits option.splits if_splits)

lemma parse_and_validate_jwt_Some:
  assumes "parse_and_validate_jwt h auth_header = Some (user, key)"
  shows "user \<noteq> '''' \<and> key \<noteq> '''' \<and> (\<forall>verify. hd_verifier h = Some verify \<longrightarrow>
      (\<exists>tok c. extract_bearer_token auth_header = Some tok \<and> verify tok (hd_audiences h) = Inr c \<and> vc_subject c = user))"
  using assms parse_jwt_claims
  by (auto simp: parse_and_validate_jwt_def Let_def split: option.splits sum.splits if_splits)

lemmas sample_defs = sample_manager_def sample_tx_def sample_flow_manager_def sample_session_def
  create_session_def new_session_manager_def mk_session_def

lemma sample_reach:
  "broker_reach (\<lambda>_. None) 100 5 (sample_broker (PcFlow 0 sample_locals) sample_started)"
proof -
  let ?je = "\<lambda>_. None" let ?r = "broker_reach ?je 100 5"
  let ?held = "sample_session\<lparr>bs_semaphore := \<lparr>sem_cap = 1, sem_held = 1\<rparr>\<rparr>"
  note d = sample_broker_def sample_defs
  note step = br_reach_step[where je = ?je and timeout = 100 and mx = 5]
  have "?r (new_broker 100 5)" by (rule br_reach_new)
  then have "?r ((new_broker 100 5)\<lparr>br_sm := sample_manager\<rparr>)"
    by (rule step) (rule br_life, rule life_create[where now = 0 and key = "''k.1''" and user = "''u''" and url = "''http://b''"
          and r = None], simp add: new_broker_def d)
  then have "?r (((new_broker 100 5)\<lparr>br_sm := sample_manager\<rparr>)\<lparr>br_requests := [] @ [\<lparr>rq_key = ''k.1'', rq_user = ''u'',
      rq_resource = ''r'', rq_pc = PcStart\<rparr>]\<rparr>)"
    by (rule step) (use br_request[where b = "(new_broker 100 5)\<lparr>br_sm := sample_manager\<rparr>"] in
        \<open>simp add: new_broker_def\<close>)
  then have "?r (sample_broker PcStart sample_session)" by (simp add: new_broker_def d)
  then have "?r (sample_broker PcValidated sample_session)"
    by (rule step) (use br_validate[of 0 "sample_broker PcStart sample_session", OF _ refl, where je = ?je] in
        \<open>simp add: d goto_def validate_session_def\<close>)
  then have "?r (sample_broker PcMissed sample_session)"
    by (rule step) (use br_first_lookup[of 0 "sample_broker PcValidated sample_session", OF _ refl, where je = ?je] in
        \<open>simp add: d goto_def get_token_def\<close>)
  then have "?r (sample_broker (PcQueued 0) sample_session)"
    by (rule step) (use br_get_session[of 0 "sample_broker PcMissed sample_session", OF _ refl, where je = ?je] in
        \<open>simp add: d goto_def get_session_def\<close>)
  then have "?r (sample_broker (PcHolding 0) ?held)"
    by (rule step) (use br_acquire[of 0 "sample_broker (PcQueued 0) sample_session" 0, where je = ?je] in
        \<open>simp add: d goto_def put_session_def sem_acquire_def new_semaphore_def\<close>)
  then have "?r (sample_broker (PcBegin 0) ?held)"
    by (rule step) (use br_recheck_miss[of 0 "sample_broker (PcHolding 0) ?held", OF _ refl, where je = ?je] in
        \<open>simp add: d goto_def get_token_def\<close>)
  then show ?thesis
    by (rule step) (use br_begin[of 0 "sample_broker (PcBegin 0) ?held", OF _ refl, where je = ?je
          and disc = "Inr (''a'', ''t'', [])" and pkce = "Inr \<lparr>pk_verifier = ''v'', pk_challenge = ''c'', pk_method = ''S256''\<rparr>"
          and built = "Inr (''url'', [])" and cancelled = False and callback_url = "''cb''"] in
        \<open>simp add: d goto_def put_session_def begin_flow_def offer_event_def event_waiters_cap_def sample_started_def
          sample_locals_def\<close>)
qed

lemma sample_flow_ok: "sm_ok sample_flow_manager"
  by (auto simp: sm_ok_def live_ok_def sample_defs gm_get_or_def split: if_splits)

lemma sample_flow_simps:
  "gm_get (sm_sessions sample_flow_manager) ''k.1'' = Some 0" "bs_key (sm_heap sample_flow_manager 0) = ''k.1''"
  "bs_user_id (sm_heap sample_flow_manager 0) = ''u''" "bs_redirect_url (sm_heap sample_flow_manager 0) = ''http://b''"
  "bs_active_tx (sm_heap sample_flow_manager 0) = Some sample_tx" "tx_state sample_tx = build_state ''k.1'' []"
  "tx_completion_chan sample_tx = []" "build_state ''k.1'' [] \<noteq> ''''"
  by (simp_all add: sample_defs build_state_def)

lemma sample_flow_state: "get_session_by_state (build_state ''k.1'' []) sample_flow_manager = Inr 0"
  by (simp only: get_session_by_state_def build_state_last_dot build_state_key sample_flow_simps option.simps if_False
      simp_thms)

text \<open>Claim C3. In every interleaving of requests, callbacks, polls and session
  operations, at most one request runs a flow on a session object, and a
  request that waits for or redeems a code finds in its session the
  transaction it started: its own resource, token endpoint and verifier, in a
  session with its own key.\<close>
theorem broker_single_flight:
  assumes "broker_reach je timeout mx b"
  shows "(\<forall>i. length (filter (\<lambda>q. holds i (rq_pc q)) (br_requests b)) \<le> 1) \<and>
     (\<forall>q i fl c. q \<in> set (br_requests b) \<longrightarrow> rq_pc q = PcFlow i fl \<or> rq_pc q = PcExchange i fl c \<longrightarrow>
        bs_key (obj b i) = rq_key q \<and> owns_tx (obj b i) (rq_resource q) fl)"
proof -
  have ok: "broker_ok b" using broker_reach_inv[OF assms] by (simp add: broker_inv_def)
  have "length (filter (\<lambda>q. holds i (rq_pc q)) (br_requests b)) \<le> 1" for i
  proof (cases "i < sm_next (br_sm b)")
    case True
    then show ?thesis using ok by (simp add: broker_ok_def)
  next
    case False
    then have "filter (\<lambda>q. holds i (rq_pc q)) (br_requests b) = []"
      using ok holds_points by (fastforce simp: broker_ok_def request_ok_def filter_empty_conv)
    then show ?thesis by simp
  qed
  moreover have "bs_key (obj b i) = rq_key q \<and> owns_tx (obj b i) (rq_resource q) fl"
    if "q \<in> set (br_requests b)" "rq_pc q = PcFlow i fl \<or> rq_pc q = PcExchange i fl c" for q i fl c
    using ok that by (auto simp: broker_ok_def request_ok_def)
  ultimately show ?thesis by blast
qed

theorem broker_single_flight_witness:
  "broker_reach (\<lambda>_. None) 100 5 (sample_broker (PcFlow 0 sample_locals) sample_started) \<and>
   owns_tx (obj (sample_broker (PcFlow 0 sample_locals) sample_started) 0) ''r'' sample_locals"
  using sample_reach conjunct2[OF broker_single_flight[OF sample_reach]] by (simp add: sample_broker_def)





text \<open>Claim C29. Ending a session does not forget its tokens: after the end no
  token is served under its key, but a session created later under the same
  key, by any user, is served the tokens of the old one.\<close>
theorem token_survives_session:
  assumes "get_token now key url tc = Some token" "end_session key sm = Some (None, sm1)"
    and "create_session t key user2 redirect sm1 = (None, sm2)"
  shows "acquire_lookup now key user2 url sm1 tc = Inl (ErrValidation ''session not found'') \<and>
    acquire_lookup now key user2 url sm2 tc = Inr (Some token)"
proof
  show "acquire_lookup now key user2 url sm1 tc = Inl (ErrValidation ''session not found'')"
    using assms(2) by (auto simp: end_session_def acquire_lookup_def validate_session_def cleanup_session_locked_def
        Let_def split: option.splits)
  show "acquire_lookup now key user2 url sm2 tc = Inr (Some token)"
    using assms(1,3) by (auto simp: create_session_def acquire_lookup_def validate_session_def mk_session_def split: if_splits)
qed

theorem token_survives_session_witness:
  "\<exists>tc sm1 sm2. get_token 1 ''k.1'' ''r'' tc = Some ''alice-token'' \<and>
     end_session ''k.1'' (snd (create_session 0 ''k.1'' ''alice'' '''' (new_session_manager 100 5))) = Some (None, sm1) \<and>
     create_session 0 ''k.1'' ''bob'' '''' sm1 = (None, sm2) \<and>
     acquire_lookup 1 ''k.1'' ''bob'' ''r'' sm2 tc = Inr (Some ''alice-token'')"
proof -
  let ?tc = "[(''k.1'', [(''r'', \<lparr>te_access_token = ''alice-token'', te_expires_at = 1000000000000, te_created_at = 0\<rparr>)])]"
  let ?sm = "snd (create_session 0 ''k.1'' ''alice'' '''' (new_session_manager 100 5))"
  have t: "get_token 1 ''k.1'' ''r'' ?tc = Some ''alice-token''" by (simp add: get_token_def is_token_expired_def nanos_def)
  have "map_option (\<lambda>(r, sm1). (r, fst (create_session 0 ''k.1'' ''bob'' '''' sm1))) (end_session ''k.1'' ?sm) = Some (None, None)"
    by code_simp
  then obtain sm1 sm2 where e: "end_session ''k.1'' ?sm = Some (None, sm1)" "create_session 0 ''k.1'' ''bob'' '''' sm1 = (None, sm2)"
    by (auto simp: map_option_case split: option.splits) (metis prod.collapse)
  show ?thesis using token_survives_session[OF t e] t e by blast
qed

text \<open>A flow that timed out leaves its transaction behind: the late
  callback is answered with success although nothing waits for the code.\<close>
lemma late_callback_reports_success:
  assumes "gm_get (sm_sessions sm) key = Some i" "bs_key (sm_heap sm i) = key"
    "bs_active_tx (sm_heap sm i) = Some tx" "tx_state tx = build_state key nonce" "tx_completion_chan tx = []"
    "wait_flow WakeTimeout (sm_heap sm i) = Some (r, s)" "code \<noteq> ''''"
  shows "r = Inl ErrOAuthTimeout \<and>
     fst (handle_oauth_callback code (tx_state tx) '''' desc (sm\<lparr>sm_heap := (sm_heap sm)(i := s)\<rparr>)) =
       (if bs_redirect_url (sm_heap sm i) = '''' then PlainText 200 ''OAuth authorization successful''
        else Redirect (bs_redirect_url (sm_heap sm i)) [(''oauth_status'', ''success'')])"
proof -
  have r: "r = Inl ErrOAuthTimeout" and s: "s = set_tx_status OAuthTxStatusFailed (sm_heap sm i)"
    using assms(6) by (simp_all add: wait_flow_def)
  let ?sm = "sm\<lparr>sm_heap := (sm_heap sm)(i := s)\<rparr>"
  have g: "get_session_by_state (tx_state tx) ?sm = Inr i"
    using assms(1,3,4) by (simp add: get_session_by_state_def build_state_last_dot build_state_key s set_tx_status_def)
  have "fst (complete_oauth key (bs_user_id s) code (tx_state tx) ?sm) = None"
    using assms(1,3,5)
    by (simp add: complete_oauth_def validate_session_def get_session_def s set_tx_status_def completion_chan_cap_def)
  then obtain sm' where "complete_oauth key (bs_user_id s) code (tx_state tx) ?sm = (None, sm')"
    by (metis prod.collapse)
  moreover have "tx_state tx \<noteq> ''''" using assms(4) by (simp add: build_state_def)
  ultimately show ?thesis using g r assms(2,7)
    by (simp add: handle_oauth_callback_def s set_tx_status_def Let_def)
qed

lemma late_callback_reports_success_witness:
  "\<exists>s. wait_flow WakeTimeout (sm_heap sample_flow_manager 0) = Some (Inl ErrOAuthTimeout, s) \<and>
     fst (handle_oauth_callback ''code'' (tx_state sample_tx) '''' '''' (sample_flow_manager\<lparr>sm_heap :=
       (sm_heap sample_flow_manager)(0 := s)\<rparr>)) = Redirect ''http://b'' [(''oauth_status'', ''success'')]"
  using late_callback_reports_success[of sample_flow_manager "''k.1''" 0 sample_tx "[]" "Inl ErrOAuthTimeout"
      "set_tx_status OAuthTxStatusFailed (sm_heap sample_flow_manager 0)" "''code''" "''''"]
  by (simp add: sample_defs wait_flow_def)

text \<open>A request that was queued for the semaphore when the session
  ended fails with the event error, which the handler reports as a server
  error and not as an expired session: the cleanup has filled the event buffer
  of the session with its own event.\<close>
lemma queued_request_after_end_is_500:
  assumes "retire_session reason s = Some s'"
  shows "bs_done s' \<and>
     (\<exists>s''. begin_flow (Inr (ae, te, scopes)) (Inr pk) (Inr (url, nonce)) False cb res s' = (Inl ErrNoEventWaiter, s'')) \<and>
     classify_error (ErrFlow ErrNoEventWaiter) = FlatError 500 ''internal_error''"
  using assms
  by (auto simp: retire_session_def begin_flow_def offer_event_def event_waiters_cap_def classify_error_def is_upstream_def
      Let_def split: option.splits if_splits)

theorem queued_request_after_end_is_500_witness:
  "\<exists>s'. retire_session ''session ended'' sample_session = Some s' \<and>
     (\<exists>s''. begin_flow (Inr (''a'', ''t'', [])) (Inr (generate_pkce_challenge [])) (Inr (''url'', [])) False ''cb'' ''r'' s'
        = (Inl ErrNoEventWaiter, s''))"
proof -
  obtain s' where r: "retire_session ''session ended'' sample_session = Some s'"
    by (simp add: retire_session_def sample_session_def mk_session_def Let_def)
  show ?thesis using queued_request_after_end_is_500[OF r] r by blast
qed

text \<open>Claim C16. The token endpoint hands out a token only to a caller whose bearer
  token was accepted, for the session its claims name and only if that session
  exists and belongs to the subject; the acquisition runs for exactly that
  session, user and the resource of the header.\<close>
theorem get_token_authenticated:
  assumes "handle_get_token h auth_header server_url sm acquire = TokenBody token"
  shows "\<exists>user key i. parse_and_validate_jwt h auth_header = Some (user, key) \<and> user \<noteq> '''' \<and> key \<noteq> '''' \<and>
     (\<forall>verify. hd_verifier h = Some verify \<longrightarrow> (\<exists>tok c. extract_bearer_token auth_header = Some tok \<and>
        verify tok (hd_audiences h) = Inr c \<and> vc_subject c = user)) \<and>
     gm_get (sm_sessions sm) key = Some i \<and> bs_user_id (sm_heap sm i) = user \<and> server_url \<noteq> '''' \<and>
     acquire key user server_url = Inr token"
proof -
  obtain user key where p: "parse_and_validate_jwt h auth_header = Some (user, key)"
    using assms by (auto simp: handle_get_token_def split: option.splits)
  have v: "validate_session key user sm = None" "server_url \<noteq> ''''" "acquire key user server_url = Inr token"
    using assms p by (auto simp: handle_get_token_def classify_error_def split: if_splits sum.splits)
  have "user \<noteq> '''' \<and> key \<noteq> '''' \<and> (\<forall>verify. hd_verifier h = Some verify \<longrightarrow>
      (\<exists>tok c. extract_bearer_token auth_header = Some tok \<and> verify tok (hd_audiences h) = Inr c \<and> vc_subject c = user))"
    using p by (rule parse_and_validate_jwt_Some)
  moreover obtain i where "gm_get (sm_sessions sm) key = Some i" "bs_user_id (sm_heap sm i) = user"
    using v(1) by (auto simp: validate_session_def split: option.splits if_splits)
  ultimately show ?thesis using p v(2,3) by blast
qed

theorem get_token_authenticated_witness:
  "handle_get_token sample_handler ''Bearer jwt'' ''r'' sample_manager (\<lambda>k u r. Inr ''tok'') = TokenBody ''tok'' \<and>
   parse_and_validate_jwt sample_handler ''Bearer jwt'' = Some (''u'', ''k.1'')"
proof -
  have p: "parse_and_validate_jwt sample_handler ''Bearer jwt'' = Some (''u'', ''k.1'')" by code_simp
  have h: "handle_get_token sample_handler ''Bearer jwt'' ''r'' sample_manager (\<lambda>k u r. Inr ''tok'') = TokenBody ''tok''"
    by (simp add: handle_get_token_def p validate_session_def sample_defs)
  show ?thesis using get_token_authenticated[OF h] h p by auto
qed

end
