(* ===== verification/Pipeline_Run.thy ===== *)
theory Pipeline_Run
  imports Pipeline_Types
begin

text \<open>
  The dispatcher of the plugin pipeline (\<^verbatim>\<open>pipeline.go\<close>), the wrapper that the
  registry puts around configured plugins (\<^verbatim>\<open>configured.go\<close>) and the slot that
  holds the current pipeline across hot reloads (\<^verbatim>\<open>holder.go\<close>).

  A plugin is a record of its methods; an optional Go interface that a plugin
  need not implement is an option-valued field.  Every method threads the
  world \<^verbatim>\<open>'w\<close>: plugin-internal state, remote services, the clock and the
  cancellation of the request context, which \<^verbatim>\<open>ctx_err\<close> reads.
\<close>

section \<open>Plugins and pipelines\<close>

record capabilities =
  cap_reads_body :: bool
  cap_writes_body :: bool
  cap_requires :: "string list"
  cap_requires_any :: "string list"
  cap_description :: string

definition normalize :: "capabilities \<Rightarrow> capabilities" where
  "normalize c = (if cap_writes_body c then c\<lparr>cap_reads_body := True\<rparr> else c)"

type_synonym 'w hook = "pcontext \<Rightarrow> 'w \<Rightarrow> action \<times> pcontext \<times> 'w"
type_synonym 'w frame_hook = "bytes \<Rightarrow> bool \<Rightarrow> 'w hook"
type_synonym 'w lifecycle = "'w \<Rightarrow> string option \<times> 'w"

record 'w plugin =
  pl_name :: string
  pl_capabilities :: capabilities
  pl_on_request :: "'w hook"
  pl_on_response :: "'w hook"
  pl_on_response_frame :: "'w frame_hook option"
  pl_init :: "'w lifecycle option"
  pl_shutdown :: "'w lifecycle option"
  pl_on_finish :: "(pcontext \<Rightarrow> 'w \<Rightarrow> pcontext \<times> 'w) option"
  pl_ready :: "('w \<Rightarrow> bool) option"
  pl_raw_config :: "bytes option"

record 'w pipeline =
  pp_plugins :: "'w plugin list"
  pp_policies :: "error_policy list"
  pp_finish_timeout :: time

datatype pipeline_error =
    TwoMutators string string
  | ReaderAfterMutator string string
  | TooManyPolicies nat nat

definition DefaultFinishTimeout :: time where
  "DefaultFinishTimeout = 2 * 1000000000"

fun validate_caps_loop :: "string \<Rightarrow> string \<Rightarrow> 'w plugin list \<Rightarrow> pipeline_error option" where
  "validate_caps_loop mutator reader [] =
     (if reader \<noteq> '''' then Some (ReaderAfterMutator reader mutator) else None)"
| "validate_caps_loop mutator reader (p # ps) =
     (let caps = normalize (pl_capabilities p) in
      if cap_writes_body caps then
        (if mutator \<noteq> '''' then Some (TwoMutators mutator (pl_name p))
         else validate_caps_loop (pl_name p) reader ps)
      else if cap_reads_body caps \<and> mutator \<noteq> '''' \<and> reader = ''''
      then validate_caps_loop mutator (pl_name p) ps
      else validate_caps_loop mutator reader ps)"

definition validate_capabilities :: "'w plugin list \<Rightarrow> pipeline_error option" where
  "validate_capabilities ps = validate_caps_loop '''' '''' ps"

definition new_pipeline ::
  "'w plugin list \<Rightarrow> error_policy list \<Rightarrow> time \<Rightarrow> pipeline_error + 'w pipeline" where
  "new_pipeline ps policies finish_timeout =
     (case validate_capabilities ps of
        Some e \<Rightarrow> Inl e
      | None \<Rightarrow>
          if length policies > length ps then Inl (TooManyPolicies (length policies) (length ps))
          else Inr \<lparr>pp_plugins = ps,
                    pp_policies = policies @ replicate (length ps - length policies) '''',
                    pp_finish_timeout =
                      (if finish_timeout \<le> 0 then DefaultFinishTimeout else finish_timeout)\<rparr>)"

definition policy_at :: "error_policy list \<Rightarrow> nat \<Rightarrow> error_policy" where
  "policy_at policies i = (if i < length policies then policy_resolved (policies ! i) else ErrorPolicyEnforce)"

section \<open>Dispatch\<close>

definition stamp_plugin_name :: "string \<Rightarrow> violation option \<Rightarrow> violation" where
  "stamp_plugin_name name vo =
     (let v = (case vo of
          None \<Rightarrow> empty_violation\<lparr>v_code := ''plugin.unspecified'',
                                   v_reason := ''plugin rejected without violation''\<rparr>
        | Some v \<Rightarrow> v)
      in if v_plugin_name v = '''' then v\<lparr>v_plugin_name := name\<rparr> else v)"

definition mark_shadow_and_log ::
  "string \<Rightarrow> invocation_phase \<Rightarrow> violation \<Rightarrow> pcontext \<Rightarrow> pcontext" where
  "mark_shadow_and_log name phase v c =
     (let (marked, c') = mark_last_invocation_shadow name phase c in
      if marked then c'
      else record_invocation
        \<lparr>inv_plugin = name, inv_action = ActionDeny, inv_phase = phase,
         inv_reason = (if v_code v \<noteq> '''' then v_code v else ''plugin.unspecified''),
         inv_path = c_path c',
         inv_details = [(''synthesized'', ''true''), (''would_deny_reason'', v_reason v)],
         inv_shadow = True\<rparr> c')"

text \<open>What follows every plugin call: under observe a rejection is turned into
  a shadow record and the loop goes on, otherwise it ends the loop.\<close>
definition settle ::
  "string \<Rightarrow> error_policy \<Rightarrow> invocation_phase \<Rightarrow> action \<Rightarrow> pcontext \<Rightarrow> action option \<times> pcontext" where
  "settle name policy phase a c =
     (case a of
        Continue \<Rightarrow> (None, c)
      | Reject vo \<Rightarrow>
          (let v = stamp_plugin_name name vo in
           if policy = ErrorPolicyObserve then (None, mark_shadow_and_log name phase v c)
           else (Some (Reject (Some v)), set_rejecting_plugin name c)))"

definition cancelled_action :: action where
  "cancelled_action = Deny ''pipeline.cancelled'' ''request cancelled''"

text \<open>One iteration of \<^verbatim>\<open>Run\<close> past the guards: stamp the current plugin, note the
  index for OnFinish, call the plugin, settle its action.\<close>
definition dispatch_request ::
  "nat \<Rightarrow> 'w plugin \<Rightarrow> error_policy \<Rightarrow> pcontext \<Rightarrow> 'w \<Rightarrow> action option \<times> pcontext \<times> 'w" where
  "dispatch_request i p policy c w =
     (let c1 = set_current (pl_name p) InvocationPhaseRequest policy c;
          c2 = c1\<lparr>c_dispatched := c_dispatched c1 @ [i]\<rparr>;
          (a, c3, w') = pl_on_request p c2 w;
          (ret, c5) = settle (pl_name p) policy InvocationPhaseRequest a (clear_current c3)
      in (ret, c5, w'))"

fun run_loop ::
  "('w \<Rightarrow> bool) \<Rightarrow> error_policy list \<Rightarrow> (nat \<times> 'w plugin) list \<Rightarrow> 'w hook" where
  "run_loop ctx_err pols [] c w = (Continue, c, w)"
| "run_loop ctx_err pols ((i, p) # ps) c w =
     (let policy = policy_at pols i in
      if policy = ErrorPolicyOff then run_loop ctx_err pols ps c w
      else if ctx_err w then (cancelled_action, c, w)
      else case dispatch_request i p policy c w of
             (Some a, c', w') \<Rightarrow> (a, c', w')
           | (None, c', w') \<Rightarrow> run_loop ctx_err pols ps c' w')"

definition run :: "('w \<Rightarrow> bool) \<Rightarrow> 'w pipeline \<Rightarrow> 'w hook" where
  "run ctx_err p = run_loop ctx_err (pp_policies p) (enumerate 0 (pp_plugins p))"

fun run_response_loop ::
  "('w \<Rightarrow> bool) \<Rightarrow> error_policy list \<Rightarrow> (nat \<times> 'w plugin) list \<Rightarrow> 'w hook" where
  "run_response_loop ctx_err pols [] c w = (Continue, c, w)"
| "run_response_loop ctx_err pols ((i, p) # ps) c w =
     (let policy = policy_at pols i in
      if policy = ErrorPolicyOff then run_response_loop ctx_err pols ps c w
      else if pl_on_response_frame p \<noteq> None then run_response_loop ctx_err pols ps c w
      else if ctx_err w then (cancelled_action, c, w)
      else
        let c1 = set_current (pl_name p) InvocationPhaseResponse policy c;
            (a, c3, w') = pl_on_response p c1 w;
            (ret, c5) = settle (pl_name p) policy InvocationPhaseResponse a (clear_current c3)
        in case ret of
             Some a' \<Rightarrow> (a', c5, w')
           | None \<Rightarrow> run_response_loop ctx_err pols ps c5 w')"

definition run_response :: "('w \<Rightarrow> bool) \<Rightarrow> 'w pipeline \<Rightarrow> 'w hook" where
  "run_response ctx_err p =
     run_response_loop ctx_err (pp_policies p) (rev (enumerate 0 (pp_plugins p)))"

fun run_frame_loop ::
  "('w \<Rightarrow> bool) \<Rightarrow> error_policy list \<Rightarrow> (nat \<times> 'w plugin) list \<Rightarrow> 'w frame_hook" where
  "run_frame_loop ctx_err pols [] frame is_last c w = (Continue, c, w)"
| "run_frame_loop ctx_err pols ((i, p) # ps) frame is_last c w =
     (let policy = policy_at pols i in
      if policy = ErrorPolicyOff then run_frame_loop ctx_err pols ps frame is_last c w
      else if ctx_err w then (cancelled_action, c, w)
      else case pl_on_response_frame p of
        None \<Rightarrow> run_frame_loop ctx_err pols ps frame is_last c w
      | Some sr \<Rightarrow>
        (let c1 = set_current (pl_name p) InvocationPhaseResponse policy c;
             (a, c3, w') = sr frame is_last c1 w;
             (ret, c5) = settle (pl_name p) policy InvocationPhaseResponse a (clear_current c3)
         in case ret of
              Some a' \<Rightarrow> (a', c5, w')
            | None \<Rightarrow> run_frame_loop ctx_err pols ps frame is_last c5 w'))"

definition run_response_frame :: "('w \<Rightarrow> bool) \<Rightarrow> 'w pipeline \<Rightarrow> 'w frame_hook" where
  "run_response_frame ctx_err p =
     run_frame_loop ctx_err (pp_policies p) (rev (enumerate 0 (pp_plugins p)))"

definition has_streaming_responders :: "'w pipeline \<Rightarrow> bool" where
  "has_streaming_responders p = list_ex (\<lambda>q. pl_on_response_frame q \<noteq> None) (pp_plugins p)"

definition ready :: "'w pipeline \<Rightarrow> 'w \<Rightarrow> bool" where
  "ready p w = list_all (\<lambda>q. case pl_ready q of None \<Rightarrow> True | Some r \<Rightarrow> r w) (pp_plugins p)"

fun not_ready_in :: "'w plugin list \<Rightarrow> 'w \<Rightarrow> string" where
  "not_ready_in [] w = ''''"
| "not_ready_in (q # qs) w =
     (case pl_ready q of
        None \<Rightarrow> not_ready_in qs w
      | Some r \<Rightarrow> if r w then not_ready_in qs w else pl_name q)"

definition not_ready_plugin :: "'w pipeline \<Rightarrow> 'w \<Rightarrow> string" where
  "not_ready_plugin p w = not_ready_in (pp_plugins p) w"

definition needs_body :: "'w pipeline \<Rightarrow> bool" where
  "needs_body p = list_ex (\<lambda>q. let c = normalize (pl_capabilities q) in
     cap_reads_body c \<or> cap_writes_body c) (pp_plugins p)"

definition writes_body :: "'w pipeline \<Rightarrow> bool" where
  "writes_body p = list_ex (\<lambda>q. cap_writes_body (normalize (pl_capabilities q))) (pp_plugins p)"

section \<open>Lifecycle\<close>

text \<open>The shutdown loop, over a list already in the order it visits.  Errors
  are logged and dropped.\<close>
fun shutdown_all :: "'w plugin list \<Rightarrow> 'w \<Rightarrow> 'w" where
  "shutdown_all [] w = w"
| "shutdown_all (p # ps) w =
     (case pl_shutdown p of
        None \<Rightarrow> shutdown_all ps w
      | Some sh \<Rightarrow> shutdown_all ps (snd (sh w)))"

definition unwind_start :: "'w pipeline \<Rightarrow> nat \<Rightarrow> 'w \<Rightarrow> 'w" where
  "unwind_start p failed = shutdown_all (rev (take failed (pp_plugins p)))"

text \<open>An error is the name of the plugin with the text of its \<^verbatim>\<open>Init\<close> error.\<close>
fun start_loop :: "'w pipeline \<Rightarrow> (nat \<times> 'w plugin) list \<Rightarrow> 'w \<Rightarrow> (string \<times> string) option \<times> 'w" where
  "start_loop pl [] w = (None, w)"
| "start_loop pl ((i, p) # ps) w =
     (case pl_init p of
        None \<Rightarrow> start_loop pl ps w
      | Some ini \<Rightarrow>
          (case ini w of
             (None, w') \<Rightarrow> start_loop pl ps w'
           | (Some e, w') \<Rightarrow> (Some (pl_name p, e), unwind_start pl i w')))"

definition start :: "'w pipeline \<Rightarrow> 'w \<Rightarrow> (string \<times> string) option \<times> 'w" where
  "start p w = start_loop p (enumerate 0 (pp_plugins p)) w"

definition stop :: "'w pipeline \<Rightarrow> 'w \<Rightarrow> 'w" where
  "stop p w = shutdown_all (rev (pp_plugins p)) w"

text \<open>\<^verbatim>\<open>dispatchFinish\<close>: the flag is set around the call and a panic inside it is
  recovered, so the call always returns.\<close>
definition dispatch_finish ::
  "(pcontext \<Rightarrow> 'w \<Rightarrow> pcontext \<times> 'w) \<Rightarrow> pcontext \<Rightarrow> 'w \<Rightarrow> pcontext \<times> 'w" where
  "dispatch_finish f c w =
     (let (c', w') = f (c\<lparr>c_in_finish := True\<rparr>) w in (c'\<lparr>c_in_finish := False\<rparr>, w'))"

text \<open>None is the index-out-of-range panic of \<^verbatim>\<open>p.plugins[idx]\<close>.\<close>
fun finish_loop :: "'w plugin list \<Rightarrow> nat list \<Rightarrow> pcontext \<Rightarrow> 'w \<Rightarrow> (pcontext \<times> 'w) option" where
  "finish_loop ps [] c w = Some (c, w)"
| "finish_loop ps (idx # idxs) c w =
     (if idx < length ps then
        (case pl_on_finish (ps ! idx) of
           None \<Rightarrow> finish_loop ps idxs c w
         | Some f \<Rightarrow> (let (c', w') = dispatch_finish f c w in finish_loop ps idxs c' w'))
      else None)"

definition run_finish ::
  "('w \<Rightarrow> time) \<Rightarrow> 'w pipeline \<Rightarrow> outcome \<Rightarrow> pcontext \<Rightarrow> 'w \<Rightarrow> (pcontext \<times> 'w) option" where
  "run_finish clock p oc c w =
     (if c_finished c then Some (c, w)
      else let c1 = c\<lparr>c_finished := True\<rparr> in
        if c_dispatched c1 = [] then Some (c1, w)
        else
          let oc' = (case c_started_at c1 of
                Some t \<Rightarrow> if out_duration oc = 0 then oc\<lparr>out_duration := clock w - t\<rparr> else oc
              | None \<Rightarrow> oc)
          in map_option (\<lambda>(c', w'). (c'\<lparr>c_outcome := None\<rparr>, w'))
               (finish_loop (pp_plugins p) (rev (c_dispatched c1)) (c1\<lparr>c_outcome := Some oc'\<rparr>) w))"

section \<open>Configured plugins and the hot-reload slot\<close>

text \<open>\<^verbatim>\<open>WrapConfigured\<close>: the four listed optional interfaces are forwarded with a
  neutral fallback; \<^verbatim>\<open>StreamingResponder\<close> is not in the method set of the wrapper.\<close>
definition wrap_configured :: "'w plugin \<Rightarrow> bytes \<Rightarrow> 'w plugin" where
  "wrap_configured p raw =
     \<lparr>pl_name = pl_name p,
      pl_capabilities = pl_capabilities p,
      pl_on_request = pl_on_request p,
      pl_on_response = pl_on_response p,
      pl_on_response_frame = None,
      pl_init = Some (\<lambda>w. case pl_init p of Some f \<Rightarrow> f w | None \<Rightarrow> (None, w)),
      pl_shutdown = Some (\<lambda>w. case pl_shutdown p of Some f \<Rightarrow> f w | None \<Rightarrow> (None, w)),
      pl_on_finish = Some (\<lambda>c w. case pl_on_finish p of Some f \<Rightarrow> f c w | None \<Rightarrow> (c, w)),
      pl_ready = Some (\<lambda>w. case pl_ready p of Some r \<Rightarrow> r w | None \<Rightarrow> True),
      pl_raw_config = Some raw\<rparr>"

text \<open>A \<^verbatim>\<open>Holder\<close> is the pipeline it currently points at; each delegating method
  loads it anew.\<close>
record 'w holder =
  h_pipeline :: "'w pipeline"

definition holder_store :: "'w pipeline \<Rightarrow> 'w holder \<Rightarrow> 'w holder" where
  "holder_store p h = h\<lparr>h_pipeline := p\<rparr>"

definition holder_run :: "('w \<Rightarrow> bool) \<Rightarrow> 'w holder \<Rightarrow> 'w hook" where
  "holder_run ctx_err h = run ctx_err (h_pipeline h)"

definition holder_run_finish ::
  "('w \<Rightarrow> time) \<Rightarrow> 'w holder \<Rightarrow> outcome \<Rightarrow> pcontext \<Rightarrow> 'w \<Rightarrow> (pcontext \<times> 'w) option" where
  "holder_run_finish clock h = run_finish clock (h_pipeline h)"

section \<open>Concrete instances\<close>

text \<open>A fresh request context, a gate that denies and records it, a plugin that
  lets everything pass and one that answers stream frames.\<close>
definition fresh_context :: pcontext where
  "fresh_context = \<lparr>c_direction = Inbound, c_method = ''GET'', c_scheme = ''http'', c_host = ''agent'',
     c_path = ''/'', c_headers = [], c_body = '''', c_started_at = None, c_agent = None,
     c_identity = None, c_session = None, c_tls = None, c_shared = False, c_status_code = 0,
     c_response_headers = [], c_response_body = '''',
     c_extensions = \<lparr>ext_mcp = None, ext_a2a = None, ext_security = None, ext_inference = None,
                      ext_invocations = None, ext_custom = []\<rparr>,
     c_current_plugin = '''', c_current_phase = PhaseNone, c_current_policy = '''',
     c_body_mutated = False, c_response_body_mutated = False, c_dispatched = [], c_outcome = None,
     c_in_finish = False, c_rejecting_plugin = '''', c_finished = False\<rparr>"

definition no_capabilities :: capabilities where
  "no_capabilities = \<lparr>cap_reads_body = False, cap_writes_body = False, cap_requires = [],
     cap_requires_any = [], cap_description = ''''\<rparr>"

definition pass_plugin :: "string \<Rightarrow> 'w plugin" where
  "pass_plugin name = \<lparr>pl_name = name, pl_capabilities = no_capabilities,
     pl_on_request = (\<lambda>c w. (Continue, c, w)), pl_on_response = (\<lambda>c w. (Continue, c, w)),
     pl_on_response_frame = None, pl_init = None, pl_shutdown = None, pl_on_finish = None,
     pl_ready = None, pl_raw_config = None\<rparr>"

definition gate_plugin :: "string \<Rightarrow> 'w plugin" where
  "gate_plugin name = (pass_plugin name)\<lparr>pl_on_request :=
     (\<lambda>c w. case deny_and_record ''closed'' ''policy.forbidden'' ''closed'' c of (a, c') \<Rightarrow> (a, c', w))\<rparr>"

definition chain :: "'w plugin list \<Rightarrow> error_policy list \<Rightarrow> 'w pipeline" where
  "chain ps pols = \<lparr>pp_plugins = ps, pp_policies = pols, pp_finish_timeout = DefaultFinishTimeout\<rparr>"

text \<open>The indexes a run may dispatch: every entry whose policy is not off.\<close>
definition active_indexes :: "error_policy list \<Rightarrow> (nat \<times> 'w plugin) list \<Rightarrow> nat list" where
  "active_indexes pols ips = map fst (filter (\<lambda>(i, p). policy_at pols i \<noteq> ErrorPolicyOff) ips)"

text \<open>A pipeline as the registry builds it when every plugin is configurable.\<close>
definition wrap_all :: "('w plugin \<Rightarrow> bytes) \<Rightarrow> 'w pipeline \<Rightarrow> 'w pipeline" where
  "wrap_all raw p = p\<lparr>pp_plugins := map (\<lambda>x. wrap_configured x (raw x)) (pp_plugins p)\<rparr>"

text \<open>A gate that records its denial and then one more record.\<close>
definition chatty_gate :: "string \<Rightarrow> 'w plugin" where
  "chatty_gate name = (pass_plugin name)\<lparr>pl_on_request :=
     (\<lambda>c w. case deny_and_record ''closed'' ''policy.forbidden'' ''closed'' c of
        (a, c') \<Rightarrow> (a, ctx_observe ''audited'' c', w))\<rparr>"

text \<open>The context a plugin is called with.\<close>
definition request_context :: "nat \<Rightarrow> 'w plugin \<Rightarrow> error_policy \<Rightarrow> pcontext \<Rightarrow> pcontext" where
  "request_context i q policy c =
     (let c1 = set_current (pl_name q) InvocationPhaseRequest policy c in c1\<lparr>c_dispatched := c_dispatched c1 @ [i]\<rparr>)"

section \<open>Contract of a plugin\<close>

text \<open>The fields of the context that are unexported in Go are out of reach of a
  plugin: no call changes them.\<close>
locale plugin_contract =
  fixes call :: "'w hook"
  assumes keeps_framework: "framework_fields (fst (snd (call c w))) = framework_fields c"
begin

lemma call_result:
  assumes "call c w = (a, c', w')"
  shows "framework_fields c' = framework_fields c"
  using keeps_framework[of c w] assms by simp

end

locale plugin_chain =
  fixes plugins :: "'w plugin list"
  assumes member_contract: "p \<in> set plugins \<Longrightarrow> plugin_contract (pl_on_request p)"

lemma stamp_plugin_name_blame:
  "v_plugin_name (stamp_plugin_name n vo) = '''' \<Longrightarrow> n = ''''"
  by (auto simp: stamp_plugin_name_def Let_def split: if_splits)

lemma mark_shadow_and_log_keeps [framework, simp]:
  "framework_fields (mark_shadow_and_log n ph v c) = framework_fields c"
proof -
  obtain m c' where mc: "mark_last_invocation_shadow n ph c = (m, c')" by fastforce
  then have "framework_fields c' = framework_fields c"
    using mark_shadow_keeps[of n ph c] by simp
  then show ?thesis by (simp add: mark_shadow_and_log_def mc)
qed

text \<open>The part of the context that survives the settlement of an action.\<close>
lemma settle_None:
  assumes "settle n po ph a c = (None, c')"
  shows "framework_fields c' = framework_fields c" and "a = Continue \<or> po = ErrorPolicyObserve"
  using assms by (auto simp: settle_def Let_def split: action.splits if_splits)

lemma settle_Some:
  assumes "settle n po ph a c = (Some r, c')"
  shows "\<exists>vo. a = Reject vo \<and> r = Reject (Some (stamp_plugin_name n vo))"
    and "po \<noteq> ErrorPolicyObserve" and "c' = set_rejecting_plugin n c"
  using assms by (auto simp: settle_def Let_def split: action.splits if_splits)

lemma dispatch_request_proceeds:
  assumes "plugin_contract (pl_on_request p)" "dispatch_request i p po c w = (None, c', w')"
  shows "c_dispatched c' = c_dispatched c @ [i]" "c_rejecting_plugin c' = c_rejecting_plugin c"
    "c_finished c' = c_finished c" "c_in_finish c' = c_in_finish c" "c_outcome c' = c_outcome c"
proof -
  define c2 where "c2 = (set_current (pl_name p) InvocationPhaseRequest po c)
      \<lparr>c_dispatched := c_dispatched (set_current (pl_name p) InvocationPhaseRequest po c) @ [i]\<rparr>"
  obtain a c3 w3 where call: "pl_on_request p c2 w = (a, c3, w3)" by (metis prod_cases3)
  have s: "settle (pl_name p) po InvocationPhaseRequest a (clear_current c3) = (None, c')"
    using assms(2) call by (auto simp: dispatch_request_def Let_def c2_def split: prod.splits)
  have "framework_fields c' = framework_fields c2"
    using settle_None(1)[OF s] plugin_contract.call_result[OF assms(1) call] by simp
  then show "c_dispatched c' = c_dispatched c @ [i]" "c_rejecting_plugin c' = c_rejecting_plugin c"
    "c_finished c' = c_finished c" "c_in_finish c' = c_in_finish c" "c_outcome c' = c_outcome c"
    by (simp_all add: framework_fields_def c2_def set_current_def)
qed

lemma dispatch_request_stops:
  assumes "plugin_contract (pl_on_request p)" "dispatch_request i p po c w = (Some r, c', w')"
  shows "c_dispatched c' = c_dispatched c @ [i]"
    "c_rejecting_plugin c' = (if c_rejecting_plugin c = '''' then pl_name p else c_rejecting_plugin c)"
    "c_finished c' = c_finished c" "c_in_finish c' = c_in_finish c" "c_outcome c' = c_outcome c"
    "po \<noteq> ErrorPolicyObserve" "\<exists>vo. r = Reject (Some (stamp_plugin_name (pl_name p) vo))"
proof -
  define c2 where "c2 = (set_current (pl_name p) InvocationPhaseRequest po c)
      \<lparr>c_dispatched := c_dispatched (set_current (pl_name p) InvocationPhaseRequest po c) @ [i]\<rparr>"
  obtain a c3 w3 where call: "pl_on_request p c2 w = (a, c3, w3)" by (metis prod_cases3)
  have s: "settle (pl_name p) po InvocationPhaseRequest a (clear_current c3) = (Some r, c')"
    using assms(2) call by (auto simp: dispatch_request_def Let_def c2_def split: prod.splits)
  have f: "framework_fields (clear_current c3) = framework_fields c2"
    using plugin_contract.call_result[OF assms(1) call] by simp
  show "c_dispatched c' = c_dispatched c @ [i]"
    "c_rejecting_plugin c' = (if c_rejecting_plugin c = '''' then pl_name p else c_rejecting_plugin c)"
    "c_finished c' = c_finished c" "c_in_finish c' = c_in_finish c" "c_outcome c' = c_outcome c"
    using f unfolding settle_Some(3)[OF s]
    by (simp_all add: framework_fields_def c2_def set_current_def set_rejecting_plugin_def)
  show "po \<noteq> ErrorPolicyObserve" "\<exists>vo. r = Reject (Some (stamp_plugin_name (pl_name p) vo))"
    using settle_Some(1,2)[OF s] by blast+
qed

lemma active_indexes_simps [simp]:
  "active_indexes pols [] = []"
  "active_indexes pols ((i, p) # ips) =
     (if policy_at pols i = ErrorPolicyOff then active_indexes pols ips else i # active_indexes pols ips)"
  by (simp_all add: active_indexes_def)

text \<open>A run that stops is the run of the prefix up to the entry that stopped
  it, whatever follows.\<close>
lemma run_loop_append:
  assumes "run_loop ce pols ips c w = (Reject v, c', w')"
  shows "run_loop ce pols (ips @ post) c w = (Reject v, c', w')"
  using assms
  by (induction ce pols ips c w rule: run_loop.induct) (auto simp: Let_def split: if_splits prod.splits option.splits)

context plugin_chain
begin

lemma run_loop_continue:
  assumes "snd ` set ips \<subseteq> set plugins" "run_loop ce pols ips c w = (Continue, c', w')"
  shows "c_dispatched c' = c_dispatched c @ active_indexes pols ips \<and>
         c_rejecting_plugin c' = c_rejecting_plugin c \<and> c_finished c' = c_finished c"
  using assms
proof (induction ce pols ips c w rule: run_loop.induct)
  case (2 ce pols i p ips c w)
  note contract = member_contract[of p]
  show ?case
  proof (cases "policy_at pols i = ErrorPolicyOff")
    case True
    then show ?thesis using 2 by simp
  next
    case False
    then have ne: "\<not> ce w" using 2(4) by (auto simp: cancelled_action_def Deny_def split: if_splits)
    obtain r c1 w1 where d: "dispatch_request i p (policy_at pols i) c w = (r, c1, w1)"
      by (metis prod_cases3)
    have pc: "plugin_contract (pl_on_request p)" using 2(3) contract by simp
    have r: "r = None"
      using dispatch_request_stops(7)[OF pc] d 2(4) False ne by (cases r) fastforce+
    then have "run_loop ce pols ips c1 w1 = (Continue, c', w')" using 2(4) d False ne by simp
    moreover note dispatch_request_proceeds[OF pc d[unfolded r]]
    ultimately show ?thesis using 2(2)[OF refl False ne d[unfolded r, symmetric] refl] 2(3) False by simp
  qed
qed simp

text \<open>Where a run that returns a rejection stopped, and why.\<close>
lemma run_loop_reject:
  assumes "snd ` set ips \<subseteq> set plugins" "run_loop ce pols ips c w = (Reject v, c', w')"
  shows "(Reject v = cancelled_action \<and> c_rejecting_plugin c' = c_rejecting_plugin c) \<or>
    (\<exists>pre i p post. ips = pre @ (i, p) # post \<and>
       policy_at pols i \<noteq> ErrorPolicyOff \<and> policy_at pols i \<noteq> ErrorPolicyObserve \<and>
       c_dispatched c' = c_dispatched c @ active_indexes pols (pre @ [(i, p)]) \<and>
       c_rejecting_plugin c' = (if c_rejecting_plugin c = '''' then pl_name p else c_rejecting_plugin c) \<and>
       run_loop ce pols (pre @ [(i, p)]) c w = (Reject v, c', w') \<and>
       (\<exists>vo. v = Some (stamp_plugin_name (pl_name p) vo)))"
  using assms
proof (induction ce pols ips c w rule: run_loop.induct)
  case (2 ce pols i p ips c w)
  have sub: "snd ` set ips \<subseteq> set plugins" using 2(3) by simp
  show ?case
  proof (cases "policy_at pols i = ErrorPolicyOff")
    case True
    then have "run_loop ce pols ips c w = (Reject v, c', w')" using 2(4) by simp
    from 2(1)[OF refl True sub this] show ?thesis
    proof (elim disjE exE conjE, goal_cases)
      case (2 pre j q post vo)
      then show ?case using True
        by (intro disjI2, rule_tac x = "(i, p) # pre" in exI, rule_tac x = j in exI,
                rule_tac x = q in exI, rule_tac x = post in exI) auto
    qed simp_all
  next
    case on: False
    show ?thesis
    proof (cases "ce w")
      case True
      then show ?thesis using on 2(4) by auto
    next
      case False
      obtain r c1 w1 where d: "dispatch_request i p (policy_at pols i) c w = (r, c1, w1)"
        by (metis prod_cases3)
      have pc: "plugin_contract (pl_on_request p)" using 2(3) member_contract[of p] by simp
      show ?thesis
      proof (cases r)
        case None
        note proceeds = dispatch_request_proceeds[OF pc d[unfolded None]]
        have "run_loop ce pols ips c1 w1 = (Reject v, c', w')" using 2(4) d on False None by simp
        from 2(2)[OF refl on False d[unfolded None, symmetric] refl refl sub this] show ?thesis
        proof (elim disjE exE conjE, goal_cases)
          case (2 pre j q post vo)
          then show ?case using on False None d proceeds
            by (intro disjI2, rule_tac x = "(i, p) # pre" in exI, rule_tac x = j in exI,
                rule_tac x = q in exI, rule_tac x = post in exI) auto
        qed (simp_all add: proceeds)
      next
        case (Some x)
        note stops = dispatch_request_stops[OF pc d[unfolded Some]]
        have "x = Reject v" "c' = c1" "w' = w1" using 2(4) d on False Some by simp_all
        then show ?thesis using stops on False Some d
          by (intro disjI2, rule_tac x = "[]" in exI, rule_tac x = i in exI,
              rule_tac x = p in exI, rule_tac x = ips in exI) auto
      qed
    qed
  qed
qed simp

end

section \<open>Lemmas: finishing, lifecycle, capabilities, wrapping\<close>

lemma run_loop_bound:
  assumes "\<And>p. p \<in> snd ` set ips \<Longrightarrow> plugin_contract (pl_on_request p)"
    and "run_loop ce pols ips c w = (a, c', w')"
  shows "set (c_dispatched c') \<subseteq> set (c_dispatched c) \<union> fst ` set ips \<and>
         c_finished c' = c_finished c \<and> c_in_finish c' = c_in_finish c \<and> c_outcome c' = c_outcome c"
  using assms
proof (induction ce pols ips c w rule: run_loop.induct)
  case (2 ce pols i p ips c w)
  show ?case
  proof (cases "policy_at pols i = ErrorPolicyOff \<or> ce w")
    case True
    then show ?thesis using 2(1)[OF refl] 2(3,4) by (auto simp: Let_def split: if_splits)
  next
    case False
    obtain r c1 w1 where d: "dispatch_request i p (policy_at pols i) c w = (r, c1, w1)"
      by (metis prod_cases3)
    have pc: "plugin_contract (pl_on_request p)" using 2(3) by simp
    show ?thesis
    proof (cases r)
      case None
      have "run_loop ce pols ips c1 w1 = (a, c', w')" using 2(4) d False None by simp
      then have "set (c_dispatched c') \<subseteq> set (c_dispatched c1) \<union> fst ` set ips \<and>
         c_finished c' = c_finished c1 \<and> c_in_finish c' = c_in_finish c1 \<and> c_outcome c' = c_outcome c1"
        using 2(2)[OF refl _ _ d[unfolded None, symmetric] refl refl] 2(3) False by simp
      then show ?thesis using dispatch_request_proceeds[OF pc d[unfolded None]] by auto
    next
      case (Some x)
      then show ?thesis using 2(4) d False dispatch_request_stops[OF pc d[unfolded Some]] by auto
    qed
  qed
qed simp

lemma finish_loop_total:
  assumes "\<And>p f c w. p \<in> set ps \<Longrightarrow> pl_on_finish p = Some f \<Longrightarrow>
             framework_fields (fst (f c w)) = framework_fields c"
    and "set idxs \<subseteq> {..<length ps}" "\<not> c_in_finish c"
  shows "\<exists>c' w'. finish_loop ps idxs c w = Some (c', w') \<and> framework_fields c' = framework_fields c"
  using assms(2,3)
proof (induction idxs arbitrary: c w)
  case (Cons idx idxs)
  have lt: "idx < length ps" using Cons.prems by simp
  show ?case
  proof (cases "pl_on_finish (ps ! idx)")
    case None
    then show ?thesis using Cons lt by simp
  next
    case (Some f)
    obtain c1 w1 where d: "dispatch_finish f c w = (c1, w1)" by fastforce
    obtain c2 where f: "f (c\<lparr>c_in_finish := True\<rparr>) w = (c2, w1)" "c1 = c2\<lparr>c_in_finish := False\<rparr>"
      using d by (auto simp: dispatch_finish_def Let_def split: prod.splits)
    have "framework_fields c2 = framework_fields (c\<lparr>c_in_finish := True\<rparr>)"
      using assms(1)[OF nth_mem[OF lt] Some, of "c\<lparr>c_in_finish := True\<rparr>" w] f by simp
    then have c1: "framework_fields c1 = framework_fields c" "\<not> c_in_finish c1"
      using f(2) Cons.prems(2) by (simp_all add: framework_fields_def)
    then show ?thesis using Cons.IH[of c1 w1] Cons.prems(1) Some d lt by simp
  qed
qed simp

lemma start_loop_fail:
  assumes "start_loop pl ips w = (Some err, w')"
  shows "\<exists>pre i p post ini e w1 w2. ips = pre @ (i, p) # post \<and>
     start_loop pl pre w = (None, w1) \<and> pl_init p = Some ini \<and> ini w1 = (Some e, w2) \<and>
     err = (pl_name p, e) \<and> w' = unwind_start pl i w2"
  using assms
proof (induction ips arbitrary: w)
  case (Cons ip ips)
  obtain i p where ip: "ip = (i, p)" by (cases ip)
  show ?case
  proof (cases "\<exists>ini e w2. pl_init p = Some ini \<and> ini w = (Some e, w2)")
    case True
    then show ?thesis using Cons.prems ip by (intro exI[of _ "[]"]) auto
  next
    case False
    define w1 where "w1 = (case pl_init p of None \<Rightarrow> w | Some ini \<Rightarrow> snd (ini w))"
    have ext: "start_loop pl ((i, p) # qs) w = start_loop pl qs w1" for qs
    proof (cases "pl_init p")
      case (Some ini)
      then have "fst (ini w) = None" using False by (cases "ini w") auto
      then show ?thesis using Some by (cases "ini w") (simp add: w1_def)
    qed (simp add: w1_def)
    then have "start_loop pl ips w1 = (Some err, w')" using Cons.prems ip by simp
    from Cons.IH[OF this] show ?thesis
      unfolding ip using ext by (metis append_Cons)
  qed
qed simp

lemma start_loop_None_indep:
  "start_loop pl ips w = (None, w') \<Longrightarrow> start_loop pl' ips w = (None, w')"
  by (induction pl ips w rule: start_loop.induct) (auto split: option.splits prod.splits)

lemma enumerate_split:
  assumes "enumerate n xs = pre @ (i, p) # post"
  shows "i = n + length pre" "length pre < length xs" "pre = enumerate n (take (length pre) xs)"
    "p = xs ! length pre"
proof -
  have l: "length pre < length xs"
    using arg_cong[OF assms, of length] by simp
  show "length pre < length xs" by (fact l)
  have "enumerate n xs ! length pre = (i, p)" using assms by simp
  then show "i = n + length pre" "p = xs ! length pre" using l by (simp_all add: nth_enumerate_eq)
  have "take (length pre) (enumerate n xs) = pre" using assms by simp
  moreover have "take (length pre) (enumerate n xs) = enumerate n (take (length pre) xs)"
    by (rule nth_equalityI) (simp_all add: nth_enumerate_eq)
  ultimately show "pre = enumerate n (take (length pre) xs)" by simp
qed

text \<open>Whether an entry touches the body, read or write.\<close>
lemma normalize_simps [simp]:
  "cap_writes_body (normalize c) = cap_writes_body c"
  "cap_reads_body (normalize c) = (cap_reads_body c \<or> cap_writes_body c)"
  by (auto simp: normalize_def)

lemma validate_caps_reader:
  "r \<noteq> '''' \<Longrightarrow> validate_caps_loop m r ps \<noteq> None"
  by (induction m r ps rule: validate_caps_loop.induct) (auto simp: Let_def)

lemma validate_caps_after_mutator:
  assumes "m \<noteq> ''''" "\<forall>p \<in> set ps. pl_name p \<noteq> ''''"
  shows "validate_caps_loop m '''' ps = None \<longleftrightarrow>
    (\<forall>p \<in> set ps. \<not> cap_writes_body (pl_capabilities p) \<and> \<not> cap_reads_body (pl_capabilities p))"
  using assms by (induction ps) (auto simp: Let_def validate_caps_reader)

lemma validate_caps_before_mutator:
  assumes "\<forall>p \<in> set ps. pl_name p \<noteq> ''''"
  shows "validate_caps_loop '''' '''' ps = None \<longleftrightarrow>
    sorted_wrt (\<lambda>p q. cap_writes_body (pl_capabilities p) \<longrightarrow>
       \<not> cap_writes_body (pl_capabilities q) \<and> \<not> cap_reads_body (pl_capabilities q)) ps"
  using assms
proof (induction ps)
  case (Cons p ps)
  have weak: "\<forall>q \<in> set qs. \<not> cap_writes_body (pl_capabilities q) \<and> \<not> cap_reads_body (pl_capabilities q)
    \<Longrightarrow> sorted_wrt (\<lambda>p q. cap_writes_body (pl_capabilities p) \<longrightarrow>
       \<not> cap_writes_body (pl_capabilities q) \<and> \<not> cap_reads_body (pl_capabilities q)) qs" for qs :: "'a plugin list"
    by (induction qs) auto
  show ?case
    using Cons validate_caps_after_mutator[of "pl_name p" ps] weak[of ps] by (auto simp: Let_def)
qed simp

lemma dispatch_request_wrap [simp]:
  "dispatch_request i (wrap_configured p raw) = dispatch_request i p"
  by (intro ext) (simp add: dispatch_request_def wrap_configured_def)

lemma run_loop_wrap:
  "run_loop ce pols (map (\<lambda>(i, p). (i, wrap_configured p (raw p))) ips) c w = run_loop ce pols ips c w"
  by (induction ce pols ips c w rule: run_loop.induct) (auto simp: Let_def split: prod.splits option.splits)

lemma run_frame_loop_no_streaming:
  assumes "\<And>p. p \<in> snd ` set ips \<Longrightarrow> pl_on_response_frame p = None"
  shows "run_frame_loop ce pols ips f l c w \<in> {(Continue, c, w), (cancelled_action, c, w)}"
  using assms by (induction ce pols ips f l c w rule: run_frame_loop.induct) (auto simp: Let_def)

lemma active_indexes_enumerate:
  "active_indexes pols (enumerate n ps) = filter (\<lambda>i. policy_at pols i \<noteq> ErrorPolicyOff) [n..<n + length ps]"
proof (induction ps arbitrary: n)
  case (Cons p ps)
  have "[n..<n + length (p # ps)] = n # [Suc n..<Suc n + length ps]"
    by (simp add: upt_conv_Cons del: upt_Suc)
  then show ?case using Cons[of "Suc n"] by simp
qed simp

lemma pass_contract: "plugin_contract (pl_on_request (pass_plugin n))"
  by unfold_locales (simp add: pass_plugin_def)

lemma gate_contract: "plugin_contract (pl_on_request (gate_plugin n))"
  by unfold_locales (simp add: gate_plugin_def deny_and_record_def)

section \<open>Properties of the dispatcher\<close>

text \<open>Claim C4.  When Run returns a rejection on a fresh request, either the
  request was cancelled and no plugin is blamed, or exactly one plugin k whose
  policy is neither off nor observe stopped it: the plugins dispatched are the
  non-off ones up to k, the derived outcome is a denial that names k, and the
  result is the same whatever plugins follow k.\<close>
theorem run_reject_attribution:
  assumes "plugin_chain (pp_plugins p)" "\<forall>q \<in> set (pp_plugins p). pl_name q \<noteq> ''''"
    and "c_rejecting_plugin c = ''''" "run ce p c w = (Reject v, c', w')"
  shows "Reject v = cancelled_action \<and> c_rejecting_plugin c' = '''' \<or>
    (\<exists>k < length (pp_plugins p).
       policy_at (pp_policies p) k \<notin> {ErrorPolicyOff, ErrorPolicyObserve} \<and>
       c_dispatched c' = c_dispatched c @ filter (\<lambda>i. policy_at (pp_policies p) i \<noteq> ErrorPolicyOff) [0..<Suc k] \<and>
       out_final_action (outcome_from_context c') = OutcomeDeny \<and>
       out_denying_plugin (outcome_from_context c') = pl_name (pp_plugins p ! k) \<and>
       (\<forall>rest. run ce (p\<lparr>pp_plugins := take (Suc k) (pp_plugins p) @ rest\<rparr>) c w = (Reject v, c', w')))"
proof -
  let ?ips = "enumerate 0 (pp_plugins p)" and ?pols = "pp_policies p"
  have "snd ` set ?ips \<subseteq> set (pp_plugins p)" by (auto simp: in_set_enumerate_eq)
  from plugin_chain.run_loop_reject[OF assms(1) this assms(4)[unfolded run_def]] show ?thesis
  proof (elim disjE exE conjE, goal_cases)
    case 1
    then show ?case using assms(3) by simp
  next
    case (2 pre i q post vo)
    note sp = enumerate_split[OF 2(1)]
    define k where "k = length pre"
    have k: "i = k" "k < length (pp_plugins p)" "q = pp_plugins p ! k" using sp by (simp_all add: k_def)
    have upto: "pre @ [(i, q)] = enumerate 0 (take (Suc k) (pp_plugins p))"
      using sp(3) k by (simp add: k_def[symmetric] take_Suc_conv_app_nth enumerate_append_eq)
    have rej: "c_rejecting_plugin c' = pl_name q" using 2(5) assms(3) by simp
    moreover have "pl_name q \<noteq> ''''" using assms(2) k by simp
    moreover have "run ce (p\<lparr>pp_plugins := take (Suc k) (pp_plugins p) @ rest\<rparr>) c w = (Reject v, c', w')" for rest
      using run_loop_append[OF 2(6)] upto by (simp add: run_def enumerate_append_eq)
    moreover have "active_indexes ?pols (pre @ [(i, q)]) =
        filter (\<lambda>i. policy_at ?pols i \<noteq> ErrorPolicyOff) [0..<Suc k]"
      unfolding upto active_indexes_enumerate using k(2) by simp
    ultimately show ?case
      using 2(2-4) k by (intro disjI2 exI[of _ k]) (simp add: outcome_from_context_def Let_def)
  qed
qed

theorem run_reject_attribution_witness:
  "policy_at [ErrorPolicyObserve, ErrorPolicyEnforce] 1 \<notin> {ErrorPolicyOff, ErrorPolicyObserve} \<and>
   (\<exists>v c'. run (\<lambda>_. False) (chain [gate_plugin ''shadow'', gate_plugin ''gate'', pass_plugin ''tail'']
       [ErrorPolicyObserve, ErrorPolicyEnforce, ErrorPolicyEnforce]) fresh_context () = (Reject v, c', ())
     \<and> out_denying_plugin (outcome_from_context c') \<in> {''shadow'', ''gate'', ''tail''})"
proof -
  let ?p = "chain [gate_plugin ''shadow'', gate_plugin ''gate'', pass_plugin ''tail'']
       [ErrorPolicyObserve, ErrorPolicyEnforce, ErrorPolicyEnforce] :: unit pipeline"
  obtain v c' where r: "run (\<lambda>_. False) ?p fresh_context () = (Reject v, c', ())"
    and nc: "Reject v \<noteq> cancelled_action"
    by (simp add: run_def chain_def gate_plugin_def pass_plugin_def dispatch_request_def settle_def
        policy_at_def policy_resolved_def deny_and_record_def Deny_def Let_def cancelled_action_def
        stamp_plugin_name_def empty_violation_def set_current_def clear_current_def fresh_context_def)
  have "plugin_chain (pp_plugins ?p)"
    by unfold_locales (auto simp: chain_def plugin_contract.keeps_framework[OF gate_contract]
        plugin_contract.keeps_framework[OF pass_contract])
  from run_reject_attribution[OF this _ _ r] nc r show ?thesis
    by (auto simp: chain_def gate_plugin_def pass_plugin_def fresh_context_def policy_at_def
        policy_resolved_def less_Suc_eq numeral_nat)
qed

lemma run_loop_shadow:
  assumes "\<And>i p. (i, p) \<in> set ips \<Longrightarrow> policy_at pols i \<in> {ErrorPolicyOff, ErrorPolicyObserve}"
    and "\<And>w. \<not> ce w"
  shows "fst (run_loop ce pols ips c w) = Continue"
  using assms(1)
proof (induction ips arbitrary: c w)
  case (Cons ip ips)
  obtain i p where ip: "ip = (i, p)" by (cases ip)
  have IH: "fst (run_loop ce pols ips c w) = Continue" for c w
    by (rule Cons.IH) (meson Cons.prems list.set_intros(2))
  obtain r c1 w1 where d: "dispatch_request i p (policy_at pols i) c w = (r, c1, w1)"
    by (metis prod_cases3)
  have pol: "policy_at pols i = ErrorPolicyOff \<or> policy_at pols i = ErrorPolicyObserve"
    using Cons.prems[of i p] ip by simp
  have "policy_at pols i = ErrorPolicyObserve \<Longrightarrow> r = None"
    using d by (auto simp: dispatch_request_def settle_def Let_def split: prod.splits action.splits)
  then show ?case using pol IH d ip assms(2)[of w] by (auto simp: Let_def)
qed simp

text \<open>Claim C23.  A pipeline whose plugins are all in shadow mode (observe) or off
  never blocks a request that is not cancelled, whatever its plugins return.\<close>
theorem run_observe_never_blocks:
  assumes "\<forall>i < length (pp_plugins p). policy_at (pp_policies p) i \<in> {ErrorPolicyOff, ErrorPolicyObserve}"
    and "\<forall>w. \<not> ce w"
  shows "fst (run ce p c w) = Continue"
  unfolding run_def using assms by (intro run_loop_shadow) (auto simp: in_set_enumerate_eq)

theorem run_observe_never_blocks_witness:
  "fst (run (\<lambda>_. False) (chain [gate_plugin ''a'', gate_plugin ''b''] [ErrorPolicyObserve, ErrorPolicyOff])
     fresh_context ()) = Continue"
  by (rule run_observe_never_blocks)
    (auto simp: chain_def policy_at_def policy_resolved_def less_Suc_eq numeral_nat)

text \<open>Claim C14.  RunFinish after Run on the same pipeline never indexes outside the
  plugin list, marks the request finished, clears the outcome, and a second
  RunFinish changes neither the context nor the world.\<close>
theorem run_then_finish_once:
  assumes "plugin_chain (pp_plugins p)"
    and "\<forall>q \<in> set (pp_plugins p). \<forall>f. pl_on_finish q = Some f \<longrightarrow>
           (\<forall>c w. framework_fields (fst (f c w)) = framework_fields c)"
    and "c_dispatched c = []" "\<not> c_in_finish c" "\<not> c_finished c" "c_outcome c = None"
    and "run ce p c w = (a, c', w')"
  shows "\<exists>c'' w''. run_finish clock p oc c' w' = Some (c'', w'') \<and> c_finished c'' \<and>
           c_outcome c'' = None \<and> \<not> c_in_finish c'' \<and>
           (\<forall>oc2. run_finish clock p oc2 c'' w'' = Some (c'', w''))"
proof -
  have members: "plugin_contract (pl_on_request q)" if "q \<in> snd ` set (enumerate 0 (pp_plugins p))" for q
    using that plugin_chain.member_contract[OF assms(1)] by (auto simp: in_set_enumerate_eq)
  have b: "set (c_dispatched c') \<subseteq> {..<length (pp_plugins p)}" "\<not> c_in_finish c'" "\<not> c_finished c'"
    "c_outcome c' = None"
    using run_loop_bound[OF members assms(7)[unfolded run_def]] assms(3-6)
    by (auto simp: in_set_enumerate_eq)
  define c1 where "c1 = c'\<lparr>c_finished := True\<rparr>"
  show ?thesis
  proof (cases "c_dispatched c' = []")
    case True
    then show ?thesis using b by (simp add: run_finish_def)
  next
    case False
    have fin: "\<exists>c2 w2. finish_loop (pp_plugins p) (rev (c_dispatched c')) (c1\<lparr>c_outcome := x\<rparr>) w' = Some (c2, w2) \<and>
      framework_fields c2 = framework_fields (c1\<lparr>c_outcome := x\<rparr>)" for x
      using assms(2) b by (intro finish_loop_total) (auto simp: c1_def)
    then show ?thesis using False b
      by (fastforce simp: run_finish_def Let_def c1_def framework_fields_def)
  qed
qed

theorem run_then_finish_once_witness:
  "\<exists>c'' w''. run_finish (\<lambda>_. 7)
      (chain [gate_plugin ''a'', pass_plugin ''b''] [ErrorPolicyObserve]) \<lparr>out_final_action = OutcomeAllow,
        out_status_code = 200, out_denying_plugin = '''', out_duration = 0\<rparr>
      (fst (snd (run (\<lambda>_. False) (chain [gate_plugin ''a'', pass_plugin ''b''] [ErrorPolicyObserve])
         fresh_context ()))) () = Some (c'', w'') \<and> c_finished c''"
proof -
  let ?p = "chain [gate_plugin ''a'', pass_plugin ''b''] [ErrorPolicyObserve] :: unit pipeline"
  have ch: "plugin_chain (pp_plugins ?p)"
    by unfold_locales (auto simp: chain_def plugin_contract.keeps_framework[OF gate_contract]
        plugin_contract.keeps_framework[OF pass_contract])
  obtain a c' where r: "run (\<lambda>_. False) ?p fresh_context () = (a, c', ())"
    by (metis old.unit.exhaust prod_cases3)
  show ?thesis
    using run_then_finish_once[OF ch _ _ _ _ _ r, of "\<lambda>_. 7"] r
    by (fastforce simp: chain_def gate_plugin_def pass_plugin_def fresh_context_def)
qed

text \<open>Claim C24.  When Start fails, the plugins before the failing one were
  initialised in order, and the resulting world is the one in which exactly
  that prefix has been stopped again in reverse order.\<close>
theorem start_failure_unwinds:
  assumes "start p w = (Some err, w')"
  shows "\<exists>k ini e w1 w2. k < length (pp_plugins p) \<and>
     start (p\<lparr>pp_plugins := take k (pp_plugins p)\<rparr>) w = (None, w1) \<and>
     pl_init (pp_plugins p ! k) = Some ini \<and> ini w1 = (Some e, w2) \<and>
     err = (pl_name (pp_plugins p ! k), e) \<and>
     w' = stop (p\<lparr>pp_plugins := take k (pp_plugins p)\<rparr>) w2"
proof -
  obtain pre i q post ini e w1 w2 where s: "enumerate 0 (pp_plugins p) = pre @ (i, q) # post"
    "start_loop p pre w = (None, w1)" "pl_init q = Some ini" "ini w1 = (Some e, w2)"
    "err = (pl_name q, e)" "w' = unwind_start p i w2"
    using start_loop_fail[OF assms[unfolded start_def]] by blast
  note sp = enumerate_split[OF s(1)]
  have "start (p\<lparr>pp_plugins := take (length pre) (pp_plugins p)\<rparr>) w = (None, w1)"
    using start_loop_None_indep[OF s(2)] sp(3) unfolding start_def by simp
  then show ?thesis
    using s(3-6) sp by (intro exI[of _ "length pre"]) (simp add: stop_def unwind_start_def)
qed

theorem start_failure_unwinds_witness:
  "\<exists>k::nat. k < 2 \<and> start (chain [(pass_plugin ''a'')\<lparr>pl_init := Some (\<lambda>w. (None, w @ [''init a''])),
          pl_shutdown := Some (\<lambda>w. (None, w @ [''stop a'']))\<rparr>,
       (pass_plugin ''b'')\<lparr>pl_init := Some (\<lambda>w. (Some ''boom'', w))\<rparr>] []) [] =
     (Some (''b'', ''boom''), [''init a'', ''stop a''])"
proof -
  let ?p = "chain [(pass_plugin ''a'')\<lparr>pl_init := Some (\<lambda>w. (None, w @ [''init a''])),
          pl_shutdown := Some (\<lambda>w. (None, w @ [''stop a'']))\<rparr>,
       (pass_plugin ''b'')\<lparr>pl_init := Some (\<lambda>w. (Some ''boom'', w))\<rparr>] []"
  have s: "start ?p [] = (Some (''b'', ''boom''), [''init a'', ''stop a''])"
    by (simp add: start_def chain_def unwind_start_def pass_plugin_def)
  from start_failure_unwinds[OF s] show ?thesis using s by (auto simp: chain_def numeral_2_eq_2)
qed

text \<open>Capability validation accepts a chain of named plugins exactly when
  no plugin after a body mutator reads or writes the body.\<close>
lemma validate_capabilities_iff:
  assumes "\<forall>p \<in> set ps. pl_name p \<noteq> ''''"
  shows "validate_capabilities ps = None \<longleftrightarrow>
    (\<forall>i j. i < j \<longrightarrow> j < length ps \<longrightarrow> cap_writes_body (pl_capabilities (ps ! i)) \<longrightarrow>
       \<not> cap_writes_body (pl_capabilities (ps ! j)) \<and> \<not> cap_reads_body (pl_capabilities (ps ! j)))"
  unfolding validate_capabilities_def validate_caps_before_mutator[OF assms] sorted_wrt_iff_nth_less
  by blast

lemma validate_capabilities_iff_witness:
  "validate_capabilities [(pass_plugin ''r'')\<lparr>pl_capabilities := no_capabilities\<lparr>cap_reads_body := True\<rparr>\<rparr>,
     (pass_plugin ''m'')\<lparr>pl_capabilities := no_capabilities\<lparr>cap_writes_body := True\<rparr>\<rparr>] = None"
  by (subst validate_capabilities_iff)
    (auto simp: pass_plugin_def no_capabilities_def less_Suc_eq numeral_2_eq_2)

text \<open>Wrapping every plugin with its raw configuration changes nothing
  for Run, but the wrapped pipeline has no streaming responder left: stream
  frames reach no plugin at all, even when the plugins inside implement
  OnResponseFrame.\<close>
lemma wrap_configured_loses_frames:
  "run ce (wrap_all raw p) c w = run ce p c w \<and> \<not> has_streaming_responders (wrap_all raw p) \<and>
   run_response_frame ce (wrap_all raw p) frame is_last c w \<in> {(Continue, c, w), (cancelled_action, c, w)}"
proof -
  have en: "enumerate 0 (pp_plugins (wrap_all raw p)) =
      map (\<lambda>(i, x). (i, wrap_configured x (raw x))) (enumerate 0 (pp_plugins p))"
    by (rule nth_equalityI) (simp_all add: wrap_all_def nth_enumerate_eq)
  have "run ce (wrap_all raw p) c w = run ce p c w"
    unfolding run_def en run_loop_wrap by (simp add: wrap_all_def)
  moreover have "\<not> has_streaming_responders (wrap_all raw p)"
    by (simp add: has_streaming_responders_def wrap_all_def wrap_configured_def list_ex_iff)
  moreover have "run_response_frame ce (wrap_all raw p) frame is_last c w
      \<in> {(Continue, c, w), (cancelled_action, c, w)}"
    unfolding run_response_frame_def en
    by (rule run_frame_loop_no_streaming) (auto simp: wrap_configured_def)
  ultimately show ?thesis by blast
qed

text \<open>A hot reload between Run and RunFinish on the same holder can
  panic: the indexes dispatched by the old pipeline are looked up in the new,
  shorter one.\<close>
lemma holder_reload_breaks_finish:
  "\<exists>(old :: unit pipeline) new c' w'.
     holder_run (\<lambda>_. False) \<lparr>h_pipeline = old\<rparr> fresh_context () = (Continue, c', w') \<and>
     holder_run_finish (\<lambda>_. 0) \<lparr>h_pipeline = old\<rparr> (outcome_from_context c') c' w' \<noteq> None \<and>
     holder_run_finish (\<lambda>_. 0) (holder_store new \<lparr>h_pipeline = old\<rparr>) (outcome_from_context c') c' w' = None"
  by (rule exI[of _ "chain [pass_plugin ''a'', pass_plugin ''b''] []"],
      rule exI[of _ "chain [pass_plugin ''a''] []"])
    (simp add: holder_run_def holder_run_finish_def holder_store_def run_def chain_def pass_plugin_def
      dispatch_request_def settle_def policy_at_def Let_def run_finish_def set_current_def
      clear_current_def fresh_context_def)

text \<open>Under observe a gate that records its denial, then a further
  record, and rejects leaves the denial unmarked: the request passes, yet the
  derived outcome is a denial by the shadowed plugin.\<close>
lemma shadow_deny_counted_as_denial:
  "case run (\<lambda>_. False) (chain [chatty_gate ''gate''] [ErrorPolicyObserve])
     (fresh_context\<lparr>c_status_code := 200\<rparr>) () of
     (a, c', _) \<Rightarrow> a = Continue \<and> out_final_action (outcome_from_context c') = OutcomeDeny"
  by (simp add: chatty_gate_def run_def chain_def pass_plugin_def dispatch_request_def settle_def policy_at_def
      policy_resolved_def Let_def deny_and_record_def Deny_def ctx_observe_def record_invocation_def
      append_invocation_def invocations_of_def mk_invocation_def mark_shadow_and_log_def
      mark_last_invocation_shadow_def shadow_last_def find_last_def set_current_def clear_current_def
      fresh_context_def outcome_from_context_def last_denying_plugin_def deny_in_def)

subsection \<open>The first plugin of a chain\<close>

lemma request_context_frame [simp]:
  "c_headers (request_context i q po c) = c_headers c" "c_path (request_context i q po c) = c_path c"
  "c_host (request_context i q po c) = c_host c" "c_identity (request_context i q po c) = c_identity c"
  "c_shared (request_context i q po c) = c_shared c" "c_body (request_context i q po c) = c_body c"
  by (simp_all add: request_context_def set_current_def Let_def)

lemma clear_current_headers [simp]: "c_headers (clear_current c) = c_headers c"
  by (simp add: clear_current_def)

lemma dispatch_request_enforced:
  assumes "dispatch_request i q po c w = (None, c', w')" "po \<noteq> ErrorPolicyObserve"
  shows "\<exists>c3. pl_on_request q (request_context i q po c) w = (Continue, c3, w') \<and> c' = clear_current c3"
  using assms by (auto simp: dispatch_request_def request_context_def settle_def Let_def split: prod.splits action.splits if_splits)

lemma run_first_enforced:
  assumes "run ce p c w = (Continue, c', w')" "pp_plugins p = q # qs" "policy_at (pp_policies p) 0 = ErrorPolicyEnforce"
  shows "\<exists>c3 w3. pl_on_request q (request_context 0 q ErrorPolicyEnforce c) w = (Continue, c3, w3) \<and>
     run_loop ce (pp_policies p) (enumerate 1 qs) (clear_current c3) w3 = (Continue, c', w')"
proof -
  have e: "enumerate 0 (q # qs) = (0, q) # enumerate 1 qs" by simp
  obtain r c1 w1 where d: "dispatch_request 0 q ErrorPolicyEnforce c w = (r, c1, w1)" by (metis prod_cases3)
  have ne: "ErrorPolicyEnforce \<noteq> ErrorPolicyOff" "ErrorPolicyEnforce \<noteq> ErrorPolicyObserve" by simp_all
  have rl: "run_loop ce (pp_policies p) ((0, q) # enumerate 1 qs) c w = (Continue, c', w')"
    using assms(1) unfolding run_def assms(2) e .
  then have "r = None"
    using assms(3) d ne settle_Some(1)
    by (cases r) (auto simp: dispatch_request_def cancelled_action_def Deny_def Let_def split: if_splits prod.splits, fastforce)
  then show ?thesis
    using dispatch_request_enforced [of 0 q ErrorPolicyEnforce c w c1 w1] d ne rl assms(3)
    by (auto simp: cancelled_action_def Deny_def Let_def split: if_splits)
qed

text \<open>What no plugin of a chain changes about the headers, the chain does not change.\<close>
lemma run_loop_header:
  assumes "\<And>q c w. q \<in> snd ` set ips \<Longrightarrow> h (c_headers (fst (snd (pl_on_request q c w)))) = h (c_headers c)"
    and "run_loop ce pols ips c w = (a, c', w')"
  shows "h (c_headers c') = h (c_headers c)"
  using assms
proof (induction ce pols ips c w rule: run_loop.induct)
  case (2 ce pols i p ps c w)
  obtain r c1 w1 where d: "dispatch_request i p (policy_at pols i) c w = (r, c1, w1)" by (metis prod_cases3)
  have m: "c_headers (mark_shadow_and_log n ph v x) = c_headers x" for n ph v x
    by (auto simp: mark_shadow_and_log_def mark_last_invocation_shadow_def record_invocation_def append_invocation_def Let_def
        split: option.splits prod.splits if_splits)
  have "h (c_headers c1) = h (c_headers c)"
    using 2(3) [of p "request_context i p (policy_at pols i) c" w] d
    by (auto simp: dispatch_request_def request_context_def set_current_def settle_def set_rejecting_plugin_def m Let_def
        split: prod.splits action.splits if_splits)
  then show ?case using 2 d by (auto simp: Let_def split: if_splits option.splits)
qed simp

end
