(* ===== verification/Sse_Frame.thy ===== *)
theory Sse_Frame
  imports Go_Prelude
begin

text \<open>
  The reader of server-sent events (\<^verbatim>\<open>authlib/listener/internal/sseframe/reader.go\<close>) and
  the loop with which both proxies write a frame back
  (\<^verbatim>\<open>writeSSEFrame\<close> of the forward proxy, the end of \<^verbatim>\<open>streamingResponseBody.Read\<close> of
  the reverse proxy).

  A stream is the bytes that it delivers and the way it ends.  The reader holds
  its position as the rest of the bytes.
\<close>

section \<open>Reading\<close>

abbreviation LF :: char where "LF \<equiv> CHR 0x0A"
abbreviation CR :: char where "CR \<equiv> CHR 0x0D"

datatype stream_end = StreamEOF | StreamErr string

datatype frame_error = FrameTooLarge | FrameReadError string

datatype line_result = LineOk bytes bytes | LineEOF | LineErr frame_error

fun read_line :: "nat \<Rightarrow> stream_end \<Rightarrow> bytes \<Rightarrow> bytes \<Rightarrow> line_result" where
  "read_line m e line [] =
     (case e of
        StreamEOF \<Rightarrow> if line \<noteq> [] then LineOk line [] else LineEOF
      | StreamErr x \<Rightarrow> LineErr (FrameReadError x))"
| "read_line m e line (b # bs) =
     (if b = LF then LineOk line bs
      else if b = CR then LineOk line (case bs of c # cs \<Rightarrow> if c = LF then cs else bs | [] \<Rightarrow> [])
      else if length line + 1 > m then LineErr FrameTooLarge
      else read_line m e (line @ [b]) bs)"

definition split_field :: "bytes \<Rightarrow> bytes \<times> bytes" where
  "split_field line =
     (case index_byte (CHR '':'') line of
        None \<Rightarrow> (line, [])
      | Some i \<Rightarrow>
          (let value = drop (Suc i) line
           in (take i line, case value of v # vs \<Rightarrow> if v = CHR '' '' then vs else value | [] \<Rightarrow> [])))"

definition append_scratch :: "nat \<Rightarrow> bytes \<Rightarrow> bytes \<Rightarrow> bytes option" where
  "append_scratch m scratch b = (if length scratch + length b > m then None else Some (scratch @ b))"

datatype frame_result = FrameOk bytes bytes | FrameEOF | FrameErr frame_error

text \<open>\<^verbatim>\<open>ReadFrame\<close> with its local state: whether a data line was seen, and the scratch buffer.\<close>
function read_frame :: "nat \<Rightarrow> stream_end \<Rightarrow> bool \<Rightarrow> bytes \<Rightarrow> bytes \<Rightarrow> frame_result" where
  "read_frame m e has_data scratch s =
     (case read_line m e [] s of
        LineEOF \<Rightarrow> if has_data then FrameOk scratch [] else FrameEOF
      | LineErr x \<Rightarrow> FrameErr x
      | LineOk line rest \<Rightarrow>
          if line = [] then (if has_data then FrameOk scratch rest else read_frame m e has_data scratch rest)
          else if hd line = CHR '':'' then read_frame m e has_data scratch rest
          else if fst (split_field line) \<noteq> ''data'' then read_frame m e has_data scratch rest
          else case (if has_data then append_scratch m scratch [LF] else Some scratch) of
                 None \<Rightarrow> FrameErr FrameTooLarge
               | Some s1 \<Rightarrow>
                   (case append_scratch m s1 (snd (split_field line)) of
                      None \<Rightarrow> FrameErr FrameTooLarge
                    | Some s2 \<Rightarrow> read_frame m e True s2 rest))"
  by pat_completeness auto
termination
proof -
  have "length rest < length s" if "read_line m e [] s = LineOk l rest" for m e s l rest
  proof -
    have "read_line m e line s = LineOk l rest \<Longrightarrow> length rest \<le> length s \<and> (s = [] \<longrightarrow> line \<noteq> []) \<and> (s \<noteq> [] \<longrightarrow> length rest < length s)" for line
      by (induction m e line s rule: read_line.induct) (auto split: stream_end.splits if_splits list.splits)
    then show ?thesis using that by force
  qed
  then show ?thesis
    by (relation "measure (\<lambda>(m, e, h, sc, s). length s)") auto
qed

declare read_frame.simps [simp del]

text \<open>The frames of a whole stream, and the error that ended it, if any.\<close>
function read_frames :: "nat \<Rightarrow> stream_end \<Rightarrow> bytes \<Rightarrow> bytes list \<times> frame_error option" where
  "read_frames m e s =
     (case read_frame m e False [] s of
        FrameEOF \<Rightarrow> ([], None)
      | FrameErr x \<Rightarrow> ([], Some x)
      | FrameOk f rest \<Rightarrow> (case read_frames m e rest of (fs, x) \<Rightarrow> (f # fs, x)))"
  by pat_completeness auto
termination
proof -
  have l: "length rest < length s" if "read_line m e [] s = LineOk l rest" for m e s l rest
  proof -
    have "read_line m e line s = LineOk l rest \<Longrightarrow> length rest \<le> length s \<and> (s = [] \<longrightarrow> line \<noteq> []) \<and> (s \<noteq> [] \<longrightarrow> length rest < length s)" for line
      by (induction m e line s rule: read_line.induct) (auto split: stream_end.splits if_splits list.splits)
    then show ?thesis using that by force
  qed
  have "read_frame m e h sc s = FrameOk f rest \<Longrightarrow> length rest \<le> length s \<and> (s = [] \<longrightarrow> h) \<and> (s \<noteq> [] \<longrightarrow> length rest < length s)" for m e h sc s f rest
  proof (induction s arbitrary: h sc rule: length_induct)
    case (1 s)
    show ?case
    proof (cases "read_line m e [] s")
      case (LineOk line r)
      then have r: "s \<noteq> []" "length r < length s" using l by fastforce+
      have "rest = r \<or> (\<exists>h' sc'. read_frame m e h' sc' r = FrameOk f rest)"
        using 1(2) unfolding read_frame.simps [of m e h sc s] LineOk line_result.case by (auto split: if_splits option.splits)
      then have "length rest \<le> length r" using 1(1) r(2) by blast
      then show ?thesis using r by simp
    qed (use 1(2) in \<open>auto simp: read_frame.simps [of m e h sc s] split: if_splits\<close>)
  qed
  then show ?thesis
    by (relation "measure (\<lambda>(m, e, s). length s)") fastforce+
qed

declare read_frames.simps [simp del]

definition DefaultMaxFrameSize :: nat where
  "DefaultMaxFrameSize = 2 ^ 20"

definition new_reader_size :: "int \<Rightarrow> nat" where
  "new_reader_size max_size = (if max_size \<le> 0 then DefaultMaxFrameSize else nat max_size)"

section \<open>Writing\<close>

text \<open>The lines of a frame as the writing loop cuts them: it stops when nothing is left.\<close>
function frame_lines :: "bytes \<Rightarrow> bytes list" where
  "frame_lines frame =
     (if frame = [] then []
      else case index_byte LF frame of
             None \<Rightarrow> [frame]
           | Some nl \<Rightarrow> take nl frame # frame_lines (drop (Suc nl) frame))"
  by pat_completeness auto
termination by (relation "measure length") auto

declare frame_lines.simps [simp del]

definition write_sse_frame :: "bytes \<Rightarrow> bytes" where
  "write_sse_frame frame = concat (map (\<lambda>l. ''data: '' @ l @ [LF]) (frame_lines frame)) @ [LF]"

section \<open>Specification and sample inputs\<close>

definition relayable :: "nat \<Rightarrow> bytes \<Rightarrow> bool" where
  "relayable m f \<longleftrightarrow> f \<noteq> [] \<and> last f \<noteq> LF \<and> CR \<notin> set f \<and> length f + 6 \<le> m"

text \<open>A comment, an event of two data lines, a field that is skipped, and an event without a final blank line.\<close>
definition sample_stream :: bytes where
  "sample_stream = '':hi'' @ [CR, LF] @ ''data: a'' @ [LF] @ ''data:b'' @ [LF, LF] @ ''id: 1'' @ [CR] @ ''data: c''"

section \<open>Lemmas\<close>

subsection \<open>What the reader delivers\<close>

lemma read_line_clean:
  "read_line m e line s = LineOk l rest \<Longrightarrow> set line \<inter> {LF, CR} = {} \<Longrightarrow> set l \<inter> {LF, CR} = {}"
  by (induction m e line s rule: read_line.induct) (auto split: stream_end.splits if_splits list.splits)

lemma read_line_shorter: "read_line m e [] s = LineOk l rest \<Longrightarrow> length rest < length s"
proof -
  have "read_line m e line s = LineOk l rest \<Longrightarrow> (s = [] \<longrightarrow> line \<noteq> []) \<and> (s \<noteq> [] \<longrightarrow> length rest < length s)" for line
    by (induction m e line s rule: read_line.induct) (force split: stream_end.splits if_splits list.splits)+
  then show "read_line m e [] s = LineOk l rest \<Longrightarrow> length rest < length s" by force
qed

lemma read_frame_shorter: "read_frame m e False [] s = FrameOk f rest \<Longrightarrow> length rest < length s"
proof -
  have "read_frame m e h sc s = FrameOk f rest \<Longrightarrow> (s = [] \<longrightarrow> h) \<and> (s \<noteq> [] \<longrightarrow> length rest < length s) \<and> length rest \<le> length s" for h sc
  proof (induction s arbitrary: h sc rule: length_induct)
    case (1 s)
    show ?case
    proof (cases "read_line m e [] s")
      case (LineOk line r)
      then have r: "s \<noteq> []" "length r < length s" using read_line_shorter by fastforce+
      have "rest = r \<or> (\<exists>h' sc'. read_frame m e h' sc' r = FrameOk f rest)"
        using 1(2) unfolding read_frame.simps [of m e h sc s] LineOk line_result.case by (auto split: if_splits option.splits)
      then have "length rest \<le> length r" using 1(1) r(2) by blast
      then show ?thesis using r by simp
    qed (use 1(2) in \<open>auto simp: read_frame.simps [of m e h sc s] split: if_splits\<close>)
  qed
  then show "read_frame m e False [] s = FrameOk f rest \<Longrightarrow> length rest < length s" by blast
qed

lemma set_split_field: "set (snd (split_field line)) \<subseteq> set line"
  by (auto simp: split_field_def Let_def split: option.splits list.splits if_splits dest: in_set_dropD)
    (metis in_set_dropD list.set_intros(2))+

text \<open>A frame holds no carriage return and is within the cap.\<close>
lemma read_frame_ok:
  "read_frame m e h sc s = FrameOk f rest \<Longrightarrow> CR \<notin> set sc \<Longrightarrow> length sc \<le> m \<Longrightarrow> CR \<notin> set f \<and> length f \<le> m"
proof (induction s arbitrary: h sc rule: length_induct)
  case (1 s)
  show ?case
  proof (cases "read_line m e [] s")
    case (LineOk line r)
    have c: "CR \<notin> set (snd (split_field line))" using read_line_clean [OF LineOk] set_split_field by fastforce
    have "length r < length s" using read_line_shorter [OF LineOk] by simp
    moreover have "f = sc \<or> (\<exists>h' sc'. read_frame m e h' sc' r = FrameOk f rest \<and> CR \<notin> set sc' \<and> length sc' \<le> m)"
      using 1(2-) c unfolding read_frame.simps [of m e h sc s] LineOk line_result.case append_scratch_def
      by (fastforce split: if_splits option.splits)
    ultimately show ?thesis using 1(1,3,4) by blast
  qed (use 1(2-) in \<open>auto simp: read_frame.simps [of m e h sc s] split: if_splits\<close>)
qed

subsection \<open>Reading back\<close>

lemma read_line_plain:
  "set l \<inter> {LF, CR} = {} \<Longrightarrow> length line + length l \<le> m \<Longrightarrow> read_line m e line (l @ LF # rest) = LineOk (line @ l) rest"
  by (induction l arbitrary: line) auto

lemma split_field_data: "split_field (''data: '' @ l) = (''data'', l)"
  by (simp add: split_field_def index_byte_def)

lemma read_data_line:
  assumes "set l \<inter> {LF, CR} = {}" "length l + 6 \<le> m"
  shows "read_line m e [] (''data: '' @ l @ LF # rest) = LineOk (''data: '' @ l) rest"
  using read_line_plain [of "''data: '' @ l" "[]" m e rest] assms by simp

lemma read_frame_data:
  assumes "set l \<inter> {LF, CR} = {}" "length l + 6 \<le> m" "length sc + (if h then 1 else 0) + length l \<le> m"
  shows "read_frame m e h sc (''data: '' @ l @ LF # rest) = read_frame m e True (sc @ (if h then LF # l else l)) rest"
  using assms by (cases h; subst read_frame.simps) (simp_all add: read_line_plain split_field_data [simplified] append_scratch_def)

lemma read_frame_blank: "read_frame m e True sc (LF # rest) = FrameOk sc rest"
  by (simp add: read_frame.simps)

lemma read_frame_more:
  assumes "\<forall>l \<in> set ls. set l \<inter> {LF, CR} = {} \<and> length l + 6 \<le> m"
    and "length (sc @ concat (map (Cons LF) ls)) \<le> m"
  shows "read_frame m e True sc (concat (map (\<lambda>l. ''data: '' @ l @ [LF]) ls) @ LF # rest) = FrameOk (sc @ concat (map (Cons LF) ls)) rest"
  using assms
proof (induction ls arbitrary: sc)
  case (Cons l ls)
  then show ?case using read_frame_data [of l m sc True e "concat (map (\<lambda>l. ''data: '' @ l @ [LF]) ls) @ LF # rest"] by simp
qed (simp add: read_frame_blank)

lemma read_frame_lines:
  assumes "\<forall>l \<in> set (l # ls). set l \<inter> {LF, CR} = {} \<and> length l + 6 \<le> m"
    and "length (l @ concat (map (Cons LF) ls)) \<le> m"
  shows "read_frame m e False [] (concat (map (\<lambda>l. ''data: '' @ l @ [LF]) (l # ls)) @ LF # rest) = FrameOk (l @ concat (map (Cons LF) ls)) rest"
  using read_frame_data [of l m "[]" False e "concat (map (\<lambda>l. ''data: '' @ l @ [LF]) ls) @ LF # rest"]
    read_frame_more [of ls m l e rest] assms by simp

text \<open>The lines of a frame that does not end with a line feed make up the frame.\<close>
lemma frame_lines_join:
  "f \<noteq> [] \<Longrightarrow> last f \<noteq> LF \<Longrightarrow> \<exists>l ls. frame_lines f = l # ls \<and> f = l @ concat (map (Cons LF) ls)"
proof (induction f rule: frame_lines.induct)
  case (1 f)
  show ?case
  proof (cases "index_byte LF f")
    case None
    then show ?thesis using 1(2) by (simp add: frame_lines.simps [of f])
  next
    case (Some n)
    then have n: "n < length f" "f ! n = LF" using index_from_Some [of 0 LF f n] by (auto simp: index_byte_def)
    have d: "drop (Suc n) f \<noteq> []" using n 1(3) by (metis append.right_neutral append_take_drop_id last_snoc take_Suc_conv_app_nth)
    then obtain l ls where ls: "frame_lines (drop (Suc n) f) = l # ls" "drop (Suc n) f = l @ concat (map (Cons LF) ls)"
      using 1(1) [OF 1(2) Some] 1(3) by (auto simp: last_drop)
    have "f = take n f @ LF # drop (Suc n) f" using n by (metis id_take_nth_drop)
    then show ?thesis using ls Some 1(2) by (intro exI [of _ "take n f"] exI [of _ "l # ls"]) (simp add: frame_lines.simps [of f])
  qed
qed

lemma frame_lines_no_LF: "l \<in> set (frame_lines f) \<Longrightarrow> LF \<notin> set l \<and> set l \<subseteq> set f \<and> length l \<le> length f"
proof (induction f rule: frame_lines.induct)
  case (1 f)
  show ?case
  proof (cases "index_byte LF f")
    case None
    then have "LF \<notin> set f" by (simp add: index_byte_def)
    then show ?thesis using 1(2) None by (auto simp: frame_lines.simps [of f] split: if_splits)
  next
    case (Some n)
    then have n: "n < length f" "LF \<notin> set (take n f)" using index_from_Some [of 0 LF f n] by (auto simp: index_byte_def)
    have "l = take n f \<or> l \<in> set (frame_lines (drop (Suc n) f))" "f \<noteq> []"
      using 1(2) Some by (auto simp: frame_lines.simps [of f] split: if_splits)
    then show ?thesis using 1(1) [OF _ Some] n set_take_subset [of n f] set_drop_subset [of "Suc n" f] by auto
  qed
qed

lemma read_written_frame:
  assumes "relayable m f"
  shows "read_frame m e False [] (write_sse_frame f @ rest) = FrameOk f rest"
proof -
  obtain l ls where ls: "frame_lines f = l # ls" "f = l @ concat (map (Cons LF) ls)"
    using frame_lines_join [of f] assms unfolding relayable_def by blast
  have "\<forall>l \<in> set (l # ls). set l \<inter> {LF, CR} = {} \<and> length l + 6 \<le> m"
    using frame_lines_no_LF [of _ f] assms unfolding ls(1) relayable_def by fastforce
  then show ?thesis
    using read_frame_lines [of l ls m e rest] ls assms by (simp add: write_sse_frame_def relayable_def)
qed

lemma read_frames_ok: "read_frames m e s = (fs, x) \<Longrightarrow> \<forall>f \<in> set fs. CR \<notin> set f \<and> length f \<le> m"
proof (induction m e s arbitrary: fs x rule: read_frames.induct)
  case (1 m e s)
  show ?case
  proof (cases "read_frame m e False [] s")
    case (FrameOk f rest)
    then obtain gs where "fs = f # gs" "read_frames m e rest = (gs, x)"
      using 1(2) by (auto simp: read_frames.simps [of m e s] split: prod.splits)
    then show ?thesis using 1(1) [OF FrameOk] read_frame_ok [OF FrameOk] by auto
  qed (use 1(2) in \<open>auto simp: read_frames.simps [of m e s]\<close>)
qed

lemma read_written_frames:
  "\<forall>f \<in> set fs. relayable m f \<Longrightarrow> read_frames m StreamEOF (concat (map write_sse_frame fs)) = (fs, None)"
proof (induction fs)
  case (Cons f fs)
  then show ?case
    by (simp add: read_frames.simps [of m StreamEOF "write_sse_frame f @ concat (map write_sse_frame fs)"] read_written_frame)
qed (simp add: read_frames.simps read_frame.simps)

text \<open>Claim C38. Relaying server-sent events is faithful: whatever the upstream sends and however its stream ends, every
  frame the proxy delivers to the plugins is within the cap, and a client that decodes the bytes the proxy writes
  gets back exactly these frames, in order, as long as none of them is empty or ends with an empty line.\<close>
theorem sse_relay_roundtrip:
  assumes "read_frames m e s = (fs, x)" "\<forall>f \<in> set fs. f \<noteq> [] \<and> last f \<noteq> LF"
  shows "(\<forall>f \<in> set fs. length f \<le> m) \<and> read_frames (m + 6) StreamEOF (concat (map write_sse_frame fs)) = (fs, None)"
proof -
  have "\<forall>f \<in> set fs. relayable (m + 6) f" using read_frames_ok [OF assms(1)] assms(2) by (auto simp: relayable_def)
  then show ?thesis using read_written_frames read_frames_ok [OF assms(1)] by auto
qed

lemma sample_stream_frames: "read_frames 9 StreamEOF sample_stream = ([''a'' @ LF # ''b'', ''c''], None)"
  by code_simp

theorem sse_relay_roundtrip_witness:
  "read_frames 15 StreamEOF (concat (map write_sse_frame [''a'' @ LF # ''b'', ''c''])) = ([''a'' @ LF # ''b'', ''c''], None)"
  using sse_relay_roundtrip [OF sample_stream_frames] by simp

text \<open>The case that is excluded: an event whose last data line is empty loses that line on the way.\<close>
lemma sse_trailing_line_lost:
  "read_frames 9 StreamEOF (''data: a'' @ [LF] @ ''data:'' @ [LF, LF]) = ([''a'' @ [LF]], None)"
  "read_frames 9 StreamEOF (write_sse_frame (''a'' @ [LF])) = ([''a''], None)"
  by code_simp+

text \<open>An event with one empty data line is delivered as an empty frame, and disappears.\<close>
lemma sse_empty_event_lost:
  "read_frames 9 StreamEOF (''data:'' @ [LF, LF]) = ([[]], None)"
  "read_frames 9 StreamEOF (write_sse_frame []) = ([], None)"
  by code_simp+

end
