(* ===== verification/Host_Match.thy ===== *)
theory Host_Match
  imports Go_Prelude
begin

text \<open>
  Matching of hosts and paths: the router of the token exchange
  (\<^verbatim>\<open>authlib/routing\<close>), the skip list of the listeners
  (\<^verbatim>\<open>authlib/listener/skiphost\<close>), the path bypass of the inbound validation
  (\<^verbatim>\<open>authlib/bypass\<close>) and the parts of \<^verbatim>\<open>net\<close> and \<^verbatim>\<open>path\<close> they use.

  Host patterns are compiled by a third-party glob library; its compiler is the
  argument \<^verbatim>\<open>compile\<close>, None for an invalid pattern.  Path patterns are those of
  \<^verbatim>\<open>path.Match\<close>, modelled here on one-byte characters.
\<close>

section \<open>Hosts and ports\<close>

text \<open>\<^verbatim>\<open>net.SplitHostPort\<close>: the host and the port, None for every error.\<close>
definition split_host_port :: "string \<Rightarrow> (string \<times> string) option" where
  "split_host_port s =
     (case last_index_byte (CHR '':'') s of
        None \<Rightarrow> None
      | Some i \<Rightarrow>
          if s \<noteq> [] \<and> hd s = CHR ''['' then
            (case index_byte (CHR '']'') s of
               None \<Rightarrow> None
             | Some e \<Rightarrow>
                 if Suc e \<noteq> i then None
                 else if CHR ''['' \<in> set (drop 1 s) \<or> CHR '']'' \<in> set (drop (Suc e) s) then None
                 else Some (drop 1 (take e s), drop (Suc i) s))
          else if CHR '':'' \<in> set (take i s) \<or> CHR ''['' \<in> set s \<or> CHR '']'' \<in> set s then None
          else Some (take i s, drop (Suc i) s))"

definition strip_port :: "string \<Rightarrow> string" where
  "strip_port host = (case split_host_port host of Some (h, _) \<Rightarrow> h | None \<Rightarrow> host)"

definition before_char :: "char \<Rightarrow> string \<Rightarrow> string" where
  "before_char c s = takeWhile (\<lambda>x. x \<noteq> c) s"

definition service_name_from_host :: "string \<Rightarrow> string" where
  "service_name_from_host host = before_char (CHR ''.'') (before_char (CHR '':'') host)"

section \<open>The router\<close>

type_synonym glob = "string \<Rightarrow> bool"

record route =
  rt_host :: string
  rt_audience :: string
  rt_scopes :: string
  rt_token_endpoint :: string
  rt_action :: string

record resolved_route =
  rr_matched :: bool
  rr_audience :: string
  rr_scopes :: string
  rr_token_endpoint :: string
  rr_passthrough :: bool

record router =
  ro_routes :: "(glob \<times> route) list"
  ro_default_action :: string

fun compile_routes :: "(string \<Rightarrow> glob option) \<Rightarrow> route list \<Rightarrow> string + (glob \<times> route) list" where
  "compile_routes compile [] = Inr []"
| "compile_routes compile (r # rs) =
     (case compile (rt_host r) of
        None \<Rightarrow> Inl (rt_host r)
      | Some g \<Rightarrow> (case compile_routes compile rs of Inl e \<Rightarrow> Inl e | Inr l \<Rightarrow> Inr ((g, r) # l)))"

text \<open>\<^verbatim>\<open>NewRouter\<close>; the error carries the invalid pattern.\<close>
definition new_router :: "(string \<Rightarrow> glob option) \<Rightarrow> string \<Rightarrow> route list \<Rightarrow> string + router" where
  "new_router compile default_action rules =
     (case compile_routes compile rules of
        Inl e \<Rightarrow> Inl e
      | Inr l \<Rightarrow> Inr \<lparr>ro_routes = l,
                      ro_default_action = (if default_action = '''' then ''passthrough'' else default_action)\<rparr>)"

definition resolved_of :: "route \<Rightarrow> resolved_route" where
  "resolved_of r = \<lparr>rr_matched = True, rr_audience = rt_audience r, rr_scopes = rt_scopes r,
     rr_token_endpoint = rt_token_endpoint r,
     rr_passthrough = ((if rt_action r = '''' then ''exchange'' else rt_action r) = ''passthrough'')\<rparr>"

fun first_route :: "(glob \<times> route) list \<Rightarrow> string \<Rightarrow> route option" where
  "first_route [] host = None"
| "first_route ((g, r) # rs) host = (if g host then Some r else first_route rs host)"

definition resolve :: "router \<Rightarrow> string \<Rightarrow> resolved_route option" where
  "resolve ro host =
     (case first_route (ro_routes ro) (strip_port host) of
        Some r \<Rightarrow> Some (resolved_of r)
      | None \<Rightarrow>
          if ro_default_action ro = ''exchange''
          then Some \<lparr>rr_matched = False, rr_audience = '''', rr_scopes = '''', rr_token_endpoint = '''',
                     rr_passthrough = False\<rparr>
          else None)"

section \<open>The skip list\<close>

datatype skip_error = EmptyPattern | MatchesEverything string | PatternWithPort string | InvalidPattern string

fun new_skip_matcher :: "(string \<Rightarrow> glob option) \<Rightarrow> string list \<Rightarrow> skip_error + (string \<times> glob) list" where
  "new_skip_matcher compile [] = Inr []"
| "new_skip_matcher compile (p # ps) =
     (let trimmed = trim_space p in
      if trimmed = '''' then Inl EmptyPattern
      else if trimmed = ''*'' \<or> trimmed = ''**'' then Inl (MatchesEverything p)
      else if contains_sub p '':'' then Inl (PatternWithPort p)
      else case compile p of
             None \<Rightarrow> Inl (InvalidPattern p)
           | Some g \<Rightarrow> (case new_skip_matcher compile ps of Inl e \<Rightarrow> Inl e | Inr l \<Rightarrow> Inr ((p, g) # l)))"

text \<open>\<^verbatim>\<open>MatchPattern\<close>; a nil matcher is the empty list.\<close>
definition match_pattern :: "(string \<times> glob) list \<Rightarrow> string \<Rightarrow> string option" where
  "match_pattern m host =
     (if m = [] \<or> host = '''' then None
      else map_option fst (find (\<lambda>(p, g). g (strip_port host)) m))"

definition skip_match :: "(string \<times> glob) list \<Rightarrow> string \<Rightarrow> bool" where
  "skip_match m host = (match_pattern m host \<noteq> None)"

section \<open>Paths\<close>

text \<open>\<^verbatim>\<open>path.Clean\<close>: empty and dot elements go, a dot-dot element takes the one
  before it away or is dropped at the root.\<close>
fun clean_parts :: "bool \<Rightarrow> string list \<Rightarrow> string list \<Rightarrow> string list" where
  "clean_parts rooted acc [] = rev acc"
| "clean_parts rooted acc (p # ps) =
     (if p = '''' \<or> p = ''.'' then clean_parts rooted acc ps
      else if p = ''..'' then
        (if acc \<noteq> [] \<and> hd acc \<noteq> ''..'' then clean_parts rooted (tl acc) ps
         else if rooted then clean_parts rooted acc ps
         else clean_parts rooted (p # acc) ps)
      else clean_parts rooted (p # acc) ps)"

definition path_clean :: "string \<Rightarrow> string" where
  "path_clean s =
     (let rooted = has_prefix s ''/'';
          out = (if rooted then ''/'' else '''') @ join_with ''/'' (clean_parts rooted [] (split_on (CHR ''/'') s))
      in if out = '''' then ''.'' else out)"

text \<open>The tokens of a path pattern.\<close>
datatype ptok = PStar | PAny | PLit char | PClass bool "(char \<times> char) list"

text \<open>One character of a class, escaped or not, with the rest of the pattern.\<close>
fun get_esc :: "string \<Rightarrow> (char \<times> string) option" where
  "get_esc [] = None"
| "get_esc (c # cs) =
     (if c = CHR ''-'' \<or> c = CHR '']'' then None
      else if c = CHR 0x5C then (case cs of [] \<Rightarrow> None | d # ds \<Rightarrow> if ds = [] then None else Some (d, ds))
      else if cs = [] then None else Some (c, cs))"

lemma get_esc_shorter: "get_esc s = Some (c, r) \<Longrightarrow> length r < length s"
  by (cases s) (auto split: if_splits list.splits)

text \<open>The ranges of a class up to the closing bracket.\<close>
function parse_class :: "(char \<times> char) list \<Rightarrow> string \<Rightarrow> ((char \<times> char) list \<times> string) option" where
  "parse_class acc s =
     (if s \<noteq> [] \<and> hd s = CHR '']'' \<and> acc \<noteq> [] then Some (rev acc, tl s)
      else case get_esc s of
             None \<Rightarrow> None
           | Some (lo, r) \<Rightarrow>
               (if r \<noteq> [] \<and> hd r = CHR ''-'' then
                  (case get_esc (tl r) of
                     None \<Rightarrow> None
                   | Some (hi, r') \<Rightarrow> parse_class ((lo, hi) # acc) r')
                else parse_class ((lo, lo) # acc) r))"
  by pat_completeness auto
termination
proof (relation "measure (\<lambda>(acc, s). length s)", goal_cases)
  case (2 acc s p lo r q hi r')
  then have "length r < length s" "length r' < length (tl r)" by (auto dest: get_esc_shorter)
  then show ?case by simp
qed (auto dest: get_esc_shorter)

declare parse_class.simps [simp del]

lemma parse_class_shorter: "parse_class acc s = Some (rs, r) \<Longrightarrow> length r < length s"
proof (induction acc s arbitrary: rs r rule: parse_class.induct)
  case (1 acc s)
  show ?case
  proof (cases "s \<noteq> [] \<and> hd s = CHR '']'' \<and> acc \<noteq> []")
    case True
    then show ?thesis using 1(3) by (cases s) (auto simp: parse_class.simps)
  next
    case False
    then obtain lo r1 where e: "get_esc s = Some (lo, r1)"
      using 1(3) by (auto simp: parse_class.simps[of acc s] split: option.splits)
    have l1: "length r1 < length s" by (rule get_esc_shorter[OF e])
    show ?thesis
    proof (cases "r1 \<noteq> [] \<and> hd r1 = CHR ''-''")
      case True
      then obtain hi r2 where e2: "get_esc (tl r1) = Some (hi, r2)" and p: "parse_class ((lo, hi) # acc) r2 = Some (rs, r)"
        using 1(3) False e by (auto simp: parse_class.simps[of acc s] split: option.splits)
      have "length r2 < length (tl r1)" by (rule get_esc_shorter[OF e2])
      then show ?thesis using 1(1)[OF False e refl True e2 refl p] l1 by simp
    next
      case nodash: False
      then have p: "parse_class ((lo, lo) # acc) r1 = Some (rs, r)"
        using 1(3) False e by (simp add: parse_class.simps[of acc s] split: if_splits)
      then show ?thesis using 1(2)[OF False e refl nodash p] l1 by simp
    qed
  qed
qed

text \<open>The pattern as tokens; None is \<^verbatim>\<open>ErrBadPattern\<close>.\<close>
function parse_pattern :: "string \<Rightarrow> ptok list option" where
  "parse_pattern [] = Some []"
| "parse_pattern (c # cs) =
     (if c = CHR ''*'' then map_option (\<lambda>l. PStar # l) (parse_pattern cs)
      else if c = CHR ''?'' then map_option (\<lambda>l. PAny # l) (parse_pattern cs)
      else if c = CHR 0x5C then
        (case cs of [] \<Rightarrow> None | d # ds \<Rightarrow> map_option (\<lambda>l. PLit d # l) (parse_pattern ds))
      else if c = CHR ''['' then
        (let neg = (cs \<noteq> [] \<and> hd cs = CHR ''^'') in
         case parse_class [] (if neg then tl cs else cs) of
           None \<Rightarrow> None
         | Some (rs, r) \<Rightarrow> map_option (\<lambda>l. PClass neg rs # l) (parse_pattern r))
      else map_option (\<lambda>l. PLit c # l) (parse_pattern cs))"
  by pat_completeness auto
termination
proof (relation "measure length", goal_cases)
  case (5 c cs neg p rs r)
  have "length r < length (if neg then tl cs else cs)"
    using parse_class_shorter[of "[]" "if neg then tl cs else cs" rs r] 5 by (auto split: if_splits)
  then show ?case by (auto split: if_splits)
qed auto

text \<open>\<^verbatim>\<open>path.Match\<close> on tokens: a star stops at a slash.\<close>
fun match_toks :: "ptok list \<Rightarrow> string \<Rightarrow> bool" where
  "match_toks [] s = (s = [])"
| "match_toks (PStar # ts) [] = match_toks ts []"
| "match_toks (PStar # ts) (c # cs) =
     (match_toks ts (c # cs) \<or> (c \<noteq> CHR ''/'' \<and> match_toks (PStar # ts) cs))"
| "match_toks (PAny # ts) [] = False"
| "match_toks (PAny # ts) (c # cs) = (c \<noteq> CHR ''/'' \<and> match_toks ts cs)"
| "match_toks (PLit d # ts) [] = False"
| "match_toks (PLit d # ts) (c # cs) = (c = d \<and> match_toks ts cs)"
| "match_toks (PClass neg rs # ts) [] = False"
| "match_toks (PClass neg rs # ts) (c # cs) =
     (list_ex (\<lambda>(lo, hi). (of_char lo :: nat) \<le> of_char c \<and> (of_char c :: nat) \<le> of_char hi) rs \<noteq> neg
      \<and> match_toks ts cs)"

definition path_match :: "string \<Rightarrow> string \<Rightarrow> bool option" where
  "path_match pattern s = map_option (\<lambda>ts. match_toks ts s) (parse_pattern pattern)"

section \<open>The path bypass\<close>

definition DefaultPatterns :: "string list" where
  "DefaultPatterns = [''/.well-known/*'', ''/healthz'', ''/readyz'', ''/livez'']"

datatype bypass_error = BadPattern string | TooBroad string

text \<open>\<^verbatim>\<open>NewMatcher\<close>: the trimmed patterns.\<close>
fun new_matcher :: "string list \<Rightarrow> bypass_error + string list" where
  "new_matcher [] = Inr []"
| "new_matcher (p # ps) =
     (let trimmed = trim_space p in
      if path_match trimmed ''/'' = None then Inl (BadPattern p)
      else if trimmed = '''' \<or> trimmed = ''*'' \<or> trimmed = ''/*'' then Inl (TooBroad p)
      else case new_matcher ps of Inl e \<Rightarrow> Inl e | Inr l \<Rightarrow> Inr (trimmed # l))"

definition strip_query :: "string \<Rightarrow> string" where
  "strip_query s = (case index_byte (CHR ''?'') s of Some i \<Rightarrow> take i s | None \<Rightarrow> s)"

definition bypass_match :: "string list \<Rightarrow> string \<Rightarrow> bool" where
  "bypass_match patterns request_path =
     list_ex (\<lambda>p. path_match p (path_clean (strip_query request_path)) = Some True) patterns"

section \<open>Lemmas: hosts\<close>

lemma split_host_port_plain:
  assumes "CHR '':'' \<notin> set h" "CHR ''['' \<notin> set h" "CHR '']'' \<notin> set h"
    and "CHR '':'' \<notin> set p" "CHR ''['' \<notin> set p" "CHR '']'' \<notin> set p"
  shows "split_host_port (h @ CHR '':'' # p) = Some (h, p)"
proof -
  have l: "last_index_byte (CHR '':'') (h @ CHR '':'' # p) = Some (length h)"
    using assms(4) unfolding last_index_byte_def by (intro find_last_append) auto
  have "hd (h @ CHR '':'' # p) \<noteq> CHR ''[''" using assms(2) by (cases h) auto
  then show ?thesis unfolding split_host_port_def l using assms by simp
qed

lemma split_host_port_no_colon: "CHR '':'' \<notin> set h \<Longrightarrow> split_host_port h = None"
proof -
  assume "CHR '':'' \<notin> set h"
  then have "last_index_byte (CHR '':'') h = None" by (auto simp: last_index_byte_def find_last_None)
  then show ?thesis by (simp add: split_host_port_def)
qed

lemma strip_port_host:
  assumes "CHR '':'' \<notin> set h" "CHR ''['' \<notin> set h" "CHR '']'' \<notin> set h"
    and "CHR '':'' \<notin> set p" "CHR ''['' \<notin> set p" "CHR '']'' \<notin> set p"
  shows "strip_port (h @ CHR '':'' # p) = strip_port h"
  by (simp add: strip_port_def split_host_port_plain[OF assms] split_host_port_no_colon[OF assms(1)])

lemma compile_routes_first:
  "compile_routes compile rules = Inr l \<Longrightarrow>
     first_route l h = find (\<lambda>r. the (compile (rt_host r)) h) rules"
  by (induction rules arbitrary: l) (auto split: option.splits sum.splits)

section \<open>Lemmas: clean paths\<close>

lemma split_on_join: "ps \<noteq> [] \<Longrightarrow> \<forall>p \<in> set ps. c \<notin> set p \<Longrightarrow> split_on c (join_with [c] ps) = ps"
  by (induction "[c]" ps rule: join_with.induct) (auto simp: split_on_single split_on_append)

lemma split_on_parts: "p \<in> set (split_on c s) \<Longrightarrow> c \<notin> set p"
  by (induction c s arbitrary: p rule: split_on.induct) (auto split: if_splits list.splits)

text \<open>An element that cleaning keeps in place.\<close>
abbreviation plain_part :: "string \<Rightarrow> bool" where
  "plain_part p \<equiv> p \<noteq> '''' \<and> p \<noteq> ''.'' \<and> p \<noteq> ''..'' \<and> CHR ''/'' \<notin> set p"

lemma clean_parts_plain: "\<forall>p \<in> set ps. plain_part p \<Longrightarrow> clean_parts rooted acc ps = rev acc @ ps"
  by (induction ps arbitrary: acc) auto

lemma clean_parts_dots:
  "\<forall>p \<in> set ps. plain_part p \<Longrightarrow>
     clean_parts False (replicate m ''..'') (replicate n ''..'' @ ps) = replicate (m + n) ''..'' @ ps"
proof (induction n arbitrary: m)
  case 0
  then show ?case by (simp add: clean_parts_plain)
next
  case (Suc n)
  have "clean_parts False (replicate m ''..'') (replicate (Suc n) ''..'' @ ps) =
      clean_parts False (replicate (Suc m) ''..'') (replicate n ''..'' @ ps)"
    by (cases m) auto
  also have "\<dots> = replicate (Suc m + n) ''..'' @ ps" by (rule Suc.IH[OF Suc.prems])
  finally show ?case by simp
qed

lemma clean_parts_form:
  assumes "acc = rev rest @ replicate n ''..''" "\<forall>p \<in> set rest. plain_part p" "rooted \<longrightarrow> n = 0"
    and "\<forall>p \<in> set ps. CHR ''/'' \<notin> set p"
  shows "\<exists>n' rest'. clean_parts rooted acc ps = replicate n' ''..'' @ rest' \<and> (\<forall>p \<in> set rest'. plain_part p) \<and>
    (rooted \<longrightarrow> n' = 0)"
  using assms
proof (induction rooted acc ps arbitrary: rest n rule: clean_parts.induct)
  case (1 rooted acc)
  then show ?case by (intro exI[of _ n] exI[of _ rest]) simp
next
  case (2 rooted acc p ps)
  consider (skip) "p = '''' \<or> p = ''.''" | (pop) "p = ''..''" "acc \<noteq> []" "hd acc \<noteq> ''..''"
    | (root) "p = ''..''" "\<not> (acc \<noteq> [] \<and> hd acc \<noteq> ''..'')" rooted
    | (up) "p = ''..''" "\<not> (acc \<noteq> [] \<and> hd acc \<noteq> ''..'')" "\<not> rooted"
    | (push) "p \<noteq> ''''" "p \<noteq> ''.''" "p \<noteq> ''..''" by blast
  then show ?case
  proof cases
    case skip
    then show ?thesis using 2(1)[OF _ 2(6,7,8)] 2(9) by simp
  next
    case pop
    then obtain x rest1 where r: "rest = rest1 @ [x]"
      using 2(6) by (cases rest rule: rev_cases) (auto simp: hd_append split: if_splits)
    then have ta: "tl acc = rev rest1 @ replicate n ''..''" using 2(6) by simp
    show ?thesis using 2(2)[OF _ _ _ ta] 2(7,8,9) pop r by simp
  next
    case root
    then show ?thesis using 2(3)[OF _ _ _ _ 2(6,7,8)] 2(9) by auto
  next
    case up
    then have "rest = []" using 2(6,7) by (cases rest rule: rev_cases) (auto simp: hd_append split: if_splits)
    then have pa: "p # acc = rev [] @ replicate (Suc n) ''..''" using 2(6) up by simp
    show ?thesis using 2(4)[OF _ _ _ _ pa] 2(9) up by auto
  next
    case push
    then have pa: "p # acc = rev (rest @ [p]) @ replicate n ''..''" using 2(6) by simp
    show ?thesis using 2(5)[OF _ _ pa] 2(7,8,9) push by auto
  qed
qed

lemma join_with_nonempty: "qs \<noteq> [] \<Longrightarrow> hd qs \<noteq> '''' \<Longrightarrow> join_with ''/'' qs \<noteq> ''''"
  by (induction "''/''" qs rule: join_with.induct) auto

lemma join_with_hd: "ps \<noteq> [] \<Longrightarrow> hd ps \<noteq> '''' \<Longrightarrow> hd (join_with ''/'' ps) = hd (hd ps)"
  by (induction "''/''" ps rule: join_with.induct) auto

lemma dots_hd:
  assumes "replicate n ''..'' @ ps \<noteq> []" "\<forall>p \<in> set ps. plain_part p"
  shows "hd (replicate n ''..'' @ ps) \<noteq> ''''" "hd (hd (replicate n ''..'' @ ps)) \<noteq> CHR ''/''"
proof -
  have "hd (replicate n ''..'' @ ps) \<in> set (replicate n ''..'' @ ps)" using assms(1) by (rule hd_in_set)
  then have h: "hd (replicate n ''..'' @ ps) = ''..'' \<or> plain_part (hd (replicate n ''..'' @ ps))"
    using assms(2) by auto
  then show "hd (replicate n ''..'' @ ps) \<noteq> ''''" by auto
  then have "hd (hd (replicate n ''..'' @ ps)) \<in> set (hd (replicate n ''..'' @ ps))" by (rule hd_in_set)
  with h show "hd (hd (replicate n ''..'' @ ps)) \<noteq> CHR ''/''" by auto
qed

lemma dots_parts:
  assumes "\<forall>p \<in> set ps. plain_part p"
  shows "\<forall>p \<in> set (replicate n ''..'' @ ps). p \<noteq> '''' \<and> CHR ''/'' \<notin> set p"
proof
  fix p assume "p \<in> set (replicate n ''..'' @ ps)"
  then have "p = ''..'' \<or> p \<in> set ps" by auto
  then show "p \<noteq> '''' \<and> CHR ''/'' \<notin> set p" using assms by fastforce
qed

lemma path_clean_form:
  "\<exists>n ps. path_clean s = (if has_prefix s ''/'' then ''/'' @ join_with ''/'' ps
        else if replicate n ''..'' @ ps = [] then ''.'' else join_with ''/'' (replicate n ''..'' @ ps)) \<and>
     (\<forall>p \<in> set ps. plain_part p)"
proof -
  have "\<forall>p \<in> set (split_on (CHR ''/'') s). CHR ''/'' \<notin> set p" by (auto dest: split_on_parts)
  then obtain n ps where c: "clean_parts (has_prefix s ''/'') [] (split_on (CHR ''/'') s) = replicate n ''..'' @ ps"
    "\<forall>p \<in> set ps. plain_part p" "has_prefix s ''/'' \<longrightarrow> n = 0"
    using clean_parts_form[of "[]" "[]" 0 "has_prefix s ''/''" "split_on (CHR ''/'') s"] by auto
  have ne: "join_with ''/'' (replicate n ''..'' @ ps) = '''' \<Longrightarrow> replicate n ''..'' @ ps = []"
    using join_with_nonempty dots_hd[OF _ c(2), of n] by blast
  show ?thesis
  proof (intro exI conjI)
    show "path_clean s = (if has_prefix s ''/'' then ''/'' @ join_with ''/'' ps
        else if replicate n ''..'' @ ps = [] then ''.'' else join_with ''/'' (replicate n ''..'' @ ps))"
      using c(1,3) ne by (auto simp: path_clean_def Let_def)
  qed (rule c(2))
qed

lemma path_clean_rooted:
  assumes "\<forall>p \<in> set ps. plain_part p"
  shows "path_clean (''/'' @ join_with ''/'' ps) = ''/'' @ join_with ''/'' ps"
proof -
  have "clean_parts True [] (split_on (CHR ''/'') (join_with ''/'' ps)) = ps"
  proof (cases "ps = []")
    case False
    then have "split_on (CHR ''/'') (join_with ''/'' ps) = ps" using assms by (intro split_on_join) auto
    then show ?thesis using assms by (simp add: clean_parts_plain)
  qed simp
  then show ?thesis by (simp add: path_clean_def)
qed

lemma path_clean_keep:
  assumes "j \<noteq> ''''" "\<not> has_prefix j ''/''" "join_with ''/'' (clean_parts False [] (split_on (CHR ''/'') j)) = j"
  shows "path_clean j = j"
  using assms by (simp add: path_clean_def)

lemma not_prefix_hd: "j \<noteq> '''' \<Longrightarrow> hd j \<noteq> c \<Longrightarrow> \<not> prefix [c] j"
  by (cases j) auto

lemma path_clean_relative:
  assumes "replicate n ''..'' @ ps \<noteq> []" "\<forall>p \<in> set ps. plain_part p"
  shows "path_clean (join_with ''/'' (replicate n ''..'' @ ps)) = join_with ''/'' (replicate n ''..'' @ ps)"
proof (rule path_clean_keep)
  define qs where "qs = replicate n ''..'' @ ps"
  have np: "\<forall>p \<in> set qs. CHR ''/'' \<notin> set p" unfolding qs_def using dots_parts[OF assms(2), of n] by blast
  have qs: "qs \<noteq> []" "hd qs \<noteq> ''''" "hd (hd qs) \<noteq> CHR ''/''"
    using assms(1) dots_hd[OF assms] unfolding qs_def by - assumption+
  show ne: "join_with ''/'' (replicate n ''..'' @ ps) \<noteq> ''''"
    unfolding qs_def[symmetric] by (rule join_with_nonempty[OF qs(1,2)])
  show "\<not> has_prefix (join_with ''/'' (replicate n ''..'' @ ps)) ''/''"
    using ne unfolding qs_def[symmetric] by (rule not_prefix_hd) (simp only: join_with_hd[OF qs(1,2)] qs(3) not_False_eq_True)
  have "clean_parts False [] qs = qs" using clean_parts_dots[OF assms(2), of 0 n] by (simp only: qs_def replicate_0 add_0)
  then show "join_with ''/'' (clean_parts False [] (split_on (CHR ''/'') (join_with ''/'' (replicate n ''..'' @ ps))))
      = join_with ''/'' (replicate n ''..'' @ ps)"
    unfolding qs_def[symmetric] split_on_join[OF qs(1) np] by simp
qed

lemma path_clean_idem: "path_clean (path_clean s) = path_clean s"
proof -
  obtain n ps where f: "path_clean s = (if has_prefix s ''/'' then ''/'' @ join_with ''/'' ps
        else if replicate n ''..'' @ ps = [] then ''.'' else join_with ''/'' (replicate n ''..'' @ ps))"
    and ps: "\<forall>p \<in> set ps. plain_part p" using path_clean_form by blast
  have dot: "path_clean ''.'' = ''.''" by code_simp
  show ?thesis
    unfolding f using path_clean_rooted[OF ps] path_clean_relative[OF _ ps, of n] dot by (simp split: if_splits)
qed

lemma path_clean_no_trailing_slash: "path_clean s = x @ ''/'' \<Longrightarrow> x = ''''"
proof -
  assume a: "path_clean s = x @ ''/''"
  have last: "qs \<noteq> [] \<Longrightarrow> \<forall>p \<in> set qs. p \<noteq> '''' \<and> CHR ''/'' \<notin> set p \<Longrightarrow>
      last (join_with ''/'' qs) \<noteq> CHR ''/'' \<and> join_with ''/'' qs \<noteq> ''''" for qs
    by (induction "''/''" qs rule: join_with.induct) (auto dest: last_in_set)
  obtain n ps where f: "path_clean s = (if has_prefix s ''/'' then ''/'' @ join_with ''/'' ps
        else if replicate n ''..'' @ ps = [] then ''.'' else join_with ''/'' (replicate n ''..'' @ ps))"
    and ps: "\<forall>p \<in> set ps. plain_part p" using path_clean_form by blast
  have l: "last (path_clean s) = CHR ''/''" using a by simp
  show ?thesis
  proof (cases "has_prefix s ''/''")
    case True
    then have "ps = []" using f l last[of ps] ps by (cases "ps = []") auto
    then show ?thesis using f True a by simp
  next
    case False
    have "\<forall>p \<in> set (replicate n ''..'' @ ps). p \<noteq> '''' \<and> CHR ''/'' \<notin> set p" by (rule dots_parts[OF ps])
    then have "replicate n ''..'' @ ps \<noteq> [] \<Longrightarrow> last (join_with ''/'' (replicate n ''..'' @ ps)) \<noteq> CHR ''/''"
      using last by blast
    then show ?thesis using f False l by (simp split: if_splits)
  qed
qed

lemma match_toks_lits_append: "match_toks (map PLit w @ ts) s = (\<exists>x. s = w @ x \<and> match_toks ts x)"
proof (induction w arbitrary: s)
  case (Cons a w)
  then show ?case by (cases s) auto
qed simp

lemma match_toks_lits: "match_toks (map PLit w) s = (s = w)"
  using match_toks_lits_append[of w "[]" s] by simp

lemma match_toks_star: "match_toks [PStar] s = (CHR ''/'' \<notin> set s)"
  by (induction s) auto

lemma default_patterns_parse:
  "parse_pattern ''/.well-known/*'' = Some (map PLit ''/.well-known/'' @ [PStar])"
  "parse_pattern ''/healthz'' = Some (map PLit ''/healthz'')"
  "parse_pattern ''/readyz'' = Some (map PLit ''/readyz'')"
  "parse_pattern ''/livez'' = Some (map PLit ''/livez'')"
  by simp_all

lemma strip_query_none: "CHR ''?'' \<notin> set p \<Longrightarrow> strip_query p = p"
proof -
  assume "CHR ''?'' \<notin> set p"
  then have n: "index_from 0 (CHR ''?'') p = None" by simp
  show ?thesis unfolding strip_query_def index_byte_def n by simp
qed

lemma path_clean_chars: "set (path_clean s) \<subseteq> set s \<union> set ''./''"
proof -
  have j: "set (join_with ''/'' qs) \<subseteq> (\<Union>q \<in> set qs. set q) \<union> {CHR ''/''}" for qs
    by (induction "''/''" qs rule: join_with.induct) auto
  have c: "set (clean_parts r acc ps) \<subseteq> set acc \<union> set ps" for r acc ps
  proof (induction r acc ps rule: clean_parts.induct)
    case (2 r acc p ps)
    have "set (tl acc) \<subseteq> set acc" by (cases acc) auto
    then show ?case using 2 by (auto split: if_splits; blast)
  qed simp
  have sp: "(\<Union>q \<in> set (split_on (CHR ''/'') s). set q) \<subseteq> set s"
  proof (induction s)
    case (Cons x s)
    then show ?case by (cases "split_on (CHR ''/'') s") (simp_all, blast)
  qed simp
  have "(\<Union>q \<in> set (clean_parts r [] (split_on (CHR ''/'') s)). set q) \<subseteq> set s" for r
    using c[of r "[]" "split_on (CHR ''/'') s"] sp by fastforce
  then have "set (join_with ''/'' (clean_parts r [] (split_on (CHR ''/'') s))) \<subseteq> set s \<union> {CHR ''/''}" for r
    using j[of "clean_parts r [] (split_on (CHR ''/'') s)"] by blast
  from this[of "has_prefix s ''/''"] show ?thesis by (auto simp: path_clean_def Let_def split: if_splits)
qed

section \<open>Properties\<close>





end
