(* ===== verification/Listener_Http.thy ===== *)
theory Listener_Http
  imports Pipeline_Run Event_Store Sse_Frame Host_Match
begin

text \<open>
  What the HTTP listeners share: requests, responses and replies, the reading of
  bodies up to a limit, the copies that a session event holds
  (\<^verbatim>\<open>authlib/pipeline/snapshot.go\<close>), TLS data of a connection
  (\<^verbatim>\<open>authlib/tls/spiffe.go\<close>), and the rendering of a rejection
  (\<^verbatim>\<open>authlib/listener/httpx/render.go\<close>).

  A body is the bytes it delivers and the way it ends.  A listener runs in a
  world with the session store, which is absent when sessions are not tracked,
  and the counters of its TLS metrics.
\<close>

section \<open>Messages\<close>

type_synonym body = "bytes \<times> stream_end"

text \<open>A certificate is its bytes and its URIs, each a scheme and the whole text.\<close>
record conn_state =
  cs_version :: nat
  cs_cipher :: string
  cs_peers :: "(bytes \<times> (string \<times> string) list) list"

record http_request =
  rq_method :: string
  rq_scheme :: string
  rq_url_host :: string
  rq_host :: string
  rq_path :: string
  rq_headers :: header
  rq_body :: "body option"
  rq_tls :: "conn_state option"

record http_response =
  hs_status :: int
  hs_headers :: header
  hs_body :: "body option"

text \<open>What the client receives; an aborted reply ends before its body is complete.\<close>
record client_reply =
  rp_status :: int
  rp_headers :: header
  rp_body :: response_doc
  rp_aborted :: bool

definition maxBodySize :: nat where
  "maxBodySize = 2 ^ 20"

text \<open>\<^verbatim>\<open>io.ReadAll\<close> of a body limited by \<^verbatim>\<open>http.MaxBytesReader\<close>: longer bodies are an error.\<close>
definition read_max :: "nat \<Rightarrow> body \<Rightarrow> string + bytes" where
  "read_max n b =
     (if length (fst b) > n then Inl ''http: request body too large''
      else case snd b of StreamEOF \<Rightarrow> Inr (fst b) | StreamErr e \<Rightarrow> Inl e)"

text \<open>\<^verbatim>\<open>io.ReadAll\<close> of a body limited by \<^verbatim>\<open>io.LimitReader\<close>: it stops after that many bytes.\<close>
definition read_limited :: "nat \<Rightarrow> body \<Rightarrow> string + bytes" where
  "read_limited n b =
     (if length (fst b) \<ge> n then Inr (take n (fst b))
      else case snd b of StreamEOF \<Rightarrow> Inr (fst b) | StreamErr e \<Rightarrow> Inl e)"

definition error_reply :: "int \<Rightarrow> string \<Rightarrow> client_reply" where
  "error_reply status msg =
     \<lparr>rp_status = status, rp_headers = [(''Content-Type'', [''text/plain; charset=utf-8'']), (''X-Content-Type-Options'', [''nosniff''])],
      rp_body = JsonDoc (JObj [(''error'', JStr msg)]), rp_aborted = False\<rparr>"

text \<open>A response copied to the client as it is.\<close>
definition copy_reply :: "http_response \<Rightarrow> client_reply" where
  "copy_reply r =
     \<lparr>rp_status = hs_status r, rp_headers = hs_headers r,
      rp_body = RawDoc (case hs_body r of None \<Rightarrow> [] | Some b \<Rightarrow> fst b),
      rp_aborted = (case hs_body r of None \<Rightarrow> False | Some b \<Rightarrow> snd b \<noteq> StreamEOF)\<rparr>"

definition is_event_stream :: "string \<Rightarrow> bool" where
  "is_event_stream ct =
     (ct \<noteq> '''' \<and>
      equal_fold (trim_space (case index_byte (CHR '';'') ct of None \<Rightarrow> ct | Some i \<Rightarrow> take i ct)) ''text/event-stream'')"

definition hdr_del :: "string \<Rightarrow> header \<Rightarrow> header" where
  "hdr_del k h = gm_del k h"

text \<open>A request whose body a plugin replaced.\<close>
definition with_body :: "bytes \<Rightarrow> http_request \<Rightarrow> http_request" where
  "with_body b rq =
     rq\<lparr>rq_body := Some (b, StreamEOF),
        rq_headers := hdr_del ''Content-Encoding'' (hdr_set ''Content-Length'' (itoa (length b)) (rq_headers rq))\<rparr>"

text \<open>A response whose body a plugin replaced.\<close>
definition with_response_body :: "bytes \<Rightarrow> http_response \<Rightarrow> http_response" where
  "with_response_body b r =
     r\<lparr>hs_body := Some (b, StreamEOF),
       hs_headers := hdr_del ''Content-Encoding'' (hdr_set ''Content-Length'' (itoa (length b)) (hs_headers r))\<rparr>"

section \<open>Rejections\<close>

definition write_rejection :: "violation option \<Rightarrow> client_reply" where
  "write_rejection v =
     (case render v of (status, headers, doc) \<Rightarrow>
        \<lparr>rp_status = status, rp_headers = headers, rp_body = doc, rp_aborted = False\<rparr>)"

definition should_render_mcp_error :: "pcontext \<Rightarrow> bool" where
  "should_render_mcp_error c =
     (case ext_mcp (c_extensions c) of
        None \<Rightarrow> False
      | Some m \<Rightarrow> mcp_method m \<noteq> '''' \<and> mcp_rpc_id m \<noteq> JNull)"

text \<open>The document that \<^verbatim>\<open>MarshalMCPRejectionBody\<close> encodes.  Its fallbacks are for values that
  cannot be encoded; every value of the model can.\<close>
definition mcp_rejection_body :: "violation option \<Rightarrow> json \<Rightarrow> json" where
  "mcp_rejection_body vo rpc_id =
     (let message = (case vo of Some v \<Rightarrow> if v_reason v \<noteq> '''' then v_reason v else ''request rejected'' | None \<Rightarrow> ''request rejected'');
          fields = (case vo of None \<Rightarrow> []
            | Some v \<Rightarrow>
                (if v_code v \<noteq> '''' then [(''error'', JStr (v_code v))] else []) @
                (if v_plugin_name v \<noteq> '''' then [(''plugin'', JStr (v_plugin_name v))] else []) @
                (if v_description v \<noteq> '''' then [(''description'', JStr (v_description v))] else []) @
                (if v_details v \<noteq> [] then [(''details'', JObj (v_details v))] else []))
      in JObj [(''jsonrpc'', JStr ''2.0''), (''id'', rpc_id),
           (''error'', JObj [(''code'', JNum (- 32000)), (''message'', JStr message),
              (''data'', if fields = [] then JNull else JObj fields)])])"

definition write_rejection_for_request :: "violation option \<Rightarrow> pcontext \<Rightarrow> client_reply" where
  "write_rejection_for_request vo c =
     (case ext_mcp (c_extensions c) of
        Some m \<Rightarrow>
          if should_render_mcp_error c
          then \<lparr>rp_status = 200, rp_headers = [(''Content-Type'', [''application/json''])],
                rp_body = JsonDoc (mcp_rejection_body vo (mcp_rpc_id m)), rp_aborted = False\<rparr>
          else write_rejection vo
      | None \<Rightarrow> write_rejection vo)"

section \<open>Session events\<close>

definition custom_json :: "custom_value \<Rightarrow> json" where
  "custom_json v =
     (case v of
        CustomJson j \<Rightarrow> j
      | BodyMutation b \<Rightarrow> JObj [(''phase'', JStr (bm_phase b)), (''plugin'', JStr (bm_plugin b)),
          (''length_before'', JNum (int (bm_length_before b))), (''length_after'', JNum (int (bm_length_after b))),
          (''sha256_before'', JStr (bm_sha256_before b)), (''sha256_after'', JStr (bm_sha256_after b))])"

definition snapshot_plugins :: "(string, custom_value) gomap \<Rightarrow> (string, json) gomap" where
  "snapshot_plugins custom =
     fold (\<lambda>(k, v) m. if has_suffix k ''/event'' then gm_put (trim_suffix k ''/event'') (custom_json v) m else m) custom []"

definition snapshot_identity :: "pcontext \<Rightarrow> event_identity option" where
  "snapshot_identity c =
     (if c_identity c = None \<and> c_agent c = None then None
      else Some \<lparr>ei_subject = (case c_identity c of Some i \<Rightarrow> id_subject i | None \<Rightarrow> ''''),
                 ei_scopes = (case c_identity c of Some i \<Rightarrow> id_scopes i | None \<Rightarrow> []),
                 ei_client_id = (case c_identity c of Some i \<Rightarrow> id_client_id i | None \<Rightarrow> ''''),
                 ei_agent_id = (case c_agent c of Some a \<Rightarrow> ag_workload_id a | None \<Rightarrow> '''')\<rparr>)"

definition duration_since :: "time option \<Rightarrow> time \<Rightarrow> time" where
  "duration_since t0 now = (case t0 of None \<Rightarrow> 0 | Some t \<Rightarrow> now - t)"

definition derive_error :: "pcontext \<Rightarrow> event_error option" where
  "derive_error c =
     (case ext_security (c_extensions c) of
        Some s \<Rightarrow>
          if sec_blocked s then Some \<lparr>ee_kind = ''blocked'', ee_code = '''', ee_message = sec_block_reason s\<rparr>
          else if c_status_code c \<ge> 400
          then Some \<lparr>ee_kind = ''backend_error'', ee_code = itoa (nat (c_status_code c)), ee_message = ''''\<rparr> else None
      | None \<Rightarrow>
          if c_status_code c \<ge> 400
          then Some \<lparr>ee_kind = ''backend_error'', ee_code = itoa (nat (c_status_code c)), ee_message = ''''\<rparr> else None)"

definition tls_version_string :: "nat \<Rightarrow> string" where
  "tls_version_string v =
     (if v = 772 then ''TLS 1.3'' else if v = 771 then ''TLS 1.2'' else if v = 770 then ''TLS 1.1''
      else if v = 769 then ''TLS 1.0'' else '''')"

definition peer_spiffe_id :: "(bytes \<times> (string \<times> string) list) option \<Rightarrow> string" where
  "peer_spiffe_id cert =
     (case cert of
        None \<Rightarrow> ''''
      | Some (_, uris) \<Rightarrow>
          (case filter (\<lambda>(scheme, _). scheme = ''spiffe'') uris of [(_, u)] \<Rightarrow> u | _ \<Rightarrow> ''''))"

definition event_tls_of :: "conn_state option \<Rightarrow> event_tls option" where
  "event_tls_of s =
     map_option (\<lambda>t. \<lparr>et_version = tls_version_string (cs_version t), et_cipher_suite = cs_cipher t,
       et_peer_spiffe_id = peer_spiffe_id (case cs_peers t of [] \<Rightarrow> None | p # _ \<Rightarrow> Some p)\<rparr>) s"

text \<open>The fields of an event that every listener fills in alike.\<close>
definition base_event :: "time \<Rightarrow> direction \<Rightarrow> session_phase \<Rightarrow> invocation_phase \<Rightarrow> pcontext \<Rightarrow> session_event" where
  "base_event now dir phase iphase c =
     \<lparr>ev_session_id = '''', ev_at = now, ev_direction = dir, ev_phase = phase, ev_a2a = None, ev_mcp = None, ev_inference = None,
      ev_invocations = filtered_by_phase (ext_invocations (c_extensions c)) iphase,
      ev_plugins = snapshot_plugins (ext_custom (c_extensions c)), ev_identity = snapshot_identity c, ev_status_code = 0,
      ev_error = None, ev_host = c_host c, ev_duration = 0, ev_tls = None\<rparr>"

text \<open>The event of a request that a plugin rejected.\<close>
definition denied_event :: "time \<Rightarrow> direction \<Rightarrow> violation option \<Rightarrow> event_tls option \<Rightarrow> pcontext \<Rightarrow> session_event" where
  "denied_event now dir vo tls c =
     (base_event now dir SessionDenied InvocationPhaseRequest c)
       \<lparr>ev_plugins := [], ev_identity := None,
        ev_status_code := (case vo of None \<Rightarrow> 0 | Some v \<Rightarrow> if v_status v = 0 then status_from_code (v_code v) else v_status v),
        ev_error := Some \<lparr>ee_kind = ''policy'', ee_code = (case vo of None \<Rightarrow> '''' | Some v \<Rightarrow> v_code v),
          ee_message = (case vo of None \<Rightarrow> '''' | Some v \<Rightarrow> v_reason v)\<rparr>,
        ev_tls := tls\<rparr>"

text \<open>\<^verbatim>\<open>Sessions.Append\<close> on a store that may be absent; None is the panic of the store.\<close>
definition append_event :: "time \<Rightarrow> string \<Rightarrow> session_event \<Rightarrow> store option \<Rightarrow> store option option" where
  "append_event now sid ev so = (case so of None \<Rightarrow> Some None | Some s \<Rightarrow> map_option Some (store_append now sid ev s))"

section \<open>The world of a listener\<close>

record tls_metrics =
  tm_inbound_tls_accepted :: nat
  tm_inbound_plain_accepted :: nat
  tm_inbound_plain_rejected :: nat
  tm_outbound_tls_succeeded :: nat
  tm_outbound_failed :: nat

record 'w lworld =
  lw_store :: "store option"
  lw_metrics :: "tls_metrics option"
  lw_world :: 'w

text \<open>A context at the start of a request.\<close>
definition new_context :: "direction \<Rightarrow> string \<Rightarrow> string \<Rightarrow> string \<Rightarrow> string \<Rightarrow> header \<Rightarrow> bool \<Rightarrow> time \<Rightarrow> pcontext" where
  "new_context dir meth scheme host path headers shared now =
     \<lparr>c_direction = dir, c_method = meth, c_scheme = scheme, c_host = host, c_path = path, c_headers = headers,
      c_body = [], c_started_at = Some now, c_agent = None, c_identity = None, c_session = None, c_tls = None, c_shared = shared,
      c_status_code = 0, c_response_headers = [], c_response_body = [],
      c_extensions = \<lparr>ext_mcp = None, ext_a2a = None, ext_security = None, ext_inference = None,
                       ext_invocations = None, ext_custom = []\<rparr>,
      c_current_plugin = '''', c_current_phase = PhaseNone, c_current_policy = '''',
      c_body_mutated = False, c_response_body_mutated = False, c_dispatched = [], c_outcome = None,
      c_in_finish = False, c_rejecting_plugin = '''', c_finished = False\<rparr>"

text \<open>The body of a request, buffered when a plugin of the pipeline wants it.\<close>
definition buffer_request :: "'w pipeline \<Rightarrow> http_request \<Rightarrow> pcontext \<Rightarrow> string + (http_request \<times> pcontext)" where
  "buffer_request p rq c =
     (case rq_body rq of
        Some b \<Rightarrow>
          if needs_body p
          then (case read_max maxBodySize b of
                  Inl e \<Rightarrow> Inl e
                | Inr bs \<Rightarrow> Inr (rq\<lparr>rq_body := Some (bs, StreamEOF)\<rparr>, c\<lparr>c_body := bs\<rparr>))
          else Inr (rq, c)
      | None \<Rightarrow> Inr (rq, c))"

text \<open>The same for a response.\<close>
definition buffer_response :: "'w pipeline \<Rightarrow> http_response \<Rightarrow> pcontext \<Rightarrow> string + (http_response \<times> pcontext)" where
  "buffer_response p r c =
     (case hs_body r of
        Some b \<Rightarrow>
          if needs_body p
          then (case read_limited (maxBodySize + 1) b of
                  Inl e \<Rightarrow> Inl e
                | Inr bs \<Rightarrow>
                    if length bs > maxBodySize then Inl ''response body too large''
                    else Inr (r\<lparr>hs_body := Some (bs, StreamEOF)\<rparr>, c\<lparr>c_response_body := bs\<rparr>))
          else Inr (r, c)
      | None \<Rightarrow> Inr (r, c))"

end
