(* ===== verification/Reverse_Proxy.thy ===== *)
theory Reverse_Proxy
  imports Listener_Http "HOL-Library.Monad_Syntax"
begin

text \<open>
  The reverse proxy in front of the agent
  (\<^verbatim>\<open>authlib/listener/reverseproxy/server.go\<close>) and the listener that tells TLS
  from plain connections (\<^verbatim>\<open>authlib/listener/internal/tlssniff/listener.go\<close>).

  The parameter \<^verbatim>\<open>backend\<close> stands for the agent behind the proxy together with the
  director and the transport of \<^verbatim>\<open>httputil.ReverseProxy\<close>; the requests handed to it
  are an output of the model.  \<^verbatim>\<open>bufs\<close> are the sizes of the buffers with which the
  proxy reads a streaming body before it stops.  A result None is a panic.
\<close>

section \<open>Sniffing listener\<close>

datatype sniff_mode = ModePermissive | ModeStrict

datatype sniffed = TlsConn | PlainConn | ClosedConn

text \<open>\<^verbatim>\<open>dispatch\<close> on the first byte; None is a peek that failed.\<close>
definition sniff_dispatch :: "sniff_mode \<Rightarrow> char option \<Rightarrow> tls_metrics option \<Rightarrow> sniffed \<times> tls_metrics option" where
  "sniff_dispatch mode first ms =
     (case first of
        None \<Rightarrow> (ClosedConn, ms)
      | Some b \<Rightarrow>
          if b = CHR 0x16 then (TlsConn, ms)
          else if mode = ModeStrict
          then (ClosedConn, map_option (\<lambda>m. m\<lparr>tm_inbound_plain_rejected := Suc (tm_inbound_plain_rejected m)\<rparr>) ms)
          else (PlainConn, ms))"

section \<open>Server\<close>

record 'w rv_server =
  rv_pipeline :: "'w pipeline"
  rv_shared :: bool

definition request_scheme :: "http_request \<Rightarrow> string" where
  "request_scheme rq = (if rq_tls rq \<noteq> None then ''https'' else ''http'')"

definition inbound_session_id :: "pcontext \<Rightarrow> string" where
  "inbound_session_id c =
     (case ext_a2a (c_extensions c) of
        Some a \<Rightarrow> if a2a_session_id a \<noteq> '''' then a2a_session_id a else DefaultSessionID
      | None \<Rightarrow> DefaultSessionID)"

text \<open>Whether a context has something to show in a session.\<close>
definition inbound_observable :: "pcontext \<Rightarrow> bool" where
  "inbound_observable c =
     (ext_a2a (c_extensions c) \<noteq> None \<or> ext_invocations (c_extensions c) \<noteq> None \<or>
      snapshot_plugins (ext_custom (c_extensions c)) \<noteq> [])"

definition record_inbound_reject ::
  "time \<Rightarrow> violation option \<Rightarrow> event_tls option \<Rightarrow> pcontext \<Rightarrow> store option \<Rightarrow> store option option" where
  "record_inbound_reject now vo tls c so =
     (if ext_invocations (c_extensions c) = None then Some so
      else append_event now (inbound_session_id c) (denied_event now Inbound vo tls c) so)"

definition record_inbound_request :: "time \<Rightarrow> event_tls option \<Rightarrow> pcontext \<Rightarrow> store option \<Rightarrow> store option option" where
  "record_inbound_request now tls c so =
     (if inbound_observable c
      then append_event now (inbound_session_id c)
             ((base_event now Inbound SessionRequest InvocationPhaseRequest c)
                \<lparr>ev_a2a := ext_a2a (c_extensions c), ev_tls := tls\<rparr>) so
      else Some so)"

definition rekey_inbound :: "pcontext \<Rightarrow> store option \<Rightarrow> store option" where
  "rekey_inbound c so =
     (case ext_a2a (c_extensions c) of
        Some a \<Rightarrow>
          if a2a_session_id a \<noteq> '''' \<and> a2a_session_id a \<noteq> DefaultSessionID
          then map_option (rekey DefaultSessionID (a2a_session_id a)) so else so
      | None \<Rightarrow> so)"

definition inbound_response_event :: "time \<Rightarrow> event_tls option \<Rightarrow> int \<Rightarrow> pcontext \<Rightarrow> session_event" where
  "inbound_response_event now tls status c =
     (base_event now Inbound SessionResponse InvocationPhaseResponse c)
       \<lparr>ev_a2a := ext_a2a (c_extensions c), ev_status_code := status, ev_error := derive_error c,
        ev_duration := duration_since (c_started_at c) now, ev_tls := tls\<rparr>"

text \<open>The buffered path moves the default session even when there is nothing to record.\<close>
definition record_buffered_response ::
  "time \<Rightarrow> event_tls option \<Rightarrow> int \<Rightarrow> pcontext \<Rightarrow> store option \<Rightarrow> store option option" where
  "record_buffered_response now tls status c so =
     (let so1 = rekey_inbound c so in
      if inbound_observable c
      then append_event now (inbound_session_id c) (inbound_response_event now tls status c) so1
      else Some so1)"

definition record_inbound_response_event ::
  "time \<Rightarrow> event_tls option \<Rightarrow> int \<Rightarrow> pcontext \<Rightarrow> store option \<Rightarrow> store option option" where
  "record_inbound_response_event now tls status c so =
     (if \<not> inbound_observable c then Some so
      else append_event now (inbound_session_id c) (inbound_response_event now tls status c) (rekey_inbound c so))"

section \<open>Streaming body\<close>

record stream_body =
  stb_rest :: bytes
  stb_end :: stream_end
  stb_pending :: bytes
  stb_finished :: bool
  stb_closed :: bool

datatype read_result = ReadBytes bytes | ReadEOF | ReadError string

text \<open>One \<^verbatim>\<open>Read\<close> with a buffer of n bytes.\<close>
definition stream_read ::
  "('w \<Rightarrow> bool) \<Rightarrow> 'w pipeline \<Rightarrow> nat \<Rightarrow> stream_body \<Rightarrow> pcontext \<Rightarrow> 'w \<Rightarrow> read_result \<times> stream_body \<times> pcontext \<times> 'w" where
  "stream_read ctx_err p n b c w =
     (if stb_pending b \<noteq> []
      then (ReadBytes (take n (stb_pending b)), b\<lparr>stb_pending := drop n (stb_pending b)\<rparr>, c, w)
      else if stb_finished b then (ReadEOF, b, c, w)
      else case read_frame maxBodySize (stb_end b) False [] (stb_rest b) of
          FrameEOF \<Rightarrow>
            (case run_response_frame ctx_err p [] True c w of (_, c1, w1) \<Rightarrow> (ReadEOF, b\<lparr>stb_rest := [], stb_finished := True\<rparr>, c1, w1))
        | FrameErr _ \<Rightarrow>
            (case run_response_frame ctx_err p [] True c w of
               (_, c1, w1) \<Rightarrow> (ReadError ''stream'', b\<lparr>stb_finished := True\<rparr>, c1, w1))
        | FrameOk f rest \<Rightarrow>
            (case run_response_frame ctx_err p f False c w of
               (Reject _, c1, w1) \<Rightarrow>
                 (case run_response_frame ctx_err p [] True c1 w1 of
                    (_, c2, w2) \<Rightarrow> (ReadError ''rejected mid-stream'', b\<lparr>stb_rest := rest, stb_finished := True\<rparr>, c2, w2))
             | (Continue, c1, w1) \<Rightarrow>
                 (ReadBytes (take n (write_sse_frame f)),
                  b\<lparr>stb_rest := rest, stb_pending := drop n (write_sse_frame f)\<rparr>, c1, w1)))"

text \<open>\<^verbatim>\<open>Close\<close> with its callback.\<close>
definition stream_close ::
  "('w \<Rightarrow> bool) \<Rightarrow> ('w \<Rightarrow> time) \<Rightarrow> 'w pipeline \<Rightarrow> event_tls option \<Rightarrow> int \<Rightarrow> stream_body \<Rightarrow> pcontext \<Rightarrow> 'w lworld \<Rightarrow>
   (stream_body \<times> pcontext \<times> 'w lworld) option" where
  "stream_close ctx_err clock p tls status b c st =
     (if stb_closed b then Some (b, c, st)
      else let (b1, c1, w1) =
             (if stb_finished b then (b\<lparr>stb_closed := True\<rparr>, c, lw_world st)
              else case run_response_frame ctx_err p [] True c (lw_world st) of
                     (_, c1, w1) \<Rightarrow> (b\<lparr>stb_closed := True, stb_finished := True\<rparr>, c1, w1))
           in map_option (\<lambda>so. (b1, c1, st\<lparr>lw_store := so, lw_world := w1\<rparr>))
                (record_inbound_response_event (clock w1) tls status c1 (lw_store st)))"

text \<open>The copy of a body to the client: the bytes that arrived and whether it was cut off.\<close>
fun relay_stream ::
  "('w \<Rightarrow> bool) \<Rightarrow> 'w pipeline \<Rightarrow> nat list \<Rightarrow> stream_body \<Rightarrow> pcontext \<Rightarrow> 'w \<Rightarrow> bytes \<times> bool \<times> stream_body \<times> pcontext \<times> 'w" where
  "relay_stream ctx_err p [] b c w = ([], True, b, c, w)"
| "relay_stream ctx_err p (n # ns) b c w =
     (case stream_read ctx_err p n b c w of
        (ReadEOF, b1, c1, w1) \<Rightarrow> ([], False, b1, c1, w1)
      | (ReadError _, b1, c1, w1) \<Rightarrow> ([], True, b1, c1, w1)
      | (ReadBytes bs, b1, c1, w1) \<Rightarrow>
          (case relay_stream ctx_err p ns b1 c1 w1 of (later, trunc, b2, c2, w2) \<Rightarrow> (bs @ later, trunc, b2, c2, w2)))"

section \<open>Responses\<close>

datatype modify_result =
    ModifyRejected "violation option"
  | ModifyFailed string
  | ModifyOk http_response
  | ModifyStreaming http_response stream_body

definition wants_streaming :: "'w pipeline \<Rightarrow> http_response \<Rightarrow> bool" where
  "wants_streaming p r =
     (is_event_stream (hdr_get (hs_headers r) ''Content-Type'') \<and> has_streaming_responders p \<and> hs_body r \<noteq> None \<and> \<not> writes_body p)"

text \<open>The buffered part of \<^verbatim>\<open>modifyResponse\<close>: the response plugins, then the streaming plugins with the
  whole body as their last frame.\<close>
definition run_buffered ::
  "('w \<Rightarrow> bool) \<Rightarrow> 'w pipeline \<Rightarrow> http_response \<Rightarrow> pcontext \<Rightarrow> 'w \<Rightarrow> violation option option \<times> pcontext \<times> 'w" where
  "run_buffered ctx_err p r c w =
     (case run_response ctx_err p c w of
        (Reject v, c1, w1) \<Rightarrow> (Some v, c1, w1)
      | (Continue, c1, w1) \<Rightarrow>
          if has_streaming_responders p \<and> hs_body r \<noteq> None
          then (case run_response_frame ctx_err p (c_response_body c1) True c1 w1 of
                  (Reject v, c2, w2) \<Rightarrow> (Some v, c2, w2)
                | (Continue, c2, w2) \<Rightarrow> (None, c2, w2))
          else (None, c1, w1))"

definition modify_response ::
  "('w \<Rightarrow> bool) \<Rightarrow> ('w \<Rightarrow> time) \<Rightarrow> 'w pipeline \<Rightarrow> event_tls option \<Rightarrow> http_response \<Rightarrow> pcontext \<Rightarrow> 'w lworld \<Rightarrow>
   (modify_result \<times> pcontext \<times> 'w lworld) option" where
  "modify_response ctx_err clock p tls r c0 st =
     (let c = c0\<lparr>c_status_code := hs_status r, c_response_headers := hs_headers r\<rparr> in
      if wants_streaming p r
      then Some (ModifyStreaming (r\<lparr>hs_headers := hdr_del ''Content-Length'' (hs_headers r)\<rparr>)
             \<lparr>stb_rest = fst (the (hs_body r)), stb_end = snd (the (hs_body r)), stb_pending = [], stb_finished = False, stb_closed = False\<rparr>,
             c, st)
      else case buffer_response p r c of
          Inl e \<Rightarrow> Some (ModifyFailed e, c, st)
        | Inr (r1, c1) \<Rightarrow>
            (case run_buffered ctx_err p r1 c1 (lw_world st) of
               (Some v, c2, w2) \<Rightarrow> Some (ModifyRejected v, c2, st\<lparr>lw_world := w2\<rparr>)
             | (None, c2, w2) \<Rightarrow>
                 (let r2 = (if c_response_body_mutated c2 then with_response_body (c_response_body c2) r1 else r1)
                  in map_option (\<lambda>so. (ModifyOk r2, c2, st\<lparr>lw_store := so, lw_world := w2\<rparr>))
                       (record_buffered_response (clock w2) tls (hs_status r2) c2 (lw_store st)))))"

definition error_handler :: "modify_result \<Rightarrow> client_reply" where
  "error_handler m = (case m of ModifyRejected v \<Rightarrow> write_rejection v | _ \<Rightarrow> error_reply 502 ''bad gateway'')"

text \<open>\<^verbatim>\<open>ReverseProxy.ServeHTTP\<close> with the hooks of the server.\<close>
definition serve_proxy ::
  "('w \<Rightarrow> bool) \<Rightarrow> ('w \<Rightarrow> time) \<Rightarrow> 'w pipeline \<Rightarrow> (http_request \<Rightarrow> 'w \<Rightarrow> (string + http_response) \<times> 'w) \<Rightarrow> nat list \<Rightarrow>
   event_tls option \<Rightarrow> http_request \<Rightarrow> pcontext \<Rightarrow> 'w lworld \<Rightarrow> (client_reply \<times> pcontext \<times> 'w lworld) option" where
  "serve_proxy ctx_err clock p backend bufs tls rq c st =
     (case backend rq (lw_world st) of
        (Inl e, w1) \<Rightarrow> Some (error_handler (ModifyFailed e), c, st\<lparr>lw_world := w1\<rparr>)
      | (Inr r, w1) \<Rightarrow> do {
          (m, c1, st1) \<leftarrow> modify_response ctx_err clock p tls r c (st\<lparr>lw_world := w1\<rparr>);
          (case m of
             ModifyOk r1 \<Rightarrow> Some (copy_reply r1, c1, st1)
           | ModifyStreaming r1 b \<Rightarrow>
               (case relay_stream ctx_err p bufs b c1 (lw_world st1) of
                  (bs, trunc, b1, c2, w2) \<Rightarrow> do {
                    (_, c3, st3) \<leftarrow> stream_close ctx_err clock p tls (hs_status r1) b1 c2 (st1\<lparr>lw_world := w2\<rparr>);
                    Some (\<lparr>rp_status = hs_status r1, rp_headers = hs_headers r1, rp_body = RawDoc bs, rp_aborted = trunc\<rparr>, c3, st3) })
           | _ \<Rightarrow> Some (error_handler m, c1, st1)) })"

section \<open>Requests\<close>

definition count_accept :: "http_request \<Rightarrow> tls_metrics option \<Rightarrow> tls_metrics option" where
  "count_accept rq ms =
     map_option (\<lambda>m. case rq_tls rq of
         Some t \<Rightarrow> if cs_peers t \<noteq> [] then m\<lparr>tm_inbound_tls_accepted := Suc (tm_inbound_tls_accepted m)\<rparr> else m
       | None \<Rightarrow> m\<lparr>tm_inbound_plain_accepted := Suc (tm_inbound_plain_accepted m)\<rparr>) ms"

text \<open>What the proxy forwards after the plugins accepted the request.\<close>
definition forwarded_request :: "header \<Rightarrow> http_request \<Rightarrow> pcontext \<Rightarrow> http_request" where
  "forwarded_request original rq c =
     (let rq1 = (if c_body_mutated c then with_body (c_body c) rq else rq);
          new_auth = hdr_get (c_headers c) ''Authorization''
      in if new_auth \<noteq> hdr_get original ''Authorization''
         then rq1\<lparr>rq_headers := hdr_set ''Authorization'' new_auth (rq_headers rq1)\<rparr> else rq1)"

text \<open>\<^verbatim>\<open>handleRequest\<close> between the construction of the context and the deferred finish.\<close>
definition rv_exchange ::
  "('w \<Rightarrow> bool) \<Rightarrow> ('w \<Rightarrow> time) \<Rightarrow> 'w pipeline \<Rightarrow> (http_request \<Rightarrow> 'w \<Rightarrow> (string + http_response) \<times> 'w) \<Rightarrow> nat list \<Rightarrow>
   http_request \<Rightarrow> pcontext \<Rightarrow> 'w lworld \<Rightarrow> (client_reply \<times> http_request list \<times> pcontext \<times> 'w lworld) option" where
  "rv_exchange ctx_err clock p backend bufs rq c0 st =
     (let tls = event_tls_of (rq_tls rq) in
      case buffer_request p rq c0 of
        Inl _ \<Rightarrow> Some (error_reply 413 ''request body too large'', [], c0, st)
      | Inr (rq1, c1) \<Rightarrow>
          (case run ctx_err p c1 (lw_world st) of
             (Reject v, c2, w2) \<Rightarrow> do {
               so \<leftarrow> record_inbound_reject (clock w2) v tls c2 (lw_store st);
               Some (write_rejection v, [], c2, st\<lparr>lw_store := so, lw_world := w2\<rparr>) }
           | (Continue, c2, w2) \<Rightarrow> do {
               let rq2 = forwarded_request (c_headers c1) rq1 c2;
               so \<leftarrow> record_inbound_request (clock w2) tls c2 (lw_store st);
               (reply, c3, st3) \<leftarrow> serve_proxy ctx_err clock p backend bufs tls rq2 c2 (st\<lparr>lw_store := so, lw_world := w2\<rparr>);
               Some (reply, [rq2], c3, st3) }))"

definition rv_handle_request ::
  "('w \<Rightarrow> bool) \<Rightarrow> ('w \<Rightarrow> time) \<Rightarrow> 'w rv_server \<Rightarrow> (http_request \<Rightarrow> 'w \<Rightarrow> (string + http_response) \<times> 'w) \<Rightarrow> nat list \<Rightarrow>
   http_request \<Rightarrow> 'w lworld \<Rightarrow> (client_reply \<times> http_request list \<times> pcontext \<times> 'w lworld) option" where
  "rv_handle_request ctx_err clock srv backend bufs rq st = do {
     let c0 = (new_context Inbound (rq_method rq) (request_scheme rq) (rq_host rq) (rq_path rq) (rq_headers rq) (rv_shared srv)
                 (clock (lw_world st)))\<lparr>c_tls := map_option (\<lambda>t. map fst (cs_peers t)) (rq_tls rq)\<rparr>;
     (reply, sent, c, st1) \<leftarrow> rv_exchange ctx_err clock (rv_pipeline srv) backend bufs rq c0
       (st\<lparr>lw_metrics := count_accept rq (lw_metrics st)\<rparr>);
     (c', w') \<leftarrow> run_finish clock (rv_pipeline srv) (outcome_from_context c) c (lw_world st1);
     Some (reply, sent, c', st1\<lparr>lw_world := w'\<rparr>) }"

section \<open>Specification of the streaming relay\<close>

text \<open>Each frame is shown to the plugins and then sent, the first rejection cuts the stream off, and a last call
  without data ends it in every case.\<close>
fun relay_frames ::
  "('w \<Rightarrow> bool) \<Rightarrow> 'w pipeline \<Rightarrow> bool \<Rightarrow> bytes list \<Rightarrow> pcontext \<Rightarrow> 'w \<Rightarrow> bytes \<times> bool \<times> pcontext \<times> 'w" where
  "relay_frames ctx_err p failed [] c w = (case run_response_frame ctx_err p [] True c w of (_, c1, w1) \<Rightarrow> ([], failed, c1, w1))"
| "relay_frames ctx_err p failed (f # fs) c w =
     (case run_response_frame ctx_err p f False c w of
        (Reject _, c1, w1) \<Rightarrow> (case run_response_frame ctx_err p [] True c1 w1 of (_, c2, w2) \<Rightarrow> ([], True, c2, w2))
      | (Continue, c1, w1) \<Rightarrow>
          (case relay_frames ctx_err p failed fs c1 w1 of (bs, t, c2, w2) \<Rightarrow> (write_sse_frame f @ bs, t, c2, w2)))"

text \<open>The bytes that a stream may take on the way to the client.\<close>
definition relayed_size :: "stream_end \<Rightarrow> bytes \<Rightarrow> nat" where
  "relayed_size e s = sum_list (map (length \<circ> write_sse_frame) (fst (read_frames maxBodySize e s)))"

section \<open>Lemmas\<close>

subsection \<open>The streaming body\<close>

lemma write_sse_frame_ne: "write_sse_frame f \<noteq> []"
  by (simp add: write_sse_frame_def)

lemma relayed_size_ok:
  "read_frame maxBodySize e False [] s = FrameOk f rest \<Longrightarrow> relayed_size e s = length (write_sse_frame f) + relayed_size e rest"
  by (simp add: relayed_size_def read_frames.simps [of maxBodySize e s] case_prod_beta)

lemma relay_stream_pending:
  assumes "\<forall>n \<in> set ns. 0 < n" "length (stb_pending b) + k \<le> length ns"
  shows "\<exists>ns'. k \<le> length ns' \<and> (\<forall>n \<in> set ns'. 0 < n) \<and>
    relay_stream ce p ns b c w = (case relay_stream ce p ns' (b\<lparr>stb_pending := []\<rparr>) c w of
      (bs, t, r) \<Rightarrow> (stb_pending b @ bs, t, r))"
  using assms
proof (induction ns arbitrary: b)
  case Nil
  then show ?case by (intro exI [of _ "[]"]) (simp add: case_prod_beta)
next
  case (Cons n ns)
  show ?case
  proof (cases "stb_pending b = []")
    case True
    then have b: "b\<lparr>stb_pending := []\<rparr> = b" by (cases b) simp
    show ?thesis unfolding b using Cons.prems by (intro exI [of _ "n # ns"]) (simp add: True case_prod_beta)
  next
    case False
    let ?b = "b\<lparr>stb_pending := drop n (stb_pending b)\<rparr>"
    have "\<forall>n \<in> set ns. 0 < n" "length (stb_pending ?b) + k \<le> length ns" using Cons.prems False by (auto simp: neq_Nil_conv)
    from Cons.IH [OF this] obtain ns' where
      "k \<le> length ns'" "\<forall>n \<in> set ns'. 0 < n"
      "relay_stream ce p ns ?b c w = (case relay_stream ce p ns' (b\<lparr>stb_pending := []\<rparr>) c w of
         (bs, t, r) \<Rightarrow> (drop n (stb_pending b) @ bs, t, r))" by auto
    then show ?thesis using False by (intro exI [of _ ns']) (simp add: stream_read_def case_prod_beta)
  qed
qed

lemma relay_stream_frames:
  assumes "\<forall>n \<in> set ns. 0 < n" "relayed_size (stb_end b) (stb_rest b) < length ns" "stb_pending b = []" "\<not> stb_finished b"
  shows "\<exists>b'. relay_stream ce p ns b c w = (case relay_frames ce p (snd (read_frames maxBodySize (stb_end b) (stb_rest b)) \<noteq> None)
      (fst (read_frames maxBodySize (stb_end b) (stb_rest b))) c w of (bs, t, c', w') \<Rightarrow> (bs, t, b', c', w')) \<and>
    stb_finished b' \<and> stb_pending b' = []"
  using assms
proof (induction "length (stb_rest b)" arbitrary: b ns c w rule: less_induct)
  case less
  obtain n ns1 where ns: "ns = n # ns1" using less.prems(2) by (cases ns) auto
  let ?e = "stb_end b" and ?s = "stb_rest b"
  note rf = read_frames.simps [of maxBodySize ?e ?s]
  show ?case
  proof (cases "read_frame maxBodySize ?e False [] ?s")
    case FrameEOF
    then show ?thesis using less.prems by (simp add: rf ns stream_read_def case_prod_beta)
  next
    case (FrameErr x)
    then show ?thesis using less.prems by (simp add: rf ns stream_read_def case_prod_beta)
  next
    case (FrameOk f rest)
    obtain a c1 w1 where r: "run_response_frame ce p f False c w = (a, c1, w1)" by (metis prod_cases3)
    show ?thesis
    proof (cases a)
      case (Reject v)
      then show ?thesis using less.prems FrameOk r by (simp add: rf ns stream_read_def case_prod_beta)
    next
      case Continue
      let ?b = "b\<lparr>stb_rest := rest, stb_pending := drop n (write_sse_frame f)\<rparr>"
      have sz: "relayed_size ?e ?s = length (write_sse_frame f) + relayed_size ?e rest" by (rule relayed_size_ok [OF FrameOk])
      have arith: "l - n + Suc r \<le> length ns1" if "0 < l" "0 < n" "l + r < Suc (length ns1)" for l r using that by simp
      have "length (stb_pending ?b) + Suc (relayed_size ?e rest) \<le> length ns1"
        using arith [of "length (write_sse_frame f)" "relayed_size ?e rest"] write_sse_frame_ne less.prems(1,2) sz by (simp add: ns)
      from relay_stream_pending [OF _ this, of ce p c1 w1] obtain ns' where
        ns': "Suc (relayed_size ?e rest) \<le> length ns'" "\<forall>n \<in> set ns'. 0 < n"
        "relay_stream ce p ns1 ?b c1 w1 = (case relay_stream ce p ns' (b\<lparr>stb_rest := rest, stb_pending := []\<rparr>) c1 w1 of
           (bs, t, r) \<Rightarrow> (drop n (write_sse_frame f) @ bs, t, r))"
        using less.prems(1) by (auto simp: ns)
      have len: "length rest < length ?s" using read_frame_shorter [OF FrameOk] by simp
      have "\<exists>b'. relay_stream ce p ns' (b\<lparr>stb_rest := rest, stb_pending := []\<rparr>) c1 w1 =
          (case relay_frames ce p (snd (read_frames maxBodySize ?e rest) \<noteq> None) (fst (read_frames maxBodySize ?e rest)) c1 w1 of
             (bs, t, c', w') \<Rightarrow> (bs, t, b', c', w')) \<and> stb_finished b' \<and> stb_pending b' = []"
        using less.hyps [of "b\<lparr>stb_rest := rest, stb_pending := []\<rparr>" ns' c1 w1] ns'(1,2) len less.prems(4) by (simp add: case_prod_beta)
      then obtain b' where
        "relay_stream ce p ns' (b\<lparr>stb_rest := rest, stb_pending := []\<rparr>) c1 w1 =
          (case relay_frames ce p (snd (read_frames maxBodySize ?e rest) \<noteq> None) (fst (read_frames maxBodySize ?e rest)) c1 w1 of
             (bs, t, c', w') \<Rightarrow> (bs, t, b', c', w'))" "stb_finished b'" "stb_pending b' = []" by blast
      then show ?thesis using less.prems(3,4) FrameOk r Continue ns'(3)
        by (intro exI [of _ b']) (simp add: rf ns stream_read_def case_prod_beta)
    qed
  qed
qed

text \<open>Claim C17. The streaming body of the reverse proxy is exact, however the client reads it: with any buffer sizes,
  once enough reads were made, the client has received the re-framed events of the upstream in order, byte for
  byte, every event was shown to the plugins exactly once before its first byte was sent, the first event that a
  plugin rejects and everything after it stay behind, and the plugins were told once, at the end, that the
  stream is over. Enough reads are one more than the bytes to be sent.\<close>
theorem streaming_relay_exact:
  fixes e :: stream_end and s :: bytes
  assumes "\<forall>n \<in> set bufs. 0 < n" "relayed_size e s < length bufs"
  defines "b \<equiv> \<lparr>stb_rest = s, stb_end = e, stb_pending = [], stb_finished = False, stb_closed = False\<rparr>"
  shows "\<exists>b'. relay_stream ce p bufs b c w =
      (case relay_frames ce p (snd (read_frames maxBodySize e s) \<noteq> None) (fst (read_frames maxBodySize e s)) c w of
         (bs, trunc, c', w') \<Rightarrow> (bs, trunc, b', c', w')) \<and> stb_finished b' \<and> stb_pending b' = []"
  using relay_stream_frames [OF assms(1), of b ce p c w] assms(2) by (simp add: b_def)

lemma sample_relay:
  "read_frames maxBodySize StreamEOF (concat (map write_sse_frame [''a'', ''bc''])) = ([''a'', ''bc''], None)"
  by (rule read_written_frames) (simp add: relayable_def maxBodySize_def)

lemma sample_relay_size: "relayed_size StreamEOF (concat (map write_sse_frame [''a'', ''bc''])) = 19"
  unfolding relayed_size_def sample_relay by code_simp

theorem streaming_relay_exact_witness:
  "\<exists>b'. relay_stream (\<lambda>_. False) (chain [] [] :: unit pipeline) (replicate 20 3)
     \<lparr>stb_rest = concat (map write_sse_frame [''a'', ''bc'']), stb_end = StreamEOF, stb_pending = [], stb_finished = False,
      stb_closed = False\<rparr> fresh_context () =
     (write_sse_frame ''a'' @ write_sse_frame ''bc'', False, b', fresh_context, ()) \<and> stb_finished b'"
  using streaming_relay_exact [of "replicate 20 3" StreamEOF "concat (map write_sse_frame [''a'', ''bc''])" "\<lambda>_. False"
      "chain [] [] :: unit pipeline" fresh_context "()"]
  by (auto simp del: list.map concat.simps simp: sample_relay_size sample_relay run_response_frame_def chain_def)

subsection \<open>What reaches the backend\<close>

lemma rv_exchange_sent:
  assumes "rv_exchange ce clock p backend bufs rq c0 st = Some (reply, sent, c, st')"
  shows "sent = [] \<or> (\<exists>rq1 c1 c2 w2. buffer_request p rq c0 = Inr (rq1, c1) \<and>
     run ce p c1 (lw_world st) = (Continue, c2, w2) \<and> sent = [forwarded_request (c_headers c1) rq1 c2])"
  using assms
  by (auto simp: rv_exchange_def Let_def bind_eq_Some_conv split: sum.splits action.splits prod.splits)

lemma buffer_request_frame:
  assumes "buffer_request p rq c = Inr (rq1, c1)"
  shows "c_headers c1 = c_headers c" "c_path c1 = c_path c" "c_host c1 = c_host c" "rq_headers rq1 = rq_headers rq"
  using assms by (auto simp: buffer_request_def split: option.splits if_splits sum.splits)

text \<open>Whatever the plugins did, the credential that is forwarded is the one of the context.\<close>
lemma forwarded_auth:
  "hdr_get (rq_headers (forwarded_request (rq_headers rq) rq c)) ''Authorization'' = hdr_get (c_headers c) ''Authorization''"
  by (auto simp: forwarded_request_def with_body_def hdr_get_def hdr_set_def hdr_del_def Let_def)

text \<open>The body that is forwarded is the one a plugin set, or the one of the request.\<close>
lemma forwarded_body:
  "rq_body (forwarded_request h rq c) = (if c_body_mutated c then Some (c_body c, StreamEOF) else rq_body rq)"
  by (simp add: forwarded_request_def with_body_def Let_def)

end
