(* ===== verification/Tls_Bridge.thy ===== *)
theory Tls_Bridge
  imports Go_Prelude
begin

text \<open>
  The TLS bridge of the forward proxy (\<^verbatim>\<open>authlib/tlsbridge\<close>): the decision which
  connections to bridge and the set of hosts that are skipped at run time
  (\<^verbatim>\<open>decision.go\<close>), and the cache of minted certificates (\<^verbatim>\<open>minter.go\<close>).

  The serial number and the signature of a certificate are a parameter \<^verbatim>\<open>sign\<close> on
  templates.  An element of the linked list of the cache is named by a number, as the
  map of the cache refers to elements.
\<close>

section \<open>Decision\<close>

datatype verdict = Passthrough | Terminate

record bridge_decision =
  bd_ports :: "(int, bool) gomap"
  bd_skip :: "(string, bool) gomap"

definition new_decision :: "(int, bool) gomap option \<Rightarrow> string list \<Rightarrow> bridge_decision" where
  "new_decision ports skip_hosts =
     \<lparr>bd_ports = (case ports of None \<Rightarrow> [(443, True), (8443, True)] | Some m \<Rightarrow> m),
      bd_skip = fold (\<lambda>h. gm_put h True) skip_hosts []\<rparr>"

definition handles_port :: "bridge_decision \<Rightarrow> int \<Rightarrow> bool" where
  "handles_port d port = gm_get_or False (bd_ports d) port"

definition looks_like_tls_record :: "bytes \<Rightarrow> bool" where
  "looks_like_tls_record b =
     (length b \<ge> 5 \<and> b ! 0 = CHR 0x16 \<and> b ! 1 = CHR 0x03 \<and> 1 \<le> (of_char (b ! 2) :: nat) \<and> (of_char (b ! 2) :: nat) \<le> 4)"

definition classify :: "bridge_decision \<Rightarrow> string \<Rightarrow> int \<Rightarrow> bytes \<Rightarrow> verdict \<times> string" where
  "classify d host port first =
     (if \<not> handles_port d port then (Passthrough, ''port'')
      else if \<not> looks_like_tls_record first then (Passthrough, ''non-tls'')
      else if gm_get_or False (bd_skip d) host then (Passthrough, ''skip'')
      else (Terminate, ''''))"

section \<open>Skipped hosts\<close>

record skip_set =
  sk_ttl :: time
  sk_max :: nat
  sk_hosts :: "(string, time) gomap"

definition skipTTL :: time where "skipTTL = 10 * 60 * 1000000000"
definition skipMax :: nat where "skipMax = 4096"

definition new_skip_set :: skip_set where
  "new_skip_set = \<lparr>sk_ttl = skipTTL, sk_max = skipMax, sk_hosts = []\<rparr>"

text \<open>The sweep over a full set: what is left of the map, and the entry that expires first.\<close>
fun skip_sweep :: "time \<Rightarrow> (string, time) gomap \<Rightarrow> string \<times> time \<Rightarrow> (string, time) gomap \<times> string \<times> time" where
  "skip_sweep now [] acc = ([], acc)"
| "skip_sweep now ((k, t) # m) (ok, ot) =
     (if \<not> t > now then skip_sweep now m (ok, ot)
      else case skip_sweep now m (if ok = '''' \<or> t < ot then (k, t) else (ok, ot)) of (m', acc) \<Rightarrow> ((k, t) # m', acc))"

definition skip_add :: "time \<Rightarrow> string \<Rightarrow> skip_set \<Rightarrow> skip_set" where
  "skip_add now host s =
     (let m = (if length (sk_hosts s) \<ge> sk_max s
               then (case skip_sweep now (sk_hosts s) ('''', 0) of
                       (m1, ok, _) \<Rightarrow> if length m1 \<ge> sk_max s \<and> ok \<noteq> '''' then gm_del ok m1 else m1)
               else sk_hosts s)
      in s\<lparr>sk_hosts := gm_put host (now + sk_ttl s) m\<rparr>)"

definition skip_contains :: "time \<Rightarrow> string \<Rightarrow> skip_set \<Rightarrow> bool" where
  "skip_contains now host s = (case gm_get (sk_hosts s) host of None \<Rightarrow> False | Some t \<Rightarrow> now < t)"

section \<open>IP literals\<close>

text \<open>\<^verbatim>\<open>net.ParseIP\<close> on dotted decimal: the four bytes.\<close>
definition parse_ipv4 :: "string \<Rightarrow> nat list option" where
  "parse_ipv4 s =
     (let ps = split_on CHR ''.'' s in
      if length ps = 4 \<and>
         list_all (\<lambda>p. p \<noteq> [] \<and> list_all is_digit p \<and> (length p = 1 \<or> hd p \<noteq> CHR ''0'') \<and> digits_val p \<le> 255) ps
      then Some (map digits_val ps) else None)"

definition hex_digit :: "char \<Rightarrow> nat option" where
  "hex_digit c =
     (if is_digit c then Some (of_char c - 48)
      else if c \<in> set ''abcdef'' then Some (of_char c - 87)
      else if c \<in> set ''ABCDEF'' then Some (of_char c - 55) else None)"

text \<open>One to four hexadecimal digits.\<close>
definition parse_h16 :: "string \<Rightarrow> nat option" where
  "parse_h16 p =
     (if p = [] \<or> length p > 4 then None
      else foldl (\<lambda>a c. case (a, hex_digit c) of (Some n, Some d) \<Rightarrow> Some (16 * n + d) | _ \<Rightarrow> None) (Some 0) p)"

text \<open>The 16-bit units of a list of groups; \<^verbatim>\<open>v4\<close> says that the last may be dotted.\<close>
fun ip_units :: "bool \<Rightarrow> string list \<Rightarrow> nat list option" where
  "ip_units v4 [] = Some []"
| "ip_units v4 (g # gs) =
     (case parse_h16 g of
        Some u \<Rightarrow> map_option (Cons u) (ip_units v4 gs)
      | None \<Rightarrow>
          if v4 \<and> gs = []
          then (case parse_ipv4 g of Some [a, b, c, d] \<Rightarrow> Some [256 * a + b, 256 * c + d] | _ \<Rightarrow> None)
          else None)"

text \<open>The text before and after the first gap.\<close>
fun split_gap :: "string \<Rightarrow> (string \<times> string) option" where
  "split_gap (a # b # s) =
     (if a = CHR '':'' \<and> b = CHR '':'' then Some ([], s)
      else map_option (\<lambda>(l, r). (a # l, r)) (split_gap (b # s)))"
| "split_gap _ = None"

definition ip_groups :: "string \<Rightarrow> string list" where
  "ip_groups s = (if s = [] then [] else split_on CHR '':'' s)"

text \<open>Colon-separated groups with at most one gap: the eight units.\<close>
definition parse_ipv6 :: "string \<Rightarrow> nat list option" where
  "parse_ipv6 s =
     (case split_gap s of
        None \<Rightarrow> (case ip_units True (split_on CHR '':'' s) of Some us \<Rightarrow> if length us = 8 then Some us else None | None \<Rightarrow> None)
      | Some (l, r) \<Rightarrow>
          (case (ip_units False (ip_groups l), ip_units True (ip_groups r)) of
             (Some us, Some vs) \<Rightarrow>
               if length us + length vs \<le> 7 then Some (us @ replicate (8 - length us - length vs) 0 @ vs) else None
           | _ \<Rightarrow> None))"

text \<open>\<^verbatim>\<open>net.ParseIP\<close> as eight units; a dotted address is the mapped one.\<close>
definition parse_ip :: "string \<Rightarrow> nat list option" where
  "parse_ip s =
     (case find (\<lambda>c. c \<in> set ''.:%'') s of
        None \<Rightarrow> None
      | Some c \<Rightarrow>
          if c = CHR ''.''
          then (case parse_ipv4 s of Some [a, b, c, d] \<Rightarrow> Some [0, 0, 0, 0, 0, 65535, 256 * a + b, 256 * c + d] | _ \<Rightarrow> None)
          else if c = CHR '':'' then parse_ipv6 s else None)"

text \<open>\<^verbatim>\<open>IP.IsLoopback\<close>: 127.0.0.0/8 for a mapped address, otherwise the address one.\<close>
definition is_loopback :: "nat list \<Rightarrow> bool" where
  "is_loopback us =
     (if take 6 us = [0, 0, 0, 0, 0, 65535] then us ! 6 div 256 = 127 else us = [0, 0, 0, 0, 0, 0, 0, 1])"

section \<open>Minted certificates\<close>

text \<open>The template of a leaf: its subject, its validity and its names.\<close>
record leaf =
  lf_subject :: string
  lf_not_before :: time
  lf_not_after :: time
  lf_ips :: "string list"
  lf_dns :: "string list"

record 'c cache_entry =
  ce_host :: string
  ce_cert :: 'c
  ce_expires :: time

text \<open>The elements of the list, most recent first, and the element of each host.\<close>
record 'c minter =
  mn_max :: nat
  mn_ttl :: time
  mn_ll :: "(nat \<times> 'c cache_entry) list"
  mn_items :: "(string, nat) gomap"
  mn_next :: nat

definition new_minter :: "int \<Rightarrow> time \<Rightarrow> 'c minter" where
  "new_minter cache_max leaf_ttl =
     \<lparr>mn_max = (if cache_max \<le> 0 then 1024 else nat cache_max), mn_ttl = (if leaf_ttl \<le> 0 then 24 * 3600 * 1000000000 else leaf_ttl),
      mn_ll = [], mn_items = [], mn_next = 0\<rparr>"

definition leaf_template :: "time \<Rightarrow> time \<Rightarrow> string \<Rightarrow> leaf" where
  "leaf_template now ttl host =
     \<lparr>lf_subject = host, lf_not_before = now - 60 * 1000000000, lf_not_after = now + (ttl + 3600 * 1000000000),
      lf_ips = (if parse_ip host \<noteq> None then [host] else []), lf_dns = (if parse_ip host \<noteq> None then [] else [host])\<rparr>"

definition mint :: "(leaf \<Rightarrow> string + 'c) \<Rightarrow> time \<Rightarrow> string \<Rightarrow> 'c minter \<Rightarrow> string + 'c" where
  "mint sign now host m = sign (leaf_template now (mn_ttl m) host)"

definition ll_remove :: "nat \<Rightarrow> (nat \<times> 'c cache_entry) list \<Rightarrow> (nat \<times> 'c cache_entry) list" where
  "ll_remove el l = filter (\<lambda>x. fst x \<noteq> el) l"

text \<open>The loop that drops elements from the back.\<close>
function evict_back :: "nat \<Rightarrow> (nat \<times> 'c cache_entry) list \<Rightarrow> (string, nat) gomap \<Rightarrow> (nat \<times> 'c cache_entry) list \<times> (string, nat) gomap" where
  "evict_back n l items =
     (if length l > n then evict_back n (butlast l) (gm_del (ce_host (snd (last l))) items) else (l, items))"
  by pat_completeness auto
termination by (relation "measure (\<lambda>(n, l, items). length l)") auto

declare evict_back.simps [simp del]

text \<open>The second part of \<^verbatim>\<open>GetCertificateForHost\<close>: a miss.\<close>
definition mint_into :: "time \<Rightarrow> (leaf \<Rightarrow> string + 'c) \<Rightarrow> string \<Rightarrow> 'c minter \<Rightarrow> (string + 'c) \<times> 'c minter" where
  "mint_into now sign host m =
     (case mint sign now host m of
        Inl e \<Rightarrow> (Inl e, m)
      | Inr cert \<Rightarrow>
          (case evict_back (mn_max m)
                  ((mn_next m, \<lparr>ce_host = host, ce_cert = cert, ce_expires = now + mn_ttl m\<rparr>) # mn_ll m)
                  (gm_put host (mn_next m) (mn_items m)) of
             (l, items) \<Rightarrow> (Inr cert, m\<lparr>mn_ll := l, mn_items := items, mn_next := Suc (mn_next m)\<rparr>)))"

text \<open>The element that the map names is in the list, as the invariant below shows.\<close>
definition get_certificate_for_host :: "time \<Rightarrow> (leaf \<Rightarrow> string + 'c) \<Rightarrow> string \<Rightarrow> 'c minter \<Rightarrow> (string + 'c) \<times> 'c minter" where
  "get_certificate_for_host now sign host m =
     (case gm_get (mn_items m) host of
        None \<Rightarrow> mint_into now sign host m
      | Some el \<Rightarrow>
          (case gm_get (mn_ll m) el of
             None \<Rightarrow> mint_into now sign host m
           | Some e \<Rightarrow>
               if now < ce_expires e
               then (Inr (ce_cert e), m\<lparr>mn_ll := (el, e) # ll_remove el (mn_ll m)\<rparr>)
               else mint_into now sign host (m\<lparr>mn_ll := ll_remove el (mn_ll m), mn_items := gm_del host (mn_items m)\<rparr>)))"

text \<open>\<^verbatim>\<open>GetCertificate\<close>: a handshake without a server name has no certificate.\<close>
definition get_certificate :: "time \<Rightarrow> (leaf \<Rightarrow> string + 'c) \<Rightarrow> string \<Rightarrow> 'c minter \<Rightarrow> (string + 'c) \<times> 'c minter" where
  "get_certificate now sign server_name m =
     (if server_name = '''' then (Inl ''tlsbridge: no SNI; caller must use GetCertificateForHost with the dialed IP'', m)
      else get_certificate_for_host now sign server_name m)"

text \<open>The certificate of \<^verbatim>\<open>Terminate\<close>: for the name of the handshake, or the dialed host.\<close>
definition terminator_certificate :: "time \<Rightarrow> (leaf \<Rightarrow> string + 'c) \<Rightarrow> string \<Rightarrow> string \<Rightarrow> 'c minter \<Rightarrow> (string + 'c) \<times> 'c minter" where
  "terminator_certificate now sign server_name host m =
     (if server_name \<noteq> '''' then get_certificate_for_host now sign server_name m else get_certificate_for_host now sign host m)"

section \<open>Specification and sample inputs\<close>

text \<open>The hosts of the cache, most recent first.\<close>
definition mn_hosts :: "'c minter \<Rightarrow> string list" where
  "mn_hosts m = map (ce_host \<circ> snd) (mn_ll m)"

text \<open>The map of hosts is the list, read by host.\<close>
definition linked :: "(nat \<times> 'c cache_entry) list \<Rightarrow> (string, nat) gomap \<Rightarrow> bool" where
  "linked l items \<longleftrightarrow> distinct (map (ce_host \<circ> snd) l) \<and> gm_ok items \<and> set items = (\<lambda>(el, e). (ce_host e, el)) ` set l"

definition good_leaf :: "(leaf \<Rightarrow> 'c \<Rightarrow> bool) \<Rightarrow> time \<Rightarrow> string \<Rightarrow> 'c \<Rightarrow> bool" where
  "good_leaf issued now h c \<longleftrightarrow>
     (\<exists>t. issued t c \<and> lf_subject t = h \<and> lf_ips t @ lf_dns t = [h] \<and> lf_not_before t \<le> now \<and> now < lf_not_after t)"

text \<open>Elements are distinct and named by old numbers, the cache is within its bound, and every certificate is good
  until its entry expires.\<close>
definition minter_inv :: "(leaf \<Rightarrow> 'c \<Rightarrow> bool) \<Rightarrow> time \<Rightarrow> 'c minter \<Rightarrow> bool" where
  "minter_inv issued now m \<longleftrightarrow> gm_ok (mn_ll m) \<and> linked (mn_ll m) (mn_items m) \<and> length (mn_ll m) \<le> mn_max m \<and>
     (\<forall>(el, e) \<in> set (mn_ll m). el < mn_next m \<and>
        (\<forall>t. now \<le> t \<longrightarrow> t < ce_expires e \<longrightarrow> good_leaf issued t (ce_host e) (ce_cert e)))"

text \<open>The abstract cache: a host that is used moves to the front, and what exceeds the bound is forgotten.\<close>
definition touch :: "string \<Rightarrow> string list \<Rightarrow> string list" where
  "touch h hs = h # removeAll h hs"

text \<open>The hosts of a history, the most recently used first.\<close>
definition recent :: "string list \<Rightarrow> string list" where
  "recent hs = fold touch hs []"

text \<open>A sequence of requests, each with its time and the signing of that moment.\<close>
type_synonym 'c cert_request = "time \<times> (leaf \<Rightarrow> string + 'c) \<times> string"

fun serve_all :: "'c cert_request list \<Rightarrow> 'c minter \<Rightarrow> (string + 'c) list \<times> 'c minter" where
  "serve_all [] m = ([], m)"
| "serve_all ((now, sign, h) # qs) m =
     (case get_certificate_for_host now sign h m of
        (r, m1) \<Rightarrow> (case serve_all qs m1 of (rs, m2) \<Rightarrow> (r # rs, m2)))"

text \<open>A history of requests at times that do not go back, all of them signed.\<close>
definition cert_history :: "(leaf \<Rightarrow> 'c \<Rightarrow> bool) \<Rightarrow> 'c cert_request list \<Rightarrow> bool" where
  "cert_history issued qs \<longleftrightarrow> sorted (map fst qs) \<and> (\<forall>(now, sign, h) \<in> set qs. \<forall>t. \<exists>c. sign t = Inr c \<and> issued t c)"

text \<open>A signer that returns the template, and three handshakes with a cache of two.\<close>
definition sample_handshakes :: "leaf cert_request list" where
  "sample_handshakes = [(0, Inr, ''a''), (5, Inr, ''10.0.0.1''), (7, Inr, ''a''), (9, Inr, ''b'')]"

section \<open>Lemmas\<close>

text \<open>Certificate \<^verbatim>\<open>c\<close> may be shown for a host at a time: it was issued for that host alone, and it is valid.\<close>
subsection \<open>The list and the map\<close>

lemma linked_remove:
  assumes l: "linked l items" and ok: "gm_ok l" and m: "(el, e) \<in> set l"
  shows "linked (ll_remove el l) (gm_del (ce_host e) items)"
    and "map (ce_host \<circ> snd) (ll_remove el l) = removeAll (ce_host e) (map (ce_host \<circ> snd) l)"
proof -
  have inj: "inj_on (ce_host \<circ> snd) (set l)" "inj_on fst (set l)"
    using l ok by (simp_all add: linked_def distinct_map)
  have k: "fst x \<noteq> el \<longleftrightarrow> ce_host (snd x) \<noteq> ce_host e" if "x \<in> set l" for x
    using inj_onD [OF inj(1) _ that m] inj_onD [OF inj(2) _ that m] by (cases x) auto
  have f: "ll_remove el l = filter (\<lambda>x. ce_host (snd x) \<noteq> ce_host e) l"
    unfolding ll_remove_def by (rule filter_cong [OF refl]) (rule k)
  have "set (gm_del (ce_host e) items) = (\<lambda>(el, e). (ce_host e, el)) ` set (ll_remove el l)"
    unfolding f gm_del_filter using l by (auto simp: linked_def)
  then show "linked (ll_remove el l) (gm_del (ce_host e) items)"
    using l by (simp add: linked_def f distinct_map_filter)
  show "map (ce_host \<circ> snd) (ll_remove el l) = removeAll (ce_host e) (map (ce_host \<circ> snd) l)"
    unfolding f by (simp add: removeAll_filter_not_eq filter_map comp_def eq_commute)
qed

lemma linked_butlast:
  assumes "linked l items" "gm_ok l" "l \<noteq> []"
  shows "linked (butlast l) (gm_del (ce_host (snd (last l))) items)"
proof -
  obtain xs el e where l: "l = xs @ [(el, e)]" using assms(3) by (metis rev_exhaust surj_pair)
  have "ll_remove el l = xs" using assms(2) by (force simp: l ll_remove_def filter_id_conv)
  then show ?thesis using linked_remove(1) [OF assms(1,2), of el e] by (simp add: l)
qed

lemma gm_ok_butlast: "gm_ok l \<Longrightarrow> gm_ok (butlast l)"
  by (simp add: map_butlast distinct_butlast)

lemma evict_back_linked:
  "linked l items \<Longrightarrow> gm_ok l \<Longrightarrow> \<exists>items'. evict_back n l items = (take n l, items') \<and> linked (take n l) items'"
proof (induction n l items rule: evict_back.induct)
  case (1 n l items)
  show ?case
  proof (cases "length l > n")
    case True
    then have t: "take n (butlast l) = take n l" and ne: "l \<noteq> []" by (auto simp: take_butlast)
    show ?thesis
      using "1.IH" [OF True linked_butlast [OF 1(2,3) ne] gm_ok_butlast [OF 1(3)]] True
      by (simp add: evict_back.simps [of n l items] t)
  qed (use 1 in \<open>simp add: evict_back.simps [of n l items]\<close>)
qed

lemma linked_get:
  assumes "linked l items"
  shows "gm_get items h = Some el \<longleftrightarrow> (\<exists>e. (el, e) \<in> set l \<and> ce_host e = h)"
proof -
  have "gm_get items h = Some el \<longleftrightarrow> (h, el) \<in> set items" using assms by (simp add: linked_def)
  then show ?thesis using assms by (force simp: linked_def image_iff)
qed

lemma linked_get_None:
  "linked l items \<Longrightarrow> gm_get items h = None \<longleftrightarrow> h \<notin> set (map (ce_host \<circ> snd) l)"
  by (simp add: linked_def gm_get_None_iff image_image case_prod_unfold)

lemma linked_push:
  assumes "linked l items" "ce_host e \<notin> set (map (ce_host \<circ> snd) l)"
  shows "linked ((el, e) # l) (gm_put (ce_host e) el items)"
proof -
  have "ce_host e \<notin> fst ` set items" using assms by (auto simp: linked_def image_image case_prod_unfold)
  then have "set (gm_put (ce_host e) el items) = insert (ce_host e, el) (set items)"
    by (induction items) (auto split: prod.splits)
  then show ?thesis using assms by (simp add: linked_def)
qed

subsection \<open>The abstract cache\<close>

lemma set_touch: "set (touch h hs) = insert h (set hs)"
  by (auto simp: touch_def)

lemma distinct_touch: "distinct hs \<Longrightarrow> distinct (touch h hs)"
  by (simp add: touch_def distinct_removeAll)

lemma take_removeAll_take:
  "distinct hs \<Longrightarrow> take n (removeAll h (take (Suc n) hs)) = take n (removeAll h hs)"
proof (induction hs arbitrary: n)
  case (Cons x hs)
  then show ?case
  proof (cases "x = h")
    case True
    then have "h \<notin> set hs" "h \<notin> set (take n hs)" using Cons.prems by (auto dest: in_set_takeD)
    then show ?thesis by (simp add: True)
  next
    case False
    then show ?thesis using Cons by (cases n) auto
  qed
qed simp

lemma touch_take: "distinct hs \<Longrightarrow> take n (touch h (take n hs)) = take n (touch h hs)"
  by (cases n) (simp_all add: touch_def take_removeAll_take)

lemma distinct_recent: "distinct hs0 \<Longrightarrow> distinct (fold touch hs hs0)"
  by (induction hs arbitrary: hs0) (simp_all add: distinct_touch)

subsection \<open>One request\<close>

lemma good_template:
  assumes "issued (leaf_template now ttl h) c" "now \<le> t" "t < now + ttl"
  shows "good_leaf issued t h c"
  unfolding good_leaf_def using assms by (intro exI [of _ "leaf_template now ttl h"]) (simp add: leaf_template_def)

lemma minter_inv_later: "minter_inv issued now m \<Longrightarrow> now \<le> now' \<Longrightarrow> minter_inv issued now' m"
  by (force simp: minter_inv_def)

lemma good_template_now: "issued (leaf_template now ttl h) c \<Longrightarrow> 0 < ttl \<Longrightarrow> good_leaf issued now h c"
  using good_template [of issued now ttl h c now] by simp

lemma mint_into_step:
  assumes inv: "minter_inv issued now m" and miss: "h \<notin> set (mn_hosts m)"
    and sign: "\<And>t c. sign t = Inr c \<Longrightarrow> issued t c" and c: "mint sign now h m = Inr c" and ttl: "0 < mn_ttl m"
  shows "\<exists>m'. mint_into now sign h m = (Inr c, m') \<and> minter_inv issued now m' \<and> mn_max m' = mn_max m \<and> mn_ttl m' = mn_ttl m \<and>
     mn_hosts m' = take (mn_max m) (touch h (mn_hosts m)) \<and> good_leaf issued now h c"
proof -
  define e where "e = \<lparr>ce_host = h, ce_cert = c, ce_expires = now + mn_ttl m\<rparr>"
  define l where "l = (mn_next m, e) # mn_ll m"
  have i: "issued (leaf_template now (mn_ttl m) h) c" using sign c by (simp add: mint_def)
  have ok: "gm_ok l" using inv by (force simp: minter_inv_def l_def)
  have "linked l (gm_put h (mn_next m) (mn_items m))"
    using linked_push [of "mn_ll m" "mn_items m" e] inv miss by (simp add: minter_inv_def l_def e_def mn_hosts_def)
  from evict_back_linked [OF this ok, of "mn_max m"] obtain items' where
    ev: "evict_back (mn_max m) l (gm_put h (mn_next m) (mn_items m)) = (take (mn_max m) l, items')"
    and ln: "linked (take (mn_max m) l) items'" by blast
  define m' where "m' = m\<lparr>mn_ll := take (mn_max m) l, mn_items := items', mn_next := Suc (mn_next m)\<rparr>"
  have all: "\<forall>(el, e) \<in> set l. el < Suc (mn_next m) \<and>
        (\<forall>t. now \<le> t \<longrightarrow> t < ce_expires e \<longrightarrow> good_leaf issued t (ce_host e) (ce_cert e))"
    using inv good_template [of issued, OF i] by (fastforce simp: l_def e_def minter_inv_def)
  have "minter_inv issued now m'"
    using ln ok all by (auto simp: minter_inv_def m'_def take_map [symmetric] dest: in_set_takeD)
  moreover have "mn_hosts m' = take (mn_max m) (touch h (mn_hosts m))"
    using miss by (simp add: mn_hosts_def m'_def l_def e_def touch_def take_map [symmetric])
  ultimately show ?thesis
    using c ev good_template_now [of issued, OF i ttl] by (simp add: mint_into_def m'_def l_def e_def)
qed

lemma hit_step:
  assumes inv: "minter_inv issued now m" and m: "(el, e) \<in> set (mn_ll m)"
  shows "minter_inv issued now (m\<lparr>mn_ll := (el, e) # ll_remove el (mn_ll m)\<rparr>)"
    and "mn_hosts (m\<lparr>mn_ll := (el, e) # ll_remove el (mn_ll m)\<rparr>) = touch (ce_host e) (mn_hosts m)"
proof -
  have l: "linked (mn_ll m) (mn_items m)" and ok: "gm_ok (mn_ll m)" using inv by (simp_all add: minter_inv_def)
  note r = linked_remove [OF l ok m]
  show h: "mn_hosts (m\<lparr>mn_ll := (el, e) # ll_remove el (mn_ll m)\<rparr>) = touch (ce_host e) (mn_hosts m)"
    using r(2) by (simp add: mn_hosts_def touch_def)
  have s: "set ((el, e) # ll_remove el (mn_ll m)) = set (mn_ll m)"
    using m by (auto simp: ll_remove_def dest: eq_key_imp_eq_value [OF ok m])
  have ok': "gm_ok ((el, e) # ll_remove el (mn_ll m))"
    using ok by (auto simp: ll_remove_def distinct_map_filter)
  have len: "length ((el, e) # ll_remove el (mn_ll m)) = length (mn_ll m)"
    using distinct_card [OF ok'] distinct_card [OF ok] s by (metis length_map list.set_map)
  have d: "distinct (map (ce_host \<circ> snd) ((el, e) # ll_remove el (mn_ll m)))"
    using l r(2) by (simp add: linked_def distinct_removeAll)
  have "minter_inv issued now (m\<lparr>mn_ll := l'\<rparr>)"
    if "gm_ok l'" "distinct (map (ce_host \<circ> snd) l')" "set l' = set (mn_ll m)" "length l' = length (mn_ll m)" for l'
    using inv that by (simp add: minter_inv_def linked_def)
  from this [OF ok' d s len] show "minter_inv issued now (m\<lparr>mn_ll := (el, e) # ll_remove el (mn_ll m)\<rparr>)" .
qed

lemma expired_step:
  assumes inv: "minter_inv issued now m" and m: "(el, e) \<in> set (mn_ll m)"
  defines "m' \<equiv> m\<lparr>mn_ll := ll_remove el (mn_ll m), mn_items := gm_del (ce_host e) (mn_items m)\<rparr>"
  shows "minter_inv issued now m'" and "mn_hosts m' = removeAll (ce_host e) (mn_hosts m)"
proof -
  have l: "linked (mn_ll m) (mn_items m)" and ok: "gm_ok (mn_ll m)" using inv by (simp_all add: minter_inv_def)
  note r = linked_remove [OF l ok m]
  show "mn_hosts m' = removeAll (ce_host e) (mn_hosts m)" using r(2) by (simp add: mn_hosts_def m'_def)
  show "minter_inv issued now m'"
    using inv r(1) by (auto simp: minter_inv_def m'_def ll_remove_def distinct_map_filter intro: order_trans [OF length_filter_le])
qed

lemma get_certificate_step:
  assumes inv: "minter_inv issued now m" and sign: "\<And>t. \<exists>c. sign t = Inr c \<and> issued t c" and ttl: "0 < mn_ttl m"
  shows "\<exists>c m'. get_certificate_for_host now sign h m = (Inr c, m') \<and> minter_inv issued now m' \<and> mn_max m' = mn_max m \<and>
     mn_ttl m' = mn_ttl m \<and> mn_hosts m' = take (mn_max m) (touch h (mn_hosts m)) \<and> good_leaf issued now h c"
proof (cases "gm_get (mn_items m) h")
  have s: "\<And>t c. sign t = Inr c \<Longrightarrow> issued t c" using sign by (metis Inr_inject)
  have l: "linked (mn_ll m) (mn_items m)" and ok: "gm_ok (mn_ll m)" using inv by (simp_all add: minter_inv_def)
  {
    case None
    then have n: "h \<notin> set (mn_hosts m)" using linked_get_None [OF l, of h] by (simp add: mn_hosts_def)
    obtain c where "mint sign now h m = Inr c" using sign by (auto simp: mint_def)
    from mint_into_step [of issued, OF inv n s this ttl] None show ?thesis
      by (auto simp: get_certificate_for_host_def)
  next
    case (Some el)
    then obtain e where e: "(el, e) \<in> set (mn_ll m)" "ce_host e = h" using linked_get [OF l] by blast
    have g: "gm_get (mn_ll m) el = Some e" using ok e(1) by simp
    show ?thesis
    proof (cases "now < ce_expires e")
      case True
      have "good_leaf issued now h (ce_cert e)" using inv e True by (fastforce simp: minter_inv_def)
      moreover have "length (mn_hosts (m\<lparr>mn_ll := (el, e) # ll_remove el (mn_ll m)\<rparr>)) \<le> mn_max m"
        using hit_step(1) [OF inv e(1)] by (simp add: minter_inv_def mn_hosts_def)
      ultimately show ?thesis
        using Some g True hit_step [OF inv e(1)] e(2) by (simp add: get_certificate_for_host_def)
    next
      case False
      define m1 where "m1 = m\<lparr>mn_ll := ll_remove el (mn_ll m), mn_items := gm_del h (mn_items m)\<rparr>"
      note x = expired_step [OF inv e(1), unfolded e(2), folded m1_def]
      obtain c where "mint sign now h m1 = Inr c" using sign by (auto simp: mint_def)
      from mint_into_step [of issued, OF x(1) _ s this] show ?thesis
        using Some g False ttl x(2) by (auto simp: get_certificate_for_host_def m1_def touch_def)
    qed
  }
qed

lemma serve_all_refines:
  assumes "cert_history issued qs" "\<And>q. q \<in> set qs \<Longrightarrow> now \<le> fst q" "minter_inv issued now m" "0 < mn_ttl m"
    and "distinct hs" "mn_hosts m = take (mn_max m) hs"
  shows "mn_hosts (snd (serve_all qs m)) = take (mn_max m) (fold touch (map (snd \<circ> snd) qs) hs) \<and>
     linked (mn_ll (snd (serve_all qs m))) (mn_items (snd (serve_all qs m))) \<and>
     list_all2 (\<lambda>(now, sign, h) r. \<exists>c. r = Inr c \<and> good_leaf issued now h c) qs (fst (serve_all qs m))"
  using assms
proof (induction qs arbitrary: now m hs)
  case Nil
  then show ?case by (simp add: minter_inv_def)
next
  case (Cons q qs)
  obtain t sign h where q: "q = (t, sign, h)" by (cases q)
  have inv: "minter_inv issued t m" using Cons.prems(2) [of q] minter_inv_later [OF Cons.prems(3)] by (simp add: q)
  from get_certificate_step [OF inv _ Cons.prems(4), of sign h] obtain c m1 where
    g: "get_certificate_for_host t sign h m = (Inr c, m1)" "minter_inv issued t m1" "mn_max m1 = mn_max m" "mn_ttl m1 = mn_ttl m"
      "mn_hosts m1 = take (mn_max m) (touch h (mn_hosts m))" "good_leaf issued t h c"
    using Cons.prems(1) by (auto simp: cert_history_def q)
  have h: "mn_hosts m1 = take (mn_max m1) (touch h hs)" using g(3,5) Cons.prems(5,6) by (simp add: touch_take)
  have "cert_history issued qs" "\<And>q. q \<in> set qs \<Longrightarrow> t \<le> fst q" using Cons.prems(1) by (auto simp: cert_history_def q)
  from Cons.IH [OF this g(2) _ distinct_touch [OF Cons.prems(5)] h] show ?case
    using g Cons.prems(4) by (simp add: q case_prod_beta)
qed

lemma minter_inv_new: "minter_inv issued now (new_minter n ttl)"
  by (simp add: minter_inv_def new_minter_def linked_def)



subsection \<open>Skipped hosts\<close>

lemma skip_sweep_filter: "fst (skip_sweep now m acc) = filter (\<lambda>(k, t). now < t) m"
  by (induction now m acc rule: skip_sweep.induct) (auto split: prod.splits)

end
