(* ===== verification/Ttl_Stores.thy ===== *)
theory Ttl_Stores
  imports Cache_Spec Sha256
begin

text \<open>
  The two stores with a time to live on the request path: the shared store
  that plugins use to pass values between requests (\<^verbatim>\<open>authlib/shared/store.go\<close>)
  and the cache of exchanged tokens
  (\<^verbatim>\<open>authlib/plugins/tokenexchange/cache/cache.go\<close>).  Both are forgetful caches
  in the sense of \<^verbatim>\<open>Cache_Spec\<close>.
\<close>

section \<open>The shared store\<close>

text \<open>A value is a string or something else.\<close>
datatype shared_value = SharedString string | SharedOther json

type_synonym shared_store = "(string, shared_value \<times> time) gomap"

definition shared_put :: "time \<Rightarrow> string \<Rightarrow> shared_value \<Rightarrow> time \<Rightarrow> shared_store \<Rightarrow> shared_store" where
  "shared_put now key v ttl s = gm_put key (v, now + ttl) s"

text \<open>The lazy eviction of \<^verbatim>\<open>Get\<close>, which takes the write lock and looks again.\<close>
definition shared_evict :: "time \<Rightarrow> string \<Rightarrow> shared_store \<Rightarrow> shared_store" where
  "shared_evict now key s =
     (case gm_get s key of
        Some (_, expires) \<Rightarrow> if now > expires then gm_del key s else s
      | None \<Rightarrow> s)"

definition shared_read :: "time \<Rightarrow> shared_store \<Rightarrow> string \<Rightarrow> shared_value option" where
  "shared_read now s key =
     (case gm_get s key of
        None \<Rightarrow> None
      | Some (v, expires) \<Rightarrow> if now > expires then None else Some v)"

definition shared_get :: "time \<Rightarrow> string \<Rightarrow> shared_store \<Rightarrow> shared_value option \<times> shared_store" where
  "shared_get now key s =
     (shared_read now s key,
      if shared_read now s key = None then shared_evict now key s else s)"

definition shared_delete :: "string \<Rightarrow> shared_store \<Rightarrow> shared_store" where
  "shared_delete key s = gm_del key s"

definition shared_sweep :: "time \<Rightarrow> shared_store \<Rightarrow> shared_store" where
  "shared_sweep now s = filter (\<lambda>(k, v, expires). \<not> now > expires) s"

text \<open>The steps that take the write lock, in any order.\<close>
datatype shared_op =
    SharedPut time string shared_value time
  | SharedEvict time string
  | SharedDelete string
  | SharedSweep time

fun shared_step :: "shared_op \<Rightarrow> shared_store \<Rightarrow> shared_store" where
  "shared_step (SharedPut now k v ttl) s = shared_put now k v ttl s"
| "shared_step (SharedEvict now k) s = shared_evict now k s"
| "shared_step (SharedDelete k) s = shared_delete k s"
| "shared_step (SharedSweep now) s = shared_sweep now s"

fun shared_writes :: "shared_op \<Rightarrow> (string \<times> shared_value) option" where
  "shared_writes (SharedPut now k v ttl) = Some (k, v)"
| "shared_writes _ = None"

section \<open>The cache of exchanged tokens\<close>

record exchange_entry =
  ee_token :: string
  ee_expires_at :: time

record exchange_cache =
  xc_entries :: "(string, exchange_entry) gomap"
  xc_max_size :: int

definition new_exchange_cache :: "int \<Rightarrow> exchange_cache" where
  "new_exchange_cache mx = \<lparr>xc_entries = [], xc_max_size = mx\<rparr>"

definition cache_key :: "string \<Rightarrow> string \<Rightarrow> string" where
  "cache_key subject_token audience = hex_encode (sha256 (subject_token @ CHR 0x00 # audience))"

definition exchange_get :: "time \<Rightarrow> string \<Rightarrow> string \<Rightarrow> exchange_cache \<Rightarrow> string option" where
  "exchange_get now subject_token audience c =
     (case gm_get (xc_entries c) (cache_key subject_token audience) of
        None \<Rightarrow> None
      | Some e \<Rightarrow> if now > ee_expires_at e then None else Some (ee_token e))"

definition evict_expired :: "time \<Rightarrow> exchange_cache \<Rightarrow> exchange_cache" where
  "evict_expired now c = c\<lparr>xc_entries := filter (\<lambda>(k, e). \<not> now > ee_expires_at e) (xc_entries c)\<rparr>"

text \<open>The loop deletes keys in iteration order until three quarters are left.\<close>
definition evict_random :: "exchange_cache \<Rightarrow> exchange_cache" where
  "evict_random c =
     c\<lparr>xc_entries := drop (nat (int (length (xc_entries c)) - xc_max_size c * 3 div 4)) (xc_entries c)\<rparr>"

definition exchange_buffer :: time where
  "exchange_buffer = 30 * 1000000000"

definition is_full :: "exchange_cache \<Rightarrow> bool" where
  "is_full c = (int (length (xc_entries c)) \<ge> xc_max_size c)"

definition make_room :: "time \<Rightarrow> exchange_cache \<Rightarrow> exchange_cache" where
  "make_room now c =
     (if is_full c then let c1 = evict_expired now c in if is_full c1 then evict_random c1 else c1 else c)"

definition exchange_set :: "time \<Rightarrow> string \<Rightarrow> string \<Rightarrow> string \<Rightarrow> time \<Rightarrow> exchange_cache \<Rightarrow> exchange_cache" where
  "exchange_set now subject_token audience token ttl c =
     (if ttl \<le> exchange_buffer then c
      else let c1 = make_room now c
           in c1\<lparr>xc_entries := gm_put (cache_key subject_token audience)
                  \<lparr>ee_token = token, ee_expires_at = now + (ttl - exchange_buffer)\<rparr> (xc_entries c1)\<rparr>)"

definition exchange_len :: "exchange_cache \<Rightarrow> nat" where
  "exchange_len c = length (xc_entries c)"

text \<open>A call of \<^verbatim>\<open>Set\<close>, and the lookup by digest.\<close>
datatype exchange_op = ExchangeSet time string string string time

fun exchange_step :: "exchange_op \<Rightarrow> exchange_cache \<Rightarrow> exchange_cache" where
  "exchange_step (ExchangeSet now s a t ttl) c = exchange_set now s a t ttl c"

fun exchange_writes :: "exchange_op \<Rightarrow> (string \<times> string) option" where
  "exchange_writes (ExchangeSet now s a t ttl) =
     (if ttl \<le> exchange_buffer then None else Some (cache_key s a, t))"

definition digest_lookup :: "time \<Rightarrow> exchange_cache \<Rightarrow> string \<Rightarrow> string option" where
  "digest_lookup now c k =
     (case gm_get (xc_entries c) k of
        None \<Rightarrow> None
      | Some e \<Rightarrow> if now > ee_expires_at e then None else Some (ee_token e))"

definition exchange_ok :: "exchange_cache \<Rightarrow> bool" where
  "exchange_ok c = (gm_ok (xc_entries c) \<and> int (length (xc_entries c)) \<le> max 1 (xc_max_size c))"

text \<open>An operation of the shared store that leaves the entry of a key alone until its
  deadline.\<close>
fun keeps_entry :: "string \<Rightarrow> time \<Rightarrow> shared_op \<Rightarrow> bool" where
  "keeps_entry k deadline (SharedPut now k' v ttl) = (k' \<noteq> k)"
| "keeps_entry k deadline (SharedEvict now k') = (now \<le> deadline)"
| "keeps_entry k deadline (SharedDelete k') = (k' \<noteq> k)"
| "keeps_entry k deadline (SharedSweep now) = (now \<le> deadline)"

section \<open>Lemmas\<close>

lemma shared_sweep_get:
  assumes "gm_ok s"
  shows "gm_get (shared_sweep now s) k =
    (case gm_get s k of None \<Rightarrow> None | Some (v, e) \<Rightarrow> if now > e then None else Some (v, e))"
  using gm_get_filter[OF assms, of "\<lambda>_ p. \<not> now > snd p" k]
  by (auto simp: shared_sweep_def case_prod_unfold split: option.splits)

text \<open>The shared store is a forgetful cache, with evictions at any moment.\<close>
interpretation shared_tokens: forgetful_cache "[]" shared_read shared_step shared_writes gm_ok
proof (standard, goal_cases)
  case (2 c op k v t)
  then show ?case by (cases op) (auto simp: shared_read_def shared_put_def)
next
  case (3 c op k t)
  show ?case
  proof (cases op)
    case (SharedPut now k' v ttl)
    then have "k \<noteq> k'" using 3(2)[of v] by auto
    then show ?thesis using SharedPut by (simp add: shared_read_def shared_put_def)
  next
    case (SharedSweep now)
    then show ?thesis using shared_sweep_get[OF 3(1)]
      by (auto simp: shared_read_def split: option.splits)
  qed (auto simp: shared_read_def shared_evict_def shared_delete_def split: option.splits)
next
  case (5 c op)
  then show ?case
    by (cases op) (auto simp: shared_put_def shared_evict_def shared_delete_def shared_sweep_def case_prod_unfold
        split: option.splits)
qed (simp_all add: shared_read_def)

lemma keeps_entry_step:
  assumes "gm_ok s" "keeps_entry k deadline op" "gm_get s k = Some (v, deadline)"
  shows "gm_ok (shared_step op s) \<and> gm_get (shared_step op s) k = Some (v, deadline)"
proof
  show "gm_ok (shared_step op s)" using assms(1) by (rule shared_tokens.invar_step)
  show "gm_get (shared_step op s) k = Some (v, deadline)"
    using assms shared_sweep_get[OF assms(1)]
    by (cases op) (auto simp: shared_put_def shared_evict_def shared_delete_def simp del: map_of_eq_Some_iff split: option.splits)
qed

lemma keeps_entry_run:
  assumes "gm_ok s" "\<forall>op \<in> set ops. keeps_entry k deadline op" "gm_get s k = Some (v, deadline)"
  shows "gm_get (foldl (\<lambda>s op. shared_step op s) s ops) k = Some (v, deadline)"
  using assms by (induction ops arbitrary: s) (auto dest: keeps_entry_step simp del: map_of_eq_Some_iff)

lemma drop_gm_ok: "gm_ok m \<Longrightarrow> gm_ok (drop n m)"
  by (simp add: drop_map [symmetric] distinct_drop)

lemma drop_gm_get: "gm_ok m \<Longrightarrow> gm_get (drop n m) k \<in> {None, gm_get m k}"
proof (cases "gm_get (drop n m) k")
  case (Some v)
  assume "gm_ok m"
  have "(k, v) \<in> set m" by (rule in_set_dropD[OF map_of_SomeD[OF Some]])
  then have "gm_get m k = Some v" by (rule map_of_is_SomeI[OF \<open>gm_ok m\<close>])
  then show ?thesis using Some by simp
qed simp

lemma make_room_keeps:
  assumes "gm_ok (xc_entries c)"
  shows "gm_ok (xc_entries (make_room now c))" "xc_max_size (make_room now c) = xc_max_size c"
    "gm_get (xc_entries (make_room now c)) k \<in> {None, gm_get (xc_entries c) k}"
proof -
  let ?live = "filter (\<lambda>(k, e). \<not> now > ee_expires_at e) (xc_entries c)"
  have live: "gm_get ?live k \<in> {None, gm_get (xc_entries c) k}" "gm_ok ?live"
    using gm_get_filter[OF assms, of "\<lambda>_ e. \<not> now > ee_expires_at e" k] assms by (auto split: option.splits)
  show "gm_ok (xc_entries (make_room now c))" "xc_max_size (make_room now c) = xc_max_size c"
    using assms live(2)
    by (simp_all add: make_room_def evict_expired_def evict_random_def Let_def drop_gm_ok)
  show "gm_get (xc_entries (make_room now c)) k \<in> {None, gm_get (xc_entries c) k}"
  proof -
    have d: "gm_get (drop n ?live) k \<in> {None, gm_get (xc_entries c) k}" for n
      using live(1) drop_gm_get[OF live(2), of n k] by auto
    then show ?thesis using live(1) by (simp add: make_room_def evict_expired_def evict_random_def Let_def)
  qed
qed

lemma make_room_size: "int (length (xc_entries (make_room now c))) < max 1 (xc_max_size c)"
proof -
  have "xc_max_size c * 3 div 4 < max 1 (xc_max_size c)" by linarith
  then show ?thesis
    by (auto simp: make_room_def evict_expired_def evict_random_def is_full_def Let_def)
qed

lemma exchange_set_ok: "exchange_ok c \<Longrightarrow> exchange_ok (exchange_set now s a t ttl c)"
proof -
  assume ok: "exchange_ok c"
  let ?r = "make_room now c"
  have r: "gm_ok (xc_entries ?r)" "xc_max_size ?r = xc_max_size c"
    using make_room_keeps ok by (simp_all add: exchange_ok_def)
  have "int (length (xc_entries ?r)) < max 1 (xc_max_size c)" by (rule make_room_size)
  then have "int (length (gm_put k e (xc_entries ?r))) \<le> max 1 (xc_max_size c)" for k e
    by (simp add: gm_put_length)
  then show ?thesis using ok r by (simp add: exchange_ok_def exchange_set_def Let_def)
qed

text \<open>By digest, the cache of exchanged tokens is a forgetful cache as well.\<close>
interpretation exchanged: forgetful_cache "new_exchange_cache mx" digest_lookup exchange_step exchange_writes exchange_ok
  for mx
proof (standard, goal_cases)
  case (1 t k)
  then show ?case by (simp add: digest_lookup_def new_exchange_cache_def)
next
  case (2 c op k v t)
  then show ?case
    by (cases op) (auto simp: digest_lookup_def exchange_set_def Let_def split: if_splits)
next
  case (3 c op k t)
  obtain now s a tok ttl where op: "op = ExchangeSet now s a tok ttl" by (cases op)
  have "gm_get (xc_entries (make_room now c)) k \<in> {None, gm_get (xc_entries c) k}"
    using make_room_keeps(3) 3(1) by (simp add: exchange_ok_def)
  then show ?case using 3(2)[of tok] op
    by (auto simp: digest_lookup_def exchange_set_def Let_def split: if_splits)
next
  case 4
  then show ?case by (simp add: exchange_ok_def new_exchange_cache_def)
next
  case (5 c op)
  then show ?case by (cases op) (simp add: exchange_set_ok)
qed

lemma cache_key_digest: "cache_key s a = cache_key s' a' \<longleftrightarrow> sha256 (s @ CHR 0x00 # a) = sha256 (s' @ CHR 0x00 # a')"
  using hex_encode_inj by (auto simp: cache_key_def)

lemma nul_split: "CHR 0x00 \<notin> set s \<Longrightarrow> CHR 0x00 \<notin> set s' \<Longrightarrow>
    s @ CHR 0x00 # a = s' @ CHR 0x00 # a' \<Longrightarrow> s = s' \<and> a = a'"
proof (induction s arbitrary: s')
  case Nil
  then show ?case by (cases s') auto
next
  case (Cons x s)
  then show ?case by (cases s') auto
qed

lemma digest_lookup_get: "digest_lookup now c (cache_key s a) = exchange_get now s a c"
  by (simp add: digest_lookup_def exchange_get_def)

section \<open>Properties\<close>

text \<open>Claim C33. Any sequence of stores keeps the cache of exchanged tokens within
  its maximum size (one entry when the maximum is below one), and a token it
  serves for a subject token and an audience is the latest one stored for that
  pair, unless SHA-256 has the same digest for two texts or a subject token
  contains a zero byte.\<close>
theorem exchange_cache_safe:
  assumes "exchange_get now s a (foldl (\<lambda>c op. exchange_step op c) (new_exchange_cache mx) ops) = Some token"
  shows "int (exchange_len (foldl (\<lambda>c op. exchange_step op c) (new_exchange_cache mx) ops)) \<le> max 1 mx \<and>
    (\<exists>pre t s' a' ttl post. ops = pre @ ExchangeSet t s' a' token ttl # post \<and> exchange_buffer < ttl \<and>
       (s' = s \<and> a' = a \<or> CHR 0x00 \<in> set (s @ s') \<or>
        s' @ CHR 0x00 # a' \<noteq> s @ CHR 0x00 # a \<and> sha256 (s' @ CHR 0x00 # a') = sha256 (s @ CHR 0x00 # a)) \<and>
       (\<forall>op \<in> set post. \<forall>v. exchange_writes op \<noteq> Some (cache_key s a, v)))"
proof -
  let ?c = "foldl (\<lambda>c op. exchange_step op c) (new_exchange_cache mx) ops"
  have "xc_max_size ?c = mx"
  proof (induction ops rule: rev_induct)
    case (snoc op ops)
    obtain t s a k ttl where "op = ExchangeSet t s a k ttl" by (cases op)
    then show ?case
      using snoc make_room_keeps(2) exchanged.invar_run[of mx ops] by (simp add: exchange_set_def Let_def exchange_ok_def)
  qed (simp add: new_exchange_cache_def)
  then have "int (exchange_len ?c) \<le> max 1 mx"
    using exchanged.invar_run[of mx ops] by (simp add: exchange_ok_def exchange_len_def)
  moreover obtain pre op post where o: "ops = pre @ op # post" "exchange_writes op = Some (cache_key s a, token)"
    "\<forall>op' \<in> set post. \<forall>v. exchange_writes op' \<noteq> Some (cache_key s a, v)"
    using exchanged.hit_is_latest_write[of now mx ops "cache_key s a" token] assms by (auto simp: digest_lookup_get)
  moreover obtain t s' a' ttl where op: "op = ExchangeSet t s' a' token ttl" "exchange_buffer < ttl"
    "cache_key s' a' = cache_key s a"
    using o(2) by (cases op) (auto split: if_splits)
  moreover have "s' = s \<and> a' = a \<or> CHR 0x00 \<in> set (s @ s') \<or>
      s' @ CHR 0x00 # a' \<noteq> s @ CHR 0x00 # a \<and> sha256 (s' @ CHR 0x00 # a') = sha256 (s @ CHR 0x00 # a)"
    using op(3) nul_split[of s' s a' a] unfolding cache_key_digest by auto
  ultimately show ?thesis by blast
qed

theorem exchange_cache_safe_witness:
  "\<exists>token. exchange_get 5 ''sub'' ''aud'' (foldl (\<lambda>c op. exchange_step op c) (new_exchange_cache 2)
     [ExchangeSet 0 ''sub'' ''aud'' ''t1'' 40000000000, ExchangeSet 1 ''sub'' ''aud'' ''t2'' 50000000000]) = Some token \<and>
   (\<exists>t s' a' ttl. ExchangeSet t s' a' token ttl \<in> set [ExchangeSet 0 ''sub'' ''aud'' ''t1'' 40000000000,
       ExchangeSet 1 ''sub'' ''aud'' ''t2'' 50000000000])"
proof -
  let ?ops = "[ExchangeSet 0 ''sub'' ''aud'' ''t1'' 40000000000, ExchangeSet 1 ''sub'' ''aud'' ''t2'' 50000000000]"
  have h: "exchange_get 5 ''sub'' ''aud'' (foldl (\<lambda>c op. exchange_step op c) (new_exchange_cache 2) ?ops) = Some ''t2''"
    by (simp add: exchange_get_def exchange_set_def exchange_buffer_def make_room_def is_full_def new_exchange_cache_def Let_def)
  obtain pre t s' a' ttl post where o: "?ops = pre @ ExchangeSet t s' a' ''t2'' ttl # post"
    using exchange_cache_safe[OF h] by blast
  have "ExchangeSet t s' a' ''t2'' ttl \<in> set ?ops" unfolding o by simp
  then show ?thesis using h by blast
qed

end
