(* ===== verification/Auth_Handler.thy ===== *)
theory Auth_Handler
  imports Host_Match Ttl_Stores
begin

text \<open>
  The auth layer that all listeners share (\<^verbatim>\<open>authlib/auth/auth.go\<close>,
  \<^verbatim>\<open>result.go\<close>, \<^verbatim>\<open>bearer.go\<close>) and the token endpoint client it calls
  (\<^verbatim>\<open>authlib/plugins/tokenexchange/exchange/client.go\<close>).

  What the configuration fixes is the record \<^verbatim>\<open>auth_config\<close>; what requests
  change (identity, token cache, counters) is the record \<^verbatim>\<open>auth_state\<close>.  The
  JWT verifier, the client authentication, the HTTP transport and the JSON
  decoding of replies are fields of the configuration.
\<close>

section \<open>Data\<close>

record claims =
  cl_subject :: string
  cl_client_id :: string
  cl_audience :: "string list"
  cl_scopes :: "string list"

record identity_config =
  ic_client_id :: string
  ic_audiences :: "string list"
  ic_issuer :: string

datatype inbound_denial = DENY_NO_HEADER | DENY_MALFORMED_HEADER | DENY_VALIDATOR_MISSING | DENY_JWT_FAILED

datatype inbound_approval = APPROVE_PASSTHROUGH | APPROVE_AUTHORIZED

datatype outbound_approval = OUTBOUND_NO_MATCHING_ROUTE | OUTBOUND_NO_EXCHANGER | OUTBOUND_PASSTHROUGH
  | OUTBOUND_NO_TOKEN_POLICY

datatype outbound_denial = OUTBOUND_CREDS_REQUESTED_NO_EXCHANGER | OUTBOUND_CREDENTIALS_GRANT_FAILURE
  | OUTBOUND_NO_TOKEN | OUTBOUND_TOKEN_EXCHANGE_FAILED

datatype outbound_replace = OUTBOUND_ACTION_REPLACE_TOKEN | OUTBOUND_ACTION_CACHE_HIT

fun inbound_denial_string :: "inbound_denial \<Rightarrow> string" where
  "inbound_denial_string DENY_NO_HEADER = ''no_header''"
| "inbound_denial_string DENY_MALFORMED_HEADER = ''malformed_header''"
| "inbound_denial_string DENY_VALIDATOR_MISSING = ''validator_missing''"
| "inbound_denial_string DENY_JWT_FAILED = ''jwt_failed''"

fun inbound_approval_string :: "inbound_approval \<Rightarrow> string" where
  "inbound_approval_string APPROVE_PASSTHROUGH = ''passthrough''"
| "inbound_approval_string APPROVE_AUTHORIZED = ''authorized''"

fun outbound_approval_string :: "outbound_approval \<Rightarrow> string" where
  "outbound_approval_string OUTBOUND_NO_MATCHING_ROUTE = ''no_matching_route''"
| "outbound_approval_string OUTBOUND_NO_EXCHANGER = ''no_exchanger''"
| "outbound_approval_string OUTBOUND_PASSTHROUGH = ''passthrough''"
| "outbound_approval_string OUTBOUND_NO_TOKEN_POLICY = ''no_token_policy''"

fun outbound_denial_string :: "outbound_denial \<Rightarrow> string" where
  "outbound_denial_string OUTBOUND_CREDS_REQUESTED_NO_EXCHANGER = ''creds_requested_no_exchanger''"
| "outbound_denial_string OUTBOUND_CREDENTIALS_GRANT_FAILURE = ''credentials_grant_failure''"
| "outbound_denial_string OUTBOUND_NO_TOKEN = ''no_token''"
| "outbound_denial_string OUTBOUND_TOKEN_EXCHANGE_FAILED = ''token_exchange_failed''"

fun outbound_replace_string :: "outbound_replace \<Rightarrow> string" where
  "outbound_replace_string OUTBOUND_ACTION_REPLACE_TOKEN = ''replace_token''"
| "outbound_replace_string OUTBOUND_ACTION_CACHE_HIT = ''cache_hit''"

section \<open>Counters\<close>

record stats =
  st_inbound_approvals :: "(inbound_approval, int) gomap"
  st_inbound_denials :: "(inbound_denial, int) gomap"
  st_outbound_approvals :: "(outbound_approval, int) gomap"
  st_outbound_denials :: "(outbound_denial, int) gomap"
  st_outbound_replace_tokens :: "(outbound_replace, int) gomap"

definition new_stats :: stats where
  "new_stats = \<lparr>st_inbound_approvals = [], st_inbound_denials = [], st_outbound_approvals = [],
     st_outbound_denials = [], st_outbound_replace_tokens = []\<rparr>"

definition count_up :: "'k \<Rightarrow> int \<Rightarrow> ('k, int) gomap \<Rightarrow> ('k, int) gomap" where
  "count_up k n m = gm_put k (gm_get_or 0 m k + n) m"

fun add_counters :: "('k, int) gomap \<Rightarrow> ('k, int) gomap \<Rightarrow> ('k, int) gomap" where
  "add_counters out [] = out"
| "add_counters out ((k, n) # m) = add_counters (count_up k n out) m"

text \<open>\<^verbatim>\<open>MergeStats\<close>; a nil source is None.\<close>
fun merge_stats_into :: "stats \<Rightarrow> stats option list \<Rightarrow> stats" where
  "merge_stats_into out [] = out"
| "merge_stats_into out (None # srcs) = merge_stats_into out srcs"
| "merge_stats_into out (Some s # srcs) = merge_stats_into
     \<lparr>st_inbound_approvals = add_counters (st_inbound_approvals out) (st_inbound_approvals s),
      st_inbound_denials = add_counters (st_inbound_denials out) (st_inbound_denials s),
      st_outbound_approvals = add_counters (st_outbound_approvals out) (st_outbound_approvals s),
      st_outbound_denials = add_counters (st_outbound_denials out) (st_outbound_denials s),
      st_outbound_replace_tokens = add_counters (st_outbound_replace_tokens out) (st_outbound_replace_tokens s)\<rparr> srcs"

definition merge_stats :: "stats option list \<Rightarrow> stats" where
  "merge_stats srcs = merge_stats_into new_stats srcs"

section \<open>The token endpoint client\<close>

record exchange_request =
  er_subject_token :: string
  er_audience :: string
  er_scopes :: string
  er_actor_token :: string
  er_token_endpoint :: string

record exchange_response =
  ep_access_token :: string
  ep_token_type :: string
  ep_expires_in :: int

datatype http_reply = HttpFailed string | HttpReply int bytes

datatype exchange_error =
    SubjectTokenRequired
  | ClientAuthFailed string
  | TokenRequestFailed string
  | ExchangeRefused int "(string \<times> string)"
  | ReplyUnparsable
  | MissingAccessToken

type_synonym form = "(string, string) gomap"

text \<open>\<^verbatim>\<open>parse_token\<close> decodes the reply into access token, token type and lifetime;
  \<^verbatim>\<open>parse_error\<close> gives the two fields of an error reply, empty when it does not
  decode.\<close>
record exchange_client =
  ec_token_url :: string
  ec_apply :: "form \<Rightarrow> string + form"
  ec_http :: "time \<Rightarrow> string \<Rightarrow> form \<Rightarrow> http_reply"
  ec_parse_token :: "bytes \<Rightarrow> (string \<times> string \<times> int) option"
  ec_parse_error :: "bytes \<Rightarrow> string \<times> string"

definition max_reply_bytes :: nat where
  "max_reply_bytes = 2 ^ 20"

definition do_token_request ::
  "exchange_client \<Rightarrow> time \<Rightarrow> string \<Rightarrow> form \<Rightarrow> exchange_error + exchange_response" where
  "do_token_request cl now url fm =
     (case ec_http cl now url fm of
        HttpFailed e \<Rightarrow> Inl (TokenRequestFailed e)
      | HttpReply status reply \<Rightarrow>
          (let body = take max_reply_bytes reply in
           if status \<noteq> 200 then Inl (ExchangeRefused status (ec_parse_error cl body))
           else case ec_parse_token cl body of
                  None \<Rightarrow> Inl ReplyUnparsable
                | Some (tok, ty, ex) \<Rightarrow>
                    if tok = '''' then Inl MissingAccessToken
                    else Inr \<lparr>ep_access_token = tok, ep_token_type = ty, ep_expires_in = ex\<rparr>))"

definition set_if :: "string \<Rightarrow> string \<Rightarrow> form \<Rightarrow> form" where
  "set_if k v fm = (if v \<noteq> '''' then gm_put k v fm else fm)"

definition exchange_form :: "exchange_request \<Rightarrow> form" where
  "exchange_form req =
     (let fm = set_if ''scope'' (er_scopes req) (set_if ''audience'' (er_audience req)
        [(''grant_type'', ''urn:ietf:params:oauth:grant-type:token-exchange''),
         (''requested_token_type'', ''urn:ietf:params:oauth:token-type:access_token''),
         (''subject_token'', er_subject_token req),
         (''subject_token_type'', ''urn:ietf:params:oauth:token-type:access_token'')])
      in if er_actor_token req \<noteq> ''''
         then gm_put ''actor_token_type'' ''urn:ietf:params:oauth:token-type:access_token''
                (gm_put ''actor_token'' (er_actor_token req) fm)
         else fm)"

definition exchange :: "exchange_client \<Rightarrow> time \<Rightarrow> exchange_request \<Rightarrow> exchange_error + exchange_response" where
  "exchange cl now req =
     (if er_subject_token req = '''' then Inl SubjectTokenRequired
      else case ec_apply cl (exchange_form req) of
             Inl e \<Rightarrow> Inl (ClientAuthFailed e)
           | Inr fm \<Rightarrow> do_token_request cl now
               (if er_token_endpoint req \<noteq> '''' then er_token_endpoint req else ec_token_url cl) fm)"

definition client_credentials ::
  "exchange_client \<Rightarrow> time \<Rightarrow> string \<Rightarrow> string \<Rightarrow> exchange_error + exchange_response" where
  "client_credentials cl now audience scopes =
     (case ec_apply cl (set_if ''scope'' scopes (set_if ''audience'' audience
             [(''grant_type'', ''client_credentials'')])) of
        Inl e \<Rightarrow> Inl (ClientAuthFailed e)
      | Inr fm \<Rightarrow> do_token_request cl now (ec_token_url cl) fm)"

section \<open>The handler\<close>

record auth_config =
  ac_verifier :: "(string \<Rightarrow> string list \<Rightarrow> string + claims) option"
  ac_exchanger :: "exchange_client option"
  ac_bypass :: "string list option"
  ac_router :: "router option"
  ac_no_token_policy :: string
  ac_audience_deriver :: "(string \<Rightarrow> string) option"

record auth_state =
  as_identity :: identity_config
  as_cache :: "exchange_cache option"
  as_stats :: stats

datatype auth_action = ActAllow | ActDeny | ActReplaceToken

record inbound_result =
  ir_action :: auth_action
  ir_claims :: "claims option"
  ir_deny_status :: int
  ir_deny_reason :: string
  ir_deny_code :: inbound_denial

record outbound_result =
  or_action :: auth_action
  or_token :: string
  or_deny_status :: int
  or_deny_reason :: string
  or_deny_code :: outbound_denial
  or_cache_hit :: bool
  or_route_matched :: bool
  or_target_audience :: string
  or_requested_scopes :: string

definition extract_bearer :: "string \<Rightarrow> string" where
  "extract_bearer h = (if length h > 7 \<and> equal_fold (take 7 h) ''bearer '' then drop 7 h else '''')"

definition auth_ready :: "auth_state \<Rightarrow> bool" where
  "auth_ready st = (length (ic_audiences (as_identity st)) > 0)"

definition update_identity :: "identity_config \<Rightarrow> auth_state \<Rightarrow> auth_state" where
  "update_identity ic st = st\<lparr>as_identity := ic\<rparr>"

abbreviation inc_inbound_approve :: "inbound_approval \<Rightarrow> auth_state \<Rightarrow> auth_state" where
  "inc_inbound_approve r st \<equiv>
     st\<lparr>as_stats := (as_stats st)\<lparr>st_inbound_approvals := count_up r 1 (st_inbound_approvals (as_stats st))\<rparr>\<rparr>"

abbreviation inc_inbound_deny :: "inbound_denial \<Rightarrow> auth_state \<Rightarrow> auth_state" where
  "inc_inbound_deny r st \<equiv>
     st\<lparr>as_stats := (as_stats st)\<lparr>st_inbound_denials := count_up r 1 (st_inbound_denials (as_stats st))\<rparr>\<rparr>"

abbreviation inc_outbound_approve :: "outbound_approval \<Rightarrow> auth_state \<Rightarrow> auth_state" where
  "inc_outbound_approve r st \<equiv>
     st\<lparr>as_stats := (as_stats st)\<lparr>st_outbound_approvals := count_up r 1 (st_outbound_approvals (as_stats st))\<rparr>\<rparr>"

abbreviation inc_outbound_deny :: "outbound_denial \<Rightarrow> auth_state \<Rightarrow> auth_state" where
  "inc_outbound_deny r st \<equiv>
     st\<lparr>as_stats := (as_stats st)\<lparr>st_outbound_denials := count_up r 1 (st_outbound_denials (as_stats st))\<rparr>\<rparr>"

abbreviation inc_outbound_replace :: "outbound_replace \<Rightarrow> auth_state \<Rightarrow> auth_state" where
  "inc_outbound_replace r st \<equiv>
     st\<lparr>as_stats := (as_stats st)\<lparr>st_outbound_replace_tokens := count_up r 1 (st_outbound_replace_tokens (as_stats st))\<rparr>\<rparr>"

definition inbound_deny :: "int \<Rightarrow> string \<Rightarrow> inbound_denial \<Rightarrow> inbound_result" where
  "inbound_deny status reason code = \<lparr>ir_action = ActDeny, ir_claims = None, ir_deny_status = status,
     ir_deny_reason = reason, ir_deny_code = code\<rparr>"

definition inbound_allow :: "claims option \<Rightarrow> inbound_result" where
  "inbound_allow cl = \<lparr>ir_action = ActAllow, ir_claims = cl, ir_deny_status = 0, ir_deny_reason = '''',
     ir_deny_code = DENY_NO_HEADER\<rparr>"

definition handle_inbound ::
  "auth_config \<Rightarrow> string \<Rightarrow> string \<Rightarrow> string \<Rightarrow> auth_state \<Rightarrow> inbound_result \<times> auth_state" where
  "handle_inbound cfg auth_header path audience st =
     (if (case ac_bypass cfg of Some ps \<Rightarrow> bypass_match ps path | None \<Rightarrow> False)
      then (inbound_allow None, inc_inbound_approve APPROVE_PASSTHROUGH st)
      else if auth_header = ''''
      then (inbound_deny 401 ''missing Authorization header'' DENY_NO_HEADER, inc_inbound_deny DENY_NO_HEADER st)
      else let token = extract_bearer auth_header in
        if token = ''''
        then (inbound_deny 401 ''invalid Authorization header format'' DENY_MALFORMED_HEADER,
              inc_inbound_deny DENY_MALFORMED_HEADER st)
        else case ac_verifier cfg of
            None \<Rightarrow> (inbound_deny 401 ''inbound validation not configured'' DENY_VALIDATOR_MISSING,
                      inc_inbound_deny DENY_VALIDATOR_MISSING st)
          | Some verify \<Rightarrow>
              (let audiences = (if audience \<noteq> '''' then [audience] else ic_audiences (as_identity st)) in
               if length audiences = 0
               then (inbound_deny 503 ''identity not yet configured (credentials pending)'' DENY_VALIDATOR_MISSING, st)
               else case verify token audiences of
                   Inl _ \<Rightarrow> (inbound_deny 401 ''token validation failed'' DENY_JWT_FAILED, inc_inbound_deny DENY_JWT_FAILED st)
                 | Inr cl \<Rightarrow> (inbound_allow (Some cl), inc_inbound_approve APPROVE_AUTHORIZED st)))"

definition empty_outbound :: outbound_result where
  "empty_outbound = \<lparr>or_action = ActAllow, or_token = '''', or_deny_status = 0, or_deny_reason = '''',
     or_deny_code = OUTBOUND_CREDS_REQUESTED_NO_EXCHANGER, or_cache_hit = False, or_route_matched = False,
     or_target_audience = '''', or_requested_scopes = ''''\<rparr>"

definition handle_no_token ::
  "auth_config \<Rightarrow> time \<Rightarrow> string \<Rightarrow> string \<Rightarrow> auth_state \<Rightarrow> outbound_result \<times> auth_state" where
  "handle_no_token cfg now audience scopes st =
     (if ac_no_token_policy cfg = ''allow''
      then (empty_outbound, inc_outbound_approve OUTBOUND_NO_TOKEN_POLICY st)
      else if ac_no_token_policy cfg = ''client-credentials'' then
        (case ac_exchanger cfg of
           None \<Rightarrow> (empty_outbound\<lparr>or_action := ActDeny, or_deny_status := 503,
                      or_deny_reason := ''exchanger not configured for client credentials'',
                      or_deny_code := OUTBOUND_CREDS_REQUESTED_NO_EXCHANGER\<rparr>,
                    inc_outbound_deny OUTBOUND_CREDS_REQUESTED_NO_EXCHANGER st)
         | Some cl \<Rightarrow>
             (case client_credentials cl now audience scopes of
                Inl _ \<Rightarrow> (empty_outbound\<lparr>or_action := ActDeny, or_deny_status := 503,
                            or_deny_reason := ''client credentials token acquisition failed'',
                            or_deny_code := OUTBOUND_CREDENTIALS_GRANT_FAILURE\<rparr>,
                          inc_outbound_deny OUTBOUND_CREDENTIALS_GRANT_FAILURE st)
              | Inr resp \<Rightarrow> (empty_outbound\<lparr>or_action := ActReplaceToken, or_token := ep_access_token resp\<rparr>,
                            inc_outbound_replace OUTBOUND_ACTION_REPLACE_TOKEN st)))
      else (empty_outbound\<lparr>or_action := ActDeny, or_deny_status := 401, or_deny_reason := ''missing Authorization header'',
              or_deny_code := OUTBOUND_NO_TOKEN\<rparr>,
            inc_outbound_deny OUTBOUND_NO_TOKEN st))"

text \<open>A number of seconds as a 64-bit duration.\<close>
definition seconds :: "int \<Rightarrow> time" where
  "seconds n = (n * 1000000000 + 2 ^ 63) mod 2 ^ 64 - 2 ^ 63"

text \<open>\<^verbatim>\<open>HandleOutbound\<close> from the cache lookup on.\<close>
definition exchange_subject ::
  "auth_config \<Rightarrow> time \<Rightarrow> string \<Rightarrow> string \<Rightarrow> string \<Rightarrow> string \<Rightarrow> auth_state \<Rightarrow> outbound_result \<times> auth_state" where
  "exchange_subject cfg now subject audience scopes endpoint st =
     (case Option.bind (as_cache st) (exchange_get now subject audience) of
        Some cached \<Rightarrow>
          (empty_outbound\<lparr>or_action := ActReplaceToken, or_token := cached, or_cache_hit := True, or_route_matched := True,
             or_target_audience := audience, or_requested_scopes := scopes\<rparr>,
           inc_outbound_replace OUTBOUND_ACTION_CACHE_HIT st)
      | None \<Rightarrow>
          (case ac_exchanger cfg of
             None \<Rightarrow> (empty_outbound, inc_outbound_approve OUTBOUND_NO_EXCHANGER st)
           | Some cl \<Rightarrow>
               (case exchange cl now \<lparr>er_subject_token = subject, er_audience = audience, er_scopes = scopes,
                                       er_actor_token = '''', er_token_endpoint = endpoint\<rparr> of
                  Inl _ \<Rightarrow>
                    (empty_outbound\<lparr>or_action := ActDeny, or_deny_status := 503, or_deny_reason := ''token exchange failed'',
                       or_deny_code := OUTBOUND_TOKEN_EXCHANGE_FAILED, or_route_matched := True,
                       or_target_audience := audience, or_requested_scopes := scopes\<rparr>,
                     inc_outbound_deny OUTBOUND_TOKEN_EXCHANGE_FAILED st)
                | Inr resp \<Rightarrow>
                    (let st1 = (if ep_expires_in resp > 0
                                then st\<lparr>as_cache := map_option (exchange_set now subject audience (ep_access_token resp)
                                       (seconds (ep_expires_in resp))) (as_cache st)\<rparr>
                                else st)
                     in (empty_outbound\<lparr>or_action := ActReplaceToken, or_token := ep_access_token resp,
                           or_route_matched := True, or_target_audience := audience, or_requested_scopes := scopes\<rparr>,
                         inc_outbound_replace OUTBOUND_ACTION_REPLACE_TOKEN st1)))))"

definition route_audience :: "auth_config \<Rightarrow> resolved_route \<Rightarrow> string \<Rightarrow> string" where
  "route_audience cfg rr host =
     (if rr_audience rr = '''' then (case ac_audience_deriver cfg of Some f \<Rightarrow> f host | None \<Rightarrow> '''') else rr_audience rr)"

definition handle_outbound ::
  "auth_config \<Rightarrow> time \<Rightarrow> string \<Rightarrow> string \<Rightarrow> auth_state \<Rightarrow> outbound_result \<times> auth_state" where
  "handle_outbound cfg now auth_header host st =
     (case Option.bind (ac_router cfg) (\<lambda>ro. resolve ro host) of
        None \<Rightarrow> (empty_outbound, inc_outbound_approve OUTBOUND_NO_MATCHING_ROUTE st)
      | Some rr \<Rightarrow>
          if rr_passthrough rr then (empty_outbound, inc_outbound_approve OUTBOUND_PASSTHROUGH st)
          else (let audience = route_audience cfg rr host;
                    subject = extract_bearer auth_header
                in if subject = '''' then handle_no_token cfg now audience (rr_scopes rr) st
                   else exchange_subject cfg now subject audience (rr_scopes rr) (rr_token_endpoint rr) st))"

text \<open>All decisions counted so far.\<close>
definition counter_sum :: "('k, int) gomap \<Rightarrow> int" where
  "counter_sum m = sum_list (map snd m)"

definition total_count :: "stats \<Rightarrow> int" where
  "total_count s = counter_sum (st_inbound_approvals s) + counter_sum (st_inbound_denials s) +
     counter_sum (st_outbound_approvals s) + counter_sum (st_outbound_denials s) +
     counter_sum (st_outbound_replace_tokens s)"

section \<open>Lemmas\<close>

lemma exchange_subject_exchanges:
  assumes "exchange_subject cfg now s a sc ep st = (r, st')" "or_action r \<noteq> ActDeny" "ac_exchanger cfg = Some cl"
  shows "or_action r = ActReplaceToken"
    and "(\<exists>cache. as_cache st = Some cache \<and> exchange_get now s a cache = Some (or_token r)) \<or>
     (\<exists>resp. exchange cl now \<lparr>er_subject_token = s, er_audience = a, er_scopes = sc, er_actor_token = '''',
        er_token_endpoint = ep\<rparr> = Inr resp \<and> ep_access_token resp = or_token r)"
  using assms by (auto simp: exchange_subject_def Let_def bind_eq_Some_conv split: option.splits sum.splits)

lemma handle_no_token_exchanges:
  assumes "handle_no_token cfg now a sc st = (r, st')" "or_action r \<noteq> ActDeny" "ac_exchanger cfg = Some cl"
    and "ac_no_token_policy cfg \<noteq> ''allow''"
  shows "or_action r = ActReplaceToken" "ac_no_token_policy cfg = ''client-credentials''"
    and "\<exists>resp. client_credentials cl now a sc = Inr resp \<and> ep_access_token resp = or_token r"
  using assms by (auto simp: handle_no_token_def split: if_splits sum.splits)

lemma handle_outbound_exchanges:
  assumes "handle_outbound cfg now hdr host st = (r, st')" "or_action r \<noteq> ActDeny" "ac_router cfg = Some ro"
    and "resolve ro host = Some rr" "\<not> rr_passthrough rr" "ac_exchanger cfg = Some cl" "ac_no_token_policy cfg \<noteq> ''allow''"
  shows "or_action r = ActReplaceToken \<and>
    (if extract_bearer hdr = ''''
     then ac_no_token_policy cfg = ''client-credentials'' \<and>
       (\<exists>resp. client_credentials cl now (route_audience cfg rr host) (rr_scopes rr) = Inr resp \<and> ep_access_token resp = or_token r)
     else (\<exists>cache. as_cache st = Some cache \<and>
         exchange_get now (extract_bearer hdr) (route_audience cfg rr host) cache = Some (or_token r)) \<or>
       (\<exists>resp. exchange cl now \<lparr>er_subject_token = extract_bearer hdr, er_audience = route_audience cfg rr host,
         er_scopes = rr_scopes rr, er_actor_token = '''', er_token_endpoint = rr_token_endpoint rr\<rparr> = Inr resp \<and>
         ep_access_token resp = or_token r))"
proof (cases "extract_bearer hdr = ''''")
  case True
  then have "handle_no_token cfg now (route_audience cfg rr host) (rr_scopes rr) st = (r, st')"
    using assms(1,3-5) by (simp add: handle_outbound_def)
  from handle_no_token_exchanges[OF this assms(2,6,7)] True show ?thesis by simp
next
  case False
  then have "exchange_subject cfg now (extract_bearer hdr) (route_audience cfg rr host) (rr_scopes rr) (rr_token_endpoint rr) st = (r, st')"
    using assms(1,3-5) by (simp add: handle_outbound_def)
  from exchange_subject_exchanges[OF this assms(2,6)] False show ?thesis by simp
qed

lemma counter_sum_count_up [simp]: "counter_sum (count_up k n m) = counter_sum m + n"
proof -
  have "sum_list (map snd (gm_put k v m)) = sum_list (map snd m) - gm_get_or 0 m k + v" for v
    by (induction m) (auto simp: gm_get_or_def)
  then show ?thesis by (simp add: counter_sum_def count_up_def)
qed

lemma total_count_updates [simp]:
  "total_count (s\<lparr>st_inbound_approvals := count_up a n (st_inbound_approvals s)\<rparr>) = total_count s + n"
  "total_count (s\<lparr>st_inbound_denials := count_up b n (st_inbound_denials s)\<rparr>) = total_count s + n"
  "total_count (s\<lparr>st_outbound_approvals := count_up d n (st_outbound_approvals s)\<rparr>) = total_count s + n"
  "total_count (s\<lparr>st_outbound_denials := count_up e n (st_outbound_denials s)\<rparr>) = total_count s + n"
  "total_count (s\<lparr>st_outbound_replace_tokens := count_up f n (st_outbound_replace_tokens s)\<rparr>) = total_count s + n"
  by (simp_all add: total_count_def)

lemma exchange_subject_counts:
  "total_count (as_stats (snd (exchange_subject cfg now s a sc ep st))) = total_count (as_stats st) + 1"
  by (simp add: exchange_subject_def Let_def split: option.split sum.split)

lemma handle_no_token_counts:
  "total_count (as_stats (snd (handle_no_token cfg now a sc st))) = total_count (as_stats st) + 1"
  by (simp add: handle_no_token_def split: option.split sum.split)

section \<open>Properties\<close>

text \<open>Every outbound decision is counted exactly once, and so is every inbound
  decision except the refusal, with status 503, of a request that arrives while
  no audience is known.\<close>
lemma decisions_counted:
  "total_count (as_stats (snd (handle_outbound cfg now hdr host st))) = total_count (as_stats st) + 1 \<and>
   total_count (as_stats (snd (handle_inbound cfg hdr path aud st))) =
     total_count (as_stats st) + (if ir_deny_status (fst (handle_inbound cfg hdr path aud st)) = 503 then 0 else 1)"
proof
  show "total_count (as_stats (snd (handle_outbound cfg now hdr host st))) = total_count (as_stats st) + 1"
    by (simp add: handle_outbound_def Let_def exchange_subject_counts handle_no_token_counts split: option.split)
  show "total_count (as_stats (snd (handle_inbound cfg hdr path aud st))) =
     total_count (as_stats st) + (if ir_deny_status (fst (handle_inbound cfg hdr path aud st)) = 503 then 0 else 1)"
    by (simp add: handle_inbound_def Let_def inbound_deny_def inbound_allow_def split: option.split sum.split)
qed

end
