(* ===== verification/Forward_Proxy.thy ===== *)
theory Forward_Proxy
  imports Reverse_Proxy Tls_Bridge Auth_Handler
begin

text \<open>
  The forward proxy for the traffic of the agent
  (\<^verbatim>\<open>authlib/listener/forwardproxy\<close>): plain requests, CONNECT tunnels, captured
  connections and connections that the TLS bridge decrypts, and the listener that
  receives captured connections (\<^verbatim>\<open>authlib/listener/transparentproxy\<close>).

  The network is a parameter: \<^verbatim>\<open>send\<close> is a client of the proxy with its transport,
  \<^verbatim>\<open>dial\<close> opens a TCP connection, \<^verbatim>\<open>probe\<close> is the HEAD request that verifies an origin.
  What the agent does on its connection is a record; the two parsers of the standard
  library that look for a host name in its first bytes are fields of that record.
  Everything the proxy does towards the network is an output of the model, in order.
\<close>

section \<open>Server\<close>

record 'w fw_server =
  fw_pipeline :: "'w pipeline"
  fw_shared :: bool
  fw_skip_hosts :: "(string \<times> glob) list"
  fw_bridge :: "bridge_decision option"

text \<open>The session store, counters and world of every listener, and the mutable parts of the bridge.\<close>
record ('w, 'c) fw_state =
  fs_lw :: "'w lworld"
  fs_skip :: skip_set
  fs_minter :: "'c minter"

text \<open>The client that carries a request: the one of the proxy, which may use mesh mTLS, or the one of the bridge.\<close>
datatype client_kind = MeshClient | BridgeClient

datatype egress = Sent client_kind http_request | Probed string | Dialed string | Tunnelled string

type_synonym 'w send = "client_kind \<Rightarrow> http_request \<Rightarrow> 'w \<Rightarrow> (string + http_response) \<times> 'w"

section \<open>Session events\<close>

definition outbound_session_id :: "time \<Rightarrow> store option \<Rightarrow> string" where
  "outbound_session_id now so =
     (case so of
        None \<Rightarrow> DefaultSessionID
      | Some s \<Rightarrow> if active_session now s = '''' then DefaultSessionID else active_session now s)"

definition with_active_view :: "time \<Rightarrow> store option \<Rightarrow> pcontext \<Rightarrow> pcontext" where
  "with_active_view now so c =
     (case so of
        None \<Rightarrow> c
      | Some s \<Rightarrow> if active_session now s = '''' then c else c\<lparr>c_session := store_view now (active_session now s) s\<rparr>)"

definition record_outbound_reject :: "time \<Rightarrow> violation option \<Rightarrow> pcontext \<Rightarrow> store option \<Rightarrow> store option option" where
  "record_outbound_reject now vo c so =
     (if ext_invocations (c_extensions c) = None then Some so
      else append_event now (outbound_session_id now so) (denied_event now Outbound vo None c) so)"

text \<open>An event is kept when it shows a protocol, an invocation of its phase, or an entry of a plugin.\<close>
definition append_observable :: "time \<Rightarrow> session_event \<Rightarrow> store option \<Rightarrow> store option option" where
  "append_observable now ev so =
     (if ev_mcp ev \<noteq> None \<or> ev_inference ev \<noteq> None \<or> ev_invocations ev \<noteq> None \<or> ev_plugins ev \<noteq> []
      then append_event now (outbound_session_id now so) ev so else Some so)"

definition record_outbound_request :: "time \<Rightarrow> pcontext \<Rightarrow> store option \<Rightarrow> store option option" where
  "record_outbound_request now c so =
     append_observable now
       ((base_event now Outbound SessionRequest InvocationPhaseRequest c)
          \<lparr>ev_mcp := ext_mcp (c_extensions c), ev_inference := ext_inference (c_extensions c)\<rparr>) so"

definition record_outbound_response_event :: "time \<Rightarrow> int \<Rightarrow> pcontext \<Rightarrow> store option \<Rightarrow> store option option" where
  "record_outbound_response_event now status c so =
     append_observable now
       ((base_event now Outbound SessionResponse InvocationPhaseResponse c)
          \<lparr>ev_mcp := ext_mcp (c_extensions c), ev_inference := ext_inference (c_extensions c), ev_status_code := status,
           ev_error := derive_error c, ev_duration := duration_since (c_started_at c) now\<rparr>) so"

definition record_tunnel_opened :: "time \<Rightarrow> pcontext \<Rightarrow> store option \<Rightarrow> store option option" where
  "record_tunnel_opened now c so = append_observable now (base_event now Outbound SessionRequest InvocationPhaseRequest c) so"

section \<open>Requests\<close>

definition hop_by_hop :: "string list" where
  "hop_by_hop = [''Connection'', ''Keep-Alive'', ''Proxy-Authenticate'', ''Proxy-Authorization'', ''Proxy-Connection'',
     ''Te'', ''Trailer'', ''Transfer-Encoding'', ''Upgrade'']"

text \<open>The request that leaves the proxy.\<close>
definition outbound_request :: "header \<Rightarrow> http_request \<Rightarrow> pcontext \<Rightarrow> http_request" where
  "outbound_request original rq c =
     (let new_auth = hdr_get (c_headers c) ''Authorization'';
          rq1 = (if new_auth \<noteq> hdr_get original ''Authorization''
                 then rq\<lparr>rq_headers := hdr_set ''Authorization'' (''Bearer '' @ extract_bearer new_auth) (rq_headers rq)\<rparr> else rq);
          rq2 = (if c_body_mutated c then with_body (c_body c) rq1 else rq1)
      in rq2\<lparr>rq_headers := fold hdr_del hop_by_hop (rq_headers rq2)\<rparr>)"

section \<open>Streaming responses\<close>

text \<open>The loop over the frames; the client takes \<^verbatim>\<open>room\<close> frames before a write to it fails.\<close>
fun stream_frames ::
  "('w \<Rightarrow> bool) \<Rightarrow> 'w pipeline \<Rightarrow> bool \<Rightarrow> nat \<Rightarrow> bytes list \<Rightarrow> pcontext \<Rightarrow> 'w \<Rightarrow> bytes \<times> bool \<times> pcontext \<times> 'w" where
  "stream_frames ctx_err p failed room [] c w = ([], failed, c, w)"
| "stream_frames ctx_err p failed room (f # fs) c w =
     (case run_response_frame ctx_err p f False c w of
        (Reject _, c1, w1) \<Rightarrow> ([], True, c1, w1)
      | (Continue, c1, w1) \<Rightarrow>
          if room = 0 then ([], True, c1, w1)
          else case stream_frames ctx_err p failed (room - 1) fs c1 w1 of
                 (bs, t, c2, w2) \<Rightarrow> (write_sse_frame f @ bs, t, c2, w2))"

text \<open>\<^verbatim>\<open>handleStreamingResponse\<close> with a writer that can flush: the deferred last call and the event included.\<close>
definition handle_streaming_response ::
  "('w \<Rightarrow> bool) \<Rightarrow> ('w \<Rightarrow> time) \<Rightarrow> 'w pipeline \<Rightarrow> nat \<Rightarrow> http_response \<Rightarrow> body \<Rightarrow> pcontext \<Rightarrow> 'w lworld \<Rightarrow>
   (client_reply \<times> pcontext \<times> 'w lworld) option" where
  "handle_streaming_response ctx_err clock p room r b c st =
     (case read_frames maxBodySize (snd b) (fst b) of
        (fs, e) \<Rightarrow>
          (case stream_frames ctx_err p (e \<noteq> None) room fs c (lw_world st) of
             (bs, t, c1, w1) \<Rightarrow>
               (case run_response_frame ctx_err p [] True c1 w1 of
                  (_, c2, w2) \<Rightarrow>
                    map_option (\<lambda>so. (\<lparr>rp_status = hs_status r, rp_headers = hdr_del ''Content-Length'' (hs_headers r),
                        rp_body = RawDoc bs, rp_aborted = t\<rparr>, c2, st\<lparr>lw_store := so, lw_world := w2\<rparr>))
                      (record_outbound_response_event (clock w2) (hs_status r) c2 (lw_store st)))))"

text \<open>The frames of a buffered stream; the first rejection is the result.\<close>
fun fallback_frames ::
  "('w \<Rightarrow> bool) \<Rightarrow> 'w pipeline \<Rightarrow> bytes list \<Rightarrow> pcontext \<Rightarrow> 'w \<Rightarrow> violation option option \<times> pcontext \<times> 'w" where
  "fallback_frames ctx_err p [] c w =
     (case run_response_frame ctx_err p [] True c w of
        (Reject v, c1, w1) \<Rightarrow> (Some v, c1, w1)
      | (Continue, c1, w1) \<Rightarrow> (None, c1, w1))"
| "fallback_frames ctx_err p (f # fs) c w =
     (case run_response_frame ctx_err p f False c w of
        (Reject v, c1, w1) \<Rightarrow> (Some v, c1, w1)
      | (Continue, c1, w1) \<Rightarrow> fallback_frames ctx_err p fs c1 w1)"

text \<open>The body of a response within the bound, or the message of the 502.\<close>
definition read_response_body :: "body \<Rightarrow> string + bytes" where
  "read_response_body b =
     (case read_limited (maxBodySize + 1) b of
        Inl _ \<Rightarrow> Inl ''response body read error''
      | Inr bs \<Rightarrow> if length bs > maxBodySize then Inl ''response body too large'' else Inr bs)"

definition stream_fallback_buffered ::
  "('w \<Rightarrow> bool) \<Rightarrow> ('w \<Rightarrow> time) \<Rightarrow> 'w pipeline \<Rightarrow> http_response \<Rightarrow> body \<Rightarrow> pcontext \<Rightarrow> 'w lworld \<Rightarrow>
   (client_reply \<times> pcontext \<times> 'w lworld) option" where
  "stream_fallback_buffered ctx_err clock p r b c0 st =
     (case read_response_body b of
        Inl msg \<Rightarrow> Some (error_reply 502 msg, c0, st)
      | Inr bs \<Rightarrow>
          (case run_response ctx_err p (c0\<lparr>c_response_body := bs\<rparr>) (lw_world st) of
             (Reject v, c1, w1) \<Rightarrow> Some (write_rejection v, c1, st\<lparr>lw_world := w1\<rparr>)
           | (Continue, c1, w1) \<Rightarrow>
               (case (if has_streaming_responders p
                      then fallback_frames ctx_err p (fst (read_frames maxBodySize StreamEOF bs)) c1 w1 else (None, c1, w1)) of
                  (Some v, c2, w2) \<Rightarrow> Some (write_rejection v, c2, st\<lparr>lw_world := w2\<rparr>)
                | (None, c2, w2) \<Rightarrow>
                    map_option (\<lambda>so. (copy_reply (r\<lparr>hs_body := Some (bs, StreamEOF)\<rparr>), c2, st\<lparr>lw_store := so, lw_world := w2\<rparr>))
                      (record_outbound_response_event (clock w2) (hs_status r) c2 (lw_store st)))))"

section \<open>Buffered responses\<close>

text \<open>The response phase of a request that was not skipped; \<^verbatim>\<open>flush\<close> is the room of a writer that can flush.\<close>
definition outbound_response ::
  "('w \<Rightarrow> bool) \<Rightarrow> ('w \<Rightarrow> time) \<Rightarrow> 'w pipeline \<Rightarrow> nat option \<Rightarrow> http_response \<Rightarrow> pcontext \<Rightarrow> 'w lworld \<Rightarrow>
   (client_reply \<times> pcontext \<times> 'w lworld) option" where
  "outbound_response ctx_err clock p flush r c0 st =
     (let c = c0\<lparr>c_status_code := hs_status r, c_response_headers := hs_headers r\<rparr> in
      if wants_streaming p r
      then (case flush of
              Some room \<Rightarrow> handle_streaming_response ctx_err clock p room r (the (hs_body r)) c st
            | None \<Rightarrow> stream_fallback_buffered ctx_err clock p r (the (hs_body r)) c st)
      else
        (case (case hs_body r of
                 Some b \<Rightarrow> if needs_body p then map_sum id (\<lambda>bs. (r\<lparr>hs_body := Some (bs, StreamEOF)\<rparr>, c\<lparr>c_response_body := bs\<rparr>)) (read_response_body b)
                           else Inr (r, c)
               | None \<Rightarrow> Inr (r, c)) of
           Inl msg \<Rightarrow> Some (error_reply 502 msg, c, st)
         | Inr (r1, c1) \<Rightarrow>
             (case run_buffered ctx_err p r1 c1 (lw_world st) of
                (Some v, c2, w2) \<Rightarrow> Some (write_rejection v, c2, st\<lparr>lw_world := w2\<rparr>)
              | (None, c2, w2) \<Rightarrow>
                  (let r2 = (if c_response_body_mutated c2 then with_response_body (c_response_body c2) r1 else r1)
                   in map_option (\<lambda>so. (copy_reply r2, c2, st\<lparr>lw_store := so, lw_world := w2\<rparr>))
                        (record_outbound_response_event (clock w2) (hs_status r2) c2 (lw_store st))))))"

section \<open>Plain and decrypted requests\<close>

definition outbound_context :: "'w fw_server \<Rightarrow> http_request \<Rightarrow> time \<Rightarrow> pcontext" where
  "outbound_context srv rq now =
     new_context Outbound (rq_method rq) (rq_scheme rq) (rq_host rq) (rq_path rq) (rq_headers rq) (fw_shared srv) now"

definition client_for :: "'w fw_server \<Rightarrow> bool \<Rightarrow> client_kind" where
  "client_for srv is_bridge = (if is_bridge \<and> fw_bridge srv \<noteq> None then BridgeClient else MeshClient)"

text \<open>\<^verbatim>\<open>serveOutbound\<close> of a host on the skip list: the request goes out as it came.\<close>
definition serve_skipped ::
  "'w fw_server \<Rightarrow> 'w send \<Rightarrow> bool \<Rightarrow> http_request \<Rightarrow> pcontext \<Rightarrow> 'w lworld \<Rightarrow> client_reply \<times> egress list \<times> 'w lworld" where
  "serve_skipped srv send is_bridge rq c st =
     (let k = client_for srv is_bridge; rq1 = outbound_request (c_headers c) rq c in
      case send k rq1 (lw_world st) of
        (Inl _, w1) \<Rightarrow> (error_reply 502 ''bad gateway'', [Sent k rq1], st\<lparr>lw_world := w1\<rparr>)
      | (Inr r, w1) \<Rightarrow> (copy_reply r, [Sent k rq1], st\<lparr>lw_world := w1\<rparr>))"

text \<open>The rest of \<^verbatim>\<open>serveOutbound\<close> before the deferred finish.\<close>
definition serve_gated ::
  "('w \<Rightarrow> bool) \<Rightarrow> ('w \<Rightarrow> time) \<Rightarrow> 'w fw_server \<Rightarrow> 'w send \<Rightarrow> nat option \<Rightarrow> bool \<Rightarrow> http_request \<Rightarrow> pcontext \<Rightarrow> 'w lworld \<Rightarrow>
   (client_reply \<times> egress list \<times> pcontext \<times> 'w lworld) option" where
  "serve_gated ctx_err clock srv send flush is_bridge rq c0 st =
     (let p = fw_pipeline srv; k = client_for srv is_bridge in
      case buffer_request p rq c0 of
        Inl _ \<Rightarrow> Some (error_reply 413 ''request body too large'', [], c0, st)
      | Inr (rq1, c1) \<Rightarrow>
          (case run ctx_err p (with_active_view (clock (lw_world st)) (lw_store st) c1) (lw_world st) of
             (Reject v, c2, w2) \<Rightarrow> do {
               so \<leftarrow> record_outbound_reject (clock w2) v c2 (lw_store st);
               Some (write_rejection_for_request v c2, [], c2, st\<lparr>lw_store := so, lw_world := w2\<rparr>) }
           | (Continue, c2, w2) \<Rightarrow> do {
               so \<leftarrow> record_outbound_request (clock w2) c2 (lw_store st);
               let rq2 = outbound_request (c_headers c1) rq1 c2;
               (case send k rq2 w2 of
                  (Inl _, w3) \<Rightarrow> Some (error_reply 502 ''bad gateway'', [Sent k rq2], c2, st\<lparr>lw_store := so, lw_world := w3\<rparr>)
                | (Inr r, w3) \<Rightarrow>
                    map_option (\<lambda>(reply, c3, st3). (reply, [Sent k rq2], c3, st3))
                      (outbound_response ctx_err clock p flush r c2 (st\<lparr>lw_store := so, lw_world := w3\<rparr>))) }))"

definition serve_outbound ::
  "('w \<Rightarrow> bool) \<Rightarrow> ('w \<Rightarrow> time) \<Rightarrow> 'w fw_server \<Rightarrow> 'w send \<Rightarrow> nat option \<Rightarrow> bool \<Rightarrow> http_request \<Rightarrow> 'w lworld \<Rightarrow>
   (client_reply \<times> egress list \<times> 'w lworld) option" where
  "serve_outbound ctx_err clock srv send flush is_bridge rq st =
     (let c0 = outbound_context srv rq (clock (lw_world st)) in
      if match_pattern (fw_skip_hosts srv) (rq_host rq) \<noteq> None then Some (serve_skipped srv send is_bridge rq c0 st)
      else do {
        (reply, out, c, st1) \<leftarrow> serve_gated ctx_err clock srv send flush is_bridge rq c0 st;
        (c', w') \<leftarrow> run_finish clock (fw_pipeline srv) (outcome_from_context c) c (lw_world st1);
        Some (reply, out, st1\<lparr>lw_world := w'\<rparr>) })"

section \<open>Connections\<close>

text \<open>The agent's side of a connection: its first bytes, what the parsers find in them, the name and the
  judgement of its TLS client, and the requests it makes once the handshake succeeded.\<close>
record 'c agent_conn =
  cn_first :: bytes
  cn_hello_name :: string
  cn_http_host :: string
  cn_server_name :: string
  cn_accepts :: "'c \<Rightarrow> bool"
  cn_requests :: "http_request list"

definition host_only :: "string \<Rightarrow> string" where
  "host_only authority = (case split_host_port authority of Some (h, _) \<Rightarrow> h | None \<Rightarrow> authority)"

definition port_of :: "string \<Rightarrow> int" where
  "port_of authority =
     (case split_host_port authority of
        Some (_, p) \<Rightarrow> (case atoi p of Some n \<Rightarrow> n | None \<Rightarrow> 443)
      | None \<Rightarrow> 443)"

definition join_host_port :: "string \<Rightarrow> string \<Rightarrow> string" where
  "join_host_port host port = (if CHR '':'' \<in> set host then ''['' @ host @ '']:'' @ port else host @ '':'' @ port)"

definition should_sniff :: "string \<Rightarrow> bool" where
  "should_sniff dst =
     (case split_host_port dst of
        None \<Rightarrow> False
      | Some (_, port) \<Rightarrow> port \<in> {''80'', ''443'', ''8080'', ''8443''})"

definition sniff_strip_port :: "string \<Rightarrow> string" where
  "sniff_strip_port host = (if host = '''' then '''' else case split_host_port host of Some (h, _) \<Rightarrow> h | None \<Rightarrow> host)"

definition sniff_host :: "'c agent_conn \<Rightarrow> string" where
  "sniff_host cn =
     (case cn_first cn of
        [] \<Rightarrow> ''''
      | b # _ \<Rightarrow>
          if b = CHR 0x16 then sniff_strip_port (cn_hello_name cn)
          else if 65 \<le> (of_char b :: nat) \<and> (of_char b :: nat) \<le> 90 then sniff_strip_port (cn_http_host cn)
          else '''')"

text \<open>The requests of a decrypted connection, one after the other.\<close>
fun serve_decrypted ::
  "('w \<Rightarrow> bool) \<Rightarrow> ('w \<Rightarrow> time) \<Rightarrow> 'w fw_server \<Rightarrow> 'w send \<Rightarrow> nat option \<Rightarrow> string \<Rightarrow> http_request list \<Rightarrow> 'w lworld \<Rightarrow>
   (client_reply list \<times> egress list \<times> 'w lworld) option" where
  "serve_decrypted ctx_err clock srv send flush authority [] st = Some ([], [], st)"
| "serve_decrypted ctx_err clock srv send flush authority (rq # rqs) st = do {
     (reply, out, st1) \<leftarrow> serve_outbound ctx_err clock srv send flush True (rq\<lparr>rq_scheme := ''https'', rq_url_host := authority\<rparr>) st;
     (replies, outs, st2) \<leftarrow> serve_decrypted ctx_err clock srv send flush authority rqs st1;
     Some (reply # replies, out @ outs, st2) }"

text \<open>The certificate that \<^verbatim>\<open>Terminate\<close> shows, and whether the agent completed the handshake.\<close>
definition terminate ::
  "('w \<Rightarrow> time) \<Rightarrow> (leaf \<Rightarrow> string + 'c) \<Rightarrow> 'c agent_conn \<Rightarrow> string \<Rightarrow> ('w, 'c) fw_state \<Rightarrow> bool \<times> ('w, 'c) fw_state" where
  "terminate clock sign cn host st =
     (case terminator_certificate (clock (lw_world (fs_lw st))) sign (cn_server_name cn) host (fs_minter st) of
        (r, m) \<Rightarrow> (case r of Inl _ \<Rightarrow> False | Inr cert \<Rightarrow> cn_accepts cn cert, st\<lparr>fs_minter := m\<rparr>))"

text \<open>\<^verbatim>\<open>bridgeServe\<close>: whether it consumed the connection, the replies it gave on it, and what it did.\<close>
definition bridge_serve ::
  "('w \<Rightarrow> bool) \<Rightarrow> ('w \<Rightarrow> time) \<Rightarrow> 'w fw_server \<Rightarrow> 'w send \<Rightarrow> (string \<Rightarrow> 'w \<Rightarrow> bool \<times> 'w) \<Rightarrow> (leaf \<Rightarrow> string + 'c) \<Rightarrow> nat option \<Rightarrow>
   'c agent_conn \<Rightarrow> string \<Rightarrow> string \<Rightarrow> ('w, 'c) fw_state \<Rightarrow> (bool \<times> client_reply list \<times> egress list \<times> ('w, 'c) fw_state) option" where
  "bridge_serve ctx_err clock srv send probe sign flush cn authority host st =
     (case probe authority (lw_world (fs_lw st)) of
        (False, w1) \<Rightarrow> Some (False, [], [Probed authority], st\<lparr>fs_lw := (fs_lw st)\<lparr>lw_world := w1\<rparr>\<rparr>)
      | (True, w1) \<Rightarrow>
          (case terminate clock sign cn (host_only authority) (st\<lparr>fs_lw := (fs_lw st)\<lparr>lw_world := w1\<rparr>\<rparr>) of
             (False, st1) \<Rightarrow>
               Some (True, [], [Probed authority], st1\<lparr>fs_skip := skip_add (clock (lw_world (fs_lw st1))) host (fs_skip st1)\<rparr>)
           | (True, st1) \<Rightarrow> do {
               (replies, out, lw) \<leftarrow> serve_decrypted ctx_err clock srv send flush authority (cn_requests cn) (fs_lw st1);
               Some (True, replies, Probed authority # out, st1\<lparr>fs_lw := lw\<rparr>) }))"

text \<open>The part that CONNECT and captured connections share, once the upstream is dialed: bridge the connection
  or tunnel it.\<close>
definition bridge_or_tunnel ::
  "('w \<Rightarrow> bool) \<Rightarrow> ('w \<Rightarrow> time) \<Rightarrow> 'w fw_server \<Rightarrow> 'w send \<Rightarrow> (string \<Rightarrow> 'w \<Rightarrow> bool \<times> 'w) \<Rightarrow> (string \<Rightarrow> 'w \<Rightarrow> bool \<times> 'w) \<Rightarrow>
   (leaf \<Rightarrow> string + 'c) \<Rightarrow> nat option \<Rightarrow> 'c agent_conn \<Rightarrow> bytes \<Rightarrow> string \<Rightarrow> string \<Rightarrow> ('w, 'c) fw_state \<Rightarrow>
   (client_reply list \<times> egress list \<times> ('w, 'c) fw_state) option" where
  "bridge_or_tunnel ctx_err clock srv send dial probe sign flush cn first host dst st =
     (case fw_bridge srv of
        None \<Rightarrow> Some ([], [Tunnelled dst], st)
      | Some d \<Rightarrow>
          if skip_contains (clock (lw_world (fs_lw st))) (host_only host) (fs_skip st) \<or>
             fst (classify d (host_only host) (port_of dst) first) \<noteq> Terminate
          then Some ([], [Tunnelled dst], st)
          else do {
            (consumed, replies, out, st1) \<leftarrow> bridge_serve ctx_err clock srv send probe sign flush cn host (host_only host) st;
            (if consumed then Some (replies, out, st1)
             else case dial dst (lw_world (fs_lw st1)) of
                    (ok, w2) \<Rightarrow> Some ([], out @ [Dialed dst] @ (if ok then [Tunnelled dst] else []),
                                  st1\<lparr>fs_lw := (fs_lw st1)\<lparr>lw_world := w2\<rparr>\<rparr>)) })"

section \<open>CONNECT\<close>

text \<open>What may fail on the way to an open tunnel: hijacking unsupported or refused, the 200 not written.\<close>
datatype hijack = NoHijacker | HijackFails | WriteFails | Hijacked

definition established :: client_reply where
  "established = \<lparr>rp_status = 200, rp_headers = [], rp_body = RawDoc [], rp_aborted = False\<rparr>"

text \<open>\<^verbatim>\<open>handleConnect\<close> behind its gate: the answer to the CONNECT, if any, the replies on a bridged connection, the egress.\<close>
definition open_tunnel ::
  "('w \<Rightarrow> bool) \<Rightarrow> ('w \<Rightarrow> time) \<Rightarrow> 'w fw_server \<Rightarrow> 'w send \<Rightarrow> (string \<Rightarrow> 'w \<Rightarrow> bool \<times> 'w) \<Rightarrow> (string \<Rightarrow> 'w \<Rightarrow> bool \<times> 'w) \<Rightarrow>
   (leaf \<Rightarrow> string + 'c) \<Rightarrow> nat option \<Rightarrow> hijack \<Rightarrow> 'c agent_conn \<Rightarrow> http_request \<Rightarrow> pcontext option \<Rightarrow> ('w, 'c) fw_state \<Rightarrow>
   (client_reply option \<times> client_reply list \<times> egress list \<times> ('w, 'c) fw_state) option" where
  "open_tunnel ctx_err clock srv send dial probe sign flush hj cn rq co st =
     (if hj = NoHijacker then Some (Some (error_reply 500 ''connect not supported by listener''), [], [], st)
      else case dial (rq_host rq) (lw_world (fs_lw st)) of
          (False, w1) \<Rightarrow>
            Some (Some (error_reply 502 ''bad gateway''), [], [Dialed (rq_host rq)], st\<lparr>fs_lw := (fs_lw st)\<lparr>lw_world := w1\<rparr>\<rparr>)
        | (True, w1) \<Rightarrow>
            (let st1 = st\<lparr>fs_lw := (fs_lw st)\<lparr>lw_world := w1\<rparr>\<rparr> in
             if hj = HijackFails \<or> hj = WriteFails then Some (None, [], [Dialed (rq_host rq)], st1)
             else do {
               so \<leftarrow> (case co of None \<Rightarrow> Some (lw_store (fs_lw st1)) | Some c \<Rightarrow> record_tunnel_opened (clock w1) c (lw_store (fs_lw st1)));
               (replies, out, st2) \<leftarrow> bridge_or_tunnel ctx_err clock srv send dial probe sign flush cn (take 5 (cn_first cn))
                  (rq_host rq) (rq_host rq) (st1\<lparr>fs_lw := (fs_lw st1)\<lparr>lw_store := so\<rparr>\<rparr>);
               Some (Some established, replies, Dialed (rq_host rq) # out, st2) }))"

definition connect_context :: "http_request \<Rightarrow> time \<Rightarrow> pcontext" where
  "connect_context rq now = new_context Outbound (rq_method rq) ''tcp'' (rq_host rq) '''' (rq_headers rq) False now"

definition handle_connect ::
  "('w \<Rightarrow> bool) \<Rightarrow> ('w \<Rightarrow> time) \<Rightarrow> 'w fw_server \<Rightarrow> 'w send \<Rightarrow> (string \<Rightarrow> 'w \<Rightarrow> bool \<times> 'w) \<Rightarrow> (string \<Rightarrow> 'w \<Rightarrow> bool \<times> 'w) \<Rightarrow>
   (leaf \<Rightarrow> string + 'c) \<Rightarrow> nat option \<Rightarrow> hijack \<Rightarrow> 'c agent_conn \<Rightarrow> http_request \<Rightarrow> ('w, 'c) fw_state \<Rightarrow>
   (client_reply option \<times> client_reply list \<times> egress list \<times> ('w, 'c) fw_state) option" where
  "handle_connect ctx_err clock srv send dial probe sign flush hj cn rq st =
     (if match_pattern (fw_skip_hosts srv) (rq_host rq) \<noteq> None
      then open_tunnel ctx_err clock srv send dial probe sign flush hj cn rq None st
      else
        (let lw = fs_lw st;
             c0 = with_active_view (clock (lw_world lw)) (lw_store lw) (connect_context rq (clock (lw_world lw)))
         in case run ctx_err (fw_pipeline srv) c0 (lw_world lw) of
              (Reject v, c1, w1) \<Rightarrow> do {
                so \<leftarrow> record_outbound_reject (clock w1) v c1 (lw_store lw);
                (c2, w2) \<leftarrow> run_finish clock (fw_pipeline srv) (outcome_from_context c1) c1 w1;
                Some (Some (write_rejection_for_request v c1), [], [], st\<lparr>fs_lw := lw\<lparr>lw_store := so, lw_world := w2\<rparr>\<rparr>) }
            | (Continue, c1, w1) \<Rightarrow> do {
                (reply, replies, out, st1) \<leftarrow> open_tunnel ctx_err clock srv send dial probe sign flush hj cn rq (Some c1)
                   (st\<lparr>fs_lw := lw\<lparr>lw_world := w1\<rparr>\<rparr>);
                (c2, w2) \<leftarrow> run_finish clock (fw_pipeline srv) (outcome_from_context c1) c1 (lw_world (fs_lw st1));
                Some (reply, replies, out, st1\<lparr>fs_lw := (fs_lw st1)\<lparr>lw_world := w2\<rparr>\<rparr>) }))"

section \<open>Captured connections\<close>

text \<open>The authority under which the plugins judge a captured connection, and whether its bytes can be peeked at.\<close>
definition captured_host :: "'w fw_server \<Rightarrow> 'c agent_conn \<Rightarrow> string \<Rightarrow> string \<times> bool" where
  "captured_host srv cn dst =
     (if should_sniff dst \<or> (case fw_bridge srv of None \<Rightarrow> False | Some d \<Rightarrow> handles_port d (port_of dst))
      then (if sniff_host cn \<noteq> ''''
            then (case split_host_port dst of Some (_, port) \<Rightarrow> join_host_port (sniff_host cn) port | None \<Rightarrow> dst)
            else dst, True)
      else (dst, False))"

definition captured_context :: "'w fw_server \<Rightarrow> string \<Rightarrow> time \<Rightarrow> pcontext" where
  "captured_context srv host now = new_context Outbound ''CONNECT'' ''tcp'' host '''' [] (fw_shared srv) now"

definition handle_transparent_conn ::
  "('w \<Rightarrow> time) \<Rightarrow> 'w fw_server \<Rightarrow> 'w send \<Rightarrow> (string \<Rightarrow> 'w \<Rightarrow> bool \<times> 'w) \<Rightarrow> (string \<Rightarrow> 'w \<Rightarrow> bool \<times> 'w) \<Rightarrow>
   (leaf \<Rightarrow> string + 'c) \<Rightarrow> nat option \<Rightarrow> 'c agent_conn \<Rightarrow> string \<Rightarrow> ('w, 'c) fw_state \<Rightarrow>
   (client_reply list \<times> egress list \<times> ('w, 'c) fw_state) option" where
  "handle_transparent_conn clock srv send dial probe sign flush cn dst st =
     (let lw = fs_lw st; (host, peeked) = captured_host srv cn dst;
          c0 = with_active_view (clock (lw_world lw)) (lw_store lw) (captured_context srv host (clock (lw_world lw)))
      in case run (\<lambda>_. False) (fw_pipeline srv) c0 (lw_world lw) of
           (Reject v, c1, w1) \<Rightarrow> do {
             so \<leftarrow> record_outbound_reject (clock w1) v c1 (lw_store lw);
             (c2, w2) \<leftarrow> run_finish clock (fw_pipeline srv) (outcome_from_context c1) c1 w1;
             Some ([], [], st\<lparr>fs_lw := lw\<lparr>lw_store := so, lw_world := w2\<rparr>\<rparr>) }
         | (Continue, c1, w1) \<Rightarrow> do {
             (replies, out, st1) \<leftarrow>
               (case dial dst w1 of
                  (False, w2) \<Rightarrow> Some ([], [Dialed dst], st\<lparr>fs_lw := lw\<lparr>lw_world := w2\<rparr>\<rparr>)
                | (True, w2) \<Rightarrow> do {
                    so \<leftarrow> record_tunnel_opened (clock w2) c1 (lw_store lw);
                    (replies, out, st1) \<leftarrow> bridge_or_tunnel (\<lambda>_. False) clock srv send dial probe sign flush cn
                       (if peeked then take 5 (cn_first cn) else []) host dst (st\<lparr>fs_lw := lw\<lparr>lw_store := so, lw_world := w2\<rparr>\<rparr>);
                    Some (replies, Dialed dst # out, st1) });
             (c2, w3) \<leftarrow> run_finish clock (fw_pipeline srv) (outcome_from_context c1) c1 (lw_world (fs_lw st1));
             Some (replies, out, st1\<lparr>fs_lw := (fs_lw st1)\<lparr>lw_world := w3\<rparr>\<rparr>) })"

section \<open>The listener for captured connections\<close>

definition byte_at :: "bytes \<Rightarrow> nat \<Rightarrow> nat" where
  "byte_at b i = of_char (b ! i)"

definition ipv4_string :: "nat list \<Rightarrow> string" where
  "ipv4_string bs = join_with ''.'' (map itoa bs)"

definition hex_char :: "nat \<Rightarrow> char" where
  "hex_char d = (if d < 10 then char_of (48 + d) else char_of (87 + d))"

fun hex_string :: "nat \<Rightarrow> string" where
  "hex_string n = (if n < 16 then [hex_char n] else hex_string (n div 16) @ [hex_char (n mod 16)])"

declare hex_string.simps [simp del]

text \<open>The first longest run of at least two zero units: where it begins and its length.\<close>
definition zero_run :: "nat list \<Rightarrow> (nat \<times> nat) option" where
  "zero_run us =
     (let runs = map (\<lambda>i. (i, length (takeWhile (\<lambda>u. u = 0) (drop i us)))) [0..<length us];
          longest = fold (\<lambda>(i, n) best. case best of None \<Rightarrow> if n \<ge> 2 then Some (i, n) else None
                                           | Some (j, m) \<Rightarrow> if n > m then Some (i, n) else best) runs None
      in longest)"

text \<open>\<^verbatim>\<open>IP.String\<close> of eight units.\<close>
definition ip_string :: "nat list \<Rightarrow> string" where
  "ip_string us =
     (if take 6 us = [0, 0, 0, 0, 0, 65535] then ipv4_string [us ! 6 div 256, us ! 6 mod 256, us ! 7 div 256, us ! 7 mod 256]
      else case zero_run us of
          None \<Rightarrow> join_with '':'' (map hex_string us)
        | Some (i, n) \<Rightarrow> join_with '':'' (map hex_string (take i us)) @ ''::'' @ join_with '':'' (map hex_string (drop (i + n) us)))"

text \<open>\<^verbatim>\<open>parseSockaddr\<close> on a little-endian machine.\<close>
definition parse_sockaddr :: "bytes \<Rightarrow> string + string" where
  "parse_sockaddr b =
     (if length b < 4 then Inl ''short sockaddr''
      else let family = byte_at b 0 + 256 * byte_at b 1; port = itoa (256 * byte_at b 2 + byte_at b 3) in
        if family = 2
        then (if length b < 8 then Inl ''short sockaddr_in''
              else Inr (join_host_port (ipv4_string (map (byte_at b) [4, 5, 6, 7])) port))
        else if family = 10
        then (if length b < 24 then Inl ''short sockaddr_in6''
              else Inr (join_host_port (ip_string (map (\<lambda>i. 256 * byte_at b (8 + 2 * i) + byte_at b (9 + 2 * i)) [0..<8])) port))
        else Inl ''unexpected sockaddr family'')"

text \<open>The checks of \<^verbatim>\<open>dispatch\<close>: the destination of a connection that is handed on.\<close>
definition transparent_dispatch :: "string + string \<Rightarrow> string \<Rightarrow> string option" where
  "transparent_dispatch original local =
     (case original of
        Inl _ \<Rightarrow> None
      | Inr dst \<Rightarrow>
          if dst = local \<or>
             (case split_host_port dst of
                Some (h, _) \<Rightarrow> (case parse_ip h of Some us \<Rightarrow> is_loopback us | None \<Rightarrow> False)
              | None \<Rightarrow> False)
          then None else Some dst)"

section \<open>Specification and sample inputs\<close>

text \<open>A request that left the proxy was let through by the pipeline, in the form the plugins gave it.\<close>
definition gated ::
  "('w \<Rightarrow> bool) \<Rightarrow> 'w fw_server \<Rightarrow> http_request \<Rightarrow> http_request \<Rightarrow> bool" where
  "gated ctx_err srv rq rq' \<longleftrightarrow> (\<exists>rq1 c1 c2 w1 w2 t.
     buffer_request (fw_pipeline srv) rq (outbound_context srv rq t) = Inr (rq1, c1) \<and>
     (\<exists>v. run ctx_err (fw_pipeline srv) (c1\<lparr>c_session := v\<rparr>) w1 = (Continue, c2, w2)) \<and>
     rq' = outbound_request (c_headers c1) rq1 c2)"

text \<open>The host of the request is on the skip list, and it left as it came.\<close>
definition skipped :: "'w fw_server \<Rightarrow> http_request \<Rightarrow> http_request \<Rightarrow> bool" where
  "skipped srv rq rq' \<longleftrightarrow> match_pattern (fw_skip_hosts srv) (rq_host rq) \<noteq> None \<and>
     rq' = rq\<lparr>rq_headers := fold hdr_del hop_by_hop (rq_headers rq)\<rparr>"

text \<open>What a captured connection may do: dial and tunnel to the address it was captured for, probe the name found
  in its first bytes, and send what the agent asked for over the client of the bridge, to that name.\<close>
definition captured_ok :: "'w fw_server \<Rightarrow> 'c agent_conn \<Rightarrow> string \<Rightarrow> string \<Rightarrow> egress \<Rightarrow> bool" where
  "captured_ok srv cn host dst x =
     (case x of
        Dialed a \<Rightarrow> a = dst
      | Tunnelled a \<Rightarrow> a = dst
      | Probed a \<Rightarrow> a = host
      | Sent k rq' \<Rightarrow> k = BridgeClient \<and>
          (\<exists>rq \<in> set (cn_requests cn). skipped srv (rq\<lparr>rq_scheme := ''https'', rq_url_host := host\<rparr>) rq' \<or>
             gated (\<lambda>_. False) srv (rq\<lparr>rq_scheme := ''https'', rq_url_host := host\<rparr>) rq'))"

text \<open>A guard that lets connections open and rejects every request, a skip list for a collector, and an agent that
  names the collector in the request it makes to another host.\<close>
definition deny_http :: "unit plugin" where
  "deny_http = (pass_plugin ''guard'')\<lparr>pl_on_request := (\<lambda>c w. (if c_method c = ''CONNECT'' then Continue else Deny ''policy.forbidden'' ''no'', c, w))\<rparr>"

definition guard_server :: "unit fw_server" where
  "guard_server = \<lparr>fw_pipeline = chain [deny_http] [], fw_shared = False, fw_skip_hosts = [(''otel'', \<lambda>h. h = ''otel'')],
     fw_bridge = Some (new_decision None [])\<rparr>"

definition evasive_request :: http_request where
  "evasive_request = \<lparr>rq_method = ''POST'', rq_scheme = '''', rq_url_host = '''', rq_host = ''otel'', rq_path = ''/'',
     rq_headers = [], rq_body = None, rq_tls = None\<rparr>"

definition evasive_conn :: "leaf agent_conn" where
  "evasive_conn = \<lparr>cn_first = [CHR 0x16, CHR 0x03, CHR 0x01, CHR 0x00, CHR 0x05], cn_hello_name = ''api.example'', cn_http_host = '''',
     cn_server_name = ''api.example'', cn_accepts = (\<lambda>_. True), cn_requests = [evasive_request]\<rparr>"

definition guard_state :: "(unit, leaf) fw_state" where
  "guard_state = \<lparr>fs_lw = \<lparr>lw_store = None, lw_metrics = None, lw_world = ()\<rparr>, fs_skip = new_skip_set, fs_minter = new_minter 1 1\<rparr>"

definition guard_result where
  "guard_result = handle_transparent_conn (\<lambda>_. 0) guard_server (\<lambda>_ _ w. (Inl ''down'', w)) (\<lambda>_ w. (True, w)) (\<lambda>_ w. (True, w))
     Inr None evasive_conn ''10.9.8.7:443'' guard_state"

section \<open>Lemmas\<close>

subsection \<open>Requests\<close>

lemma hdr_get_fold_del: "k \<notin> set ks \<Longrightarrow> hdr_get (fold hdr_del ks h) k = hdr_get h k"
  by (induction ks arbitrary: h) (simp_all add: hdr_get_def hdr_del_def)

lemma with_active_view_eq: "\<exists>v. with_active_view now so c = c\<lparr>c_session := v\<rparr>"
  by (cases so) (auto simp: with_active_view_def intro: exI [of _ "c_session c"])

text \<open>The credential of the request is the one of the context when the plugins changed it.\<close>
lemma outbound_auth:
  "hdr_get (rq_headers (outbound_request (rq_headers rq) rq c)) ''Authorization'' =
     (if hdr_get (c_headers c) ''Authorization'' = hdr_get (rq_headers rq) ''Authorization'' then hdr_get (rq_headers rq) ''Authorization''
      else ''Bearer '' @ extract_bearer (hdr_get (c_headers c) ''Authorization''))"
proof -
  have "hdr_get (fold hdr_del hop_by_hop h) ''Authorization'' = hdr_get h ''Authorization''" for h
    by (rule hdr_get_fold_del) (simp add: hop_by_hop_def)
  then show ?thesis
    by (simp add: outbound_request_def with_body_def hdr_get_def hdr_set_def hdr_del_def Let_def)
qed

lemma outbound_context_frame [simp]:
  "c_headers (outbound_context srv rq t) = rq_headers rq" "c_host (outbound_context srv rq t) = rq_host rq"
  "c_body_mutated (outbound_context srv rq t) = False" "c_shared (outbound_context srv rq t) = fw_shared srv"
  by (simp_all add: outbound_context_def new_context_def)

lemma serve_skipped_out:
  assumes "match_pattern (fw_skip_hosts srv) (rq_host rq) \<noteq> None"
    and "serve_skipped srv send b rq (outbound_context srv rq t) st = (reply, out, st')"
  shows "\<exists>rq'. out = [Sent (client_for srv b) rq'] \<and> skipped srv rq rq'"
  using assms by (auto simp: serve_skipped_def skipped_def outbound_request_def Let_def split: prod.splits sum.splits)

lemma serve_gated_out:
  assumes "serve_gated ce clock srv send flush b rq c0 st = Some (reply, out, c, st')"
  shows "out = [] \<or> (\<exists>rq1 c1 c2 w2. buffer_request (fw_pipeline srv) rq c0 = Inr (rq1, c1) \<and>
     run ce (fw_pipeline srv) (with_active_view (clock (lw_world st)) (lw_store st) c1) (lw_world st) = (Continue, c2, w2) \<and>
     out = [Sent (client_for srv b) (outbound_request (c_headers c1) rq1 c2)])"
proof (cases "buffer_request (fw_pipeline srv) rq c0")
  case (Inr x)
  obtain rq1 c1 where x: "x = (rq1, c1)" by (cases x)
  obtain a c2 w2 where r: "run ce (fw_pipeline srv) (with_active_view (clock (lw_world st)) (lw_store st) c1) (lw_world st) = (a, c2, w2)"
    by (metis prod_cases3)
  obtain s w3 where n: "send (client_for srv b) (outbound_request (c_headers c1) rq1 c2) w2 = (s, w3)" by fastforce
  show ?thesis
  proof (cases a)
    case Continue
    then show ?thesis using assms Inr x r n by (cases s) (auto simp: serve_gated_def Let_def bind_eq_Some_conv)
  qed (use assms Inr x r in \<open>auto simp: serve_gated_def Let_def bind_eq_Some_conv\<close>)
qed (use assms in \<open>simp add: serve_gated_def\<close>)

lemma serve_outbound_out:
  assumes "serve_outbound ce clock srv send flush b rq st = Some (reply, out, st')" "x \<in> set out"
  shows "\<exists>rq'. x = Sent (client_for srv b) rq' \<and> (skipped srv rq rq' \<or> gated ce srv rq rq')"
proof (cases "match_pattern (fw_skip_hosts srv) (rq_host rq) = None")
  case True
  with assms(1) obtain c st1 where
    g: "serve_gated ce clock srv send flush b rq (outbound_context srv rq (clock (lw_world st))) st = Some (reply, out, c, st1)"
    by (auto simp: serve_outbound_def Let_def bind_eq_Some_conv split: prod.splits)
  from serve_gated_out [OF g] assms(2) obtain rq1 c1 c2 w2 where
    "buffer_request (fw_pipeline srv) rq (outbound_context srv rq (clock (lw_world st))) = Inr (rq1, c1)"
    "run ce (fw_pipeline srv) (with_active_view (clock (lw_world st)) (lw_store st) c1) (lw_world st) = (Continue, c2, w2)"
    "x = Sent (client_for srv b) (outbound_request (c_headers c1) rq1 c2)" by auto
  then show ?thesis using with_active_view_eq [of "clock (lw_world st)" "lw_store st" c1] unfolding gated_def by metis
next
  case False
  then show ?thesis using assms serve_skipped_out [OF False]
    by (fastforce simp: serve_outbound_def Let_def)
qed

lemma serve_decrypted_out:
  assumes "serve_decrypted ce clock srv send flush a rqs st = Some (replies, out, st')" "x \<in> set out"
  shows "\<exists>rq \<in> set rqs. \<exists>rq'. x = Sent (client_for srv True) rq' \<and>
     (skipped srv (rq\<lparr>rq_scheme := ''https'', rq_url_host := a\<rparr>) rq' \<or> gated ce srv (rq\<lparr>rq_scheme := ''https'', rq_url_host := a\<rparr>) rq')"
  using assms
proof (induction rqs arbitrary: st replies out)
  case (Cons rq rqs)
  from Cons.prems(1) obtain reply out1 st1 replies2 out2 where
    s: "serve_outbound ce clock srv send flush True (rq\<lparr>rq_scheme := ''https'', rq_url_host := a\<rparr>) st = Some (reply, out1, st1)"
    "serve_decrypted ce clock srv send flush a rqs st1 = Some (replies2, out2, st')" "out = out1 @ out2"
    by (auto simp: bind_eq_Some_conv split: prod.splits)
  show ?case
  proof (cases "x \<in> set out1")
    case True
    from serve_outbound_out [OF s(1) this] show ?thesis by auto
  next
    case False
    then show ?thesis using Cons.IH [OF s(2)] Cons.prems(2) s(3) by auto
  qed
qed simp

subsection \<open>Connections\<close>

lemma bridge_serve_out:
  assumes "bridge_serve ce clock srv send probe sign flush cn a key st = Some (consumed, replies, out, st')" "x \<in> set out"
  shows "x = Probed a \<or> (\<exists>rq \<in> set (cn_requests cn). \<exists>rq'. x = Sent (client_for srv True) rq' \<and>
     (skipped srv (rq\<lparr>rq_scheme := ''https'', rq_url_host := a\<rparr>) rq' \<or> gated ce srv (rq\<lparr>rq_scheme := ''https'', rq_url_host := a\<rparr>) rq'))"
proof -
  obtain ok w1 where p: "probe a (lw_world (fs_lw st)) = (ok, w1)" by fastforce
  obtain t st1 where t: "terminate clock sign cn (host_only a) (st\<lparr>fs_lw := (fs_lw st)\<lparr>lw_world := w1\<rparr>\<rparr>) = (t, st1)" by fastforce
  show ?thesis
  proof (cases "ok \<and> t")
    case True
    with assms(1) p t obtain out2 lw where
      "serve_decrypted ce clock srv send flush a (cn_requests cn) (fs_lw st1) = Some (replies, out2, lw)" "out = Probed a # out2"
      by (auto simp: bridge_serve_def bind_eq_Some_conv split: prod.splits)
    then show ?thesis using serve_decrypted_out assms(2) by fastforce
  qed (use assms p t in \<open>auto simp: bridge_serve_def split: bool.splits\<close>)
qed

lemma bridge_or_tunnel_out:
  assumes "bridge_or_tunnel (\<lambda>_. False) clock srv send dial probe sign flush cn first host dst st = Some (replies, out, st')" "x \<in> set out"
  shows "captured_ok srv cn host dst x"
proof (cases "fw_bridge srv")
  case None
  then show ?thesis using assms by (auto simp: bridge_or_tunnel_def captured_ok_def)
next
  case (Some d)
  then have k: "client_for srv True = BridgeClient" by (simp add: client_for_def)
  show ?thesis
  proof (cases "skip_contains (clock (lw_world (fs_lw st))) (host_only host) (fs_skip st) \<or>
      fst (classify d (host_only host) (port_of dst) first) \<noteq> Terminate")
    case True
    then show ?thesis using assms Some by (auto simp: bridge_or_tunnel_def captured_ok_def)
  next
    case False
    with assms(1) Some obtain consumed rs o1 st1 where
      b: "bridge_serve (\<lambda>_. False) clock srv send probe sign flush cn host (host_only host) st = Some (consumed, rs, o1, st1)"
      by (auto simp: bridge_or_tunnel_def bind_eq_Some_conv)
    then have "x \<in> set o1 \<or> x = Dialed dst \<or> x = Tunnelled dst"
      using assms False Some by (auto simp: bridge_or_tunnel_def split: if_splits prod.splits)
    then show ?thesis using bridge_serve_out [OF b, of x] k by (auto simp: captured_ok_def) blast+
  qed
qed

text \<open>Claim C5. The guard on captured connections: whenever the transparent path does anything towards the network,
  the pipeline let the connection pass, judged by the name in its first bytes; plain connections are opened and
  tunnelled only to the address the agent dialed, and a connection that the bridge decrypted produces only
  verified HTTPS requests to the judged name, each of which either passed the pipeline and leaves as the plugins
  left it, or names a host on the skip list.\<close>
theorem captured_egress_gated:
  assumes "handle_transparent_conn clock srv send dial probe sign flush cn dst st = Some (replies, out, st')" "x \<in> set out"
  defines "host \<equiv> fst (captured_host srv cn dst)"
  shows "(\<exists>v c1 w1. run (\<lambda>_. False) (fw_pipeline srv)
        ((captured_context srv host (clock (lw_world (fs_lw st))))\<lparr>c_session := v\<rparr>) (lw_world (fs_lw st)) = (Continue, c1, w1)) \<and>
     captured_ok srv cn host dst x"
proof -
  let ?lw = "fs_lw st"
  obtain peeked where h: "captured_host srv cn dst = (host, peeked)" unfolding host_def by (metis prod.collapse)
  define c0 where "c0 = with_active_view (clock (lw_world ?lw)) (lw_store ?lw) (captured_context srv host (clock (lw_world ?lw)))"
  obtain a c1 w1 where r: "run (\<lambda>_. False) (fw_pipeline srv) c0 (lw_world ?lw) = (a, c1, w1)" by (metis prod_cases3)
  obtain ok w2 where d: "dial dst w1 = (ok, w2)" by fastforce
  have a: "a = Continue" using assms(1,2) h r
    by (cases a) (auto simp: handle_transparent_conn_def c0_def Let_def bind_eq_Some_conv)
  have "captured_ok srv cn host dst x"
  proof (cases ok)
    case True
    with assms(1) h r d a obtain so rs o1 st1 where
      b: "bridge_or_tunnel (\<lambda>_. False) clock srv send dial probe sign flush cn
         (if peeked then take 5 (cn_first cn) else []) host dst (st\<lparr>fs_lw := ?lw\<lparr>lw_store := so, lw_world := w2\<rparr>\<rparr>) = Some (rs, o1, st1)"
      and "out = Dialed dst # o1"
      by (auto simp: handle_transparent_conn_def c0_def Let_def bind_eq_Some_conv split: prod.splits)
    then show ?thesis using bridge_or_tunnel_out [OF b] assms(2) by (auto simp: captured_ok_def)
  next
    case False
    then show ?thesis using assms(1,2) h r d a
      by (auto simp: handle_transparent_conn_def c0_def Let_def bind_eq_Some_conv captured_ok_def)
  qed
  moreover obtain v where "c0 = (captured_context srv host (clock (lw_world ?lw)))\<lparr>c_session := v\<rparr>"
    using with_active_view_eq unfolding c0_def by blast
  ultimately show ?thesis using r a by auto
qed

lemma guard_result_eq:
  "map_option (\<lambda>(replies, out, _). (replies, out)) guard_result = Some ([error_reply 502 ''bad gateway''],
     [Dialed ''10.9.8.7:443'', Probed ''api.example:443'',
      Sent BridgeClient (evasive_request\<lparr>rq_scheme := ''https'', rq_url_host := ''api.example:443''\<rparr>)])"
  by code_simp

theorem captured_egress_gated_witness:
  "\<exists>replies out st'. guard_result = Some (replies, out, st') \<and>
     captured_ok guard_server evasive_conn ''api.example:443'' ''10.9.8.7:443''
       (Sent BridgeClient (evasive_request\<lparr>rq_scheme := ''https'', rq_url_host := ''api.example:443''\<rparr>)) \<and>
     Sent BridgeClient (evasive_request\<lparr>rq_scheme := ''https'', rq_url_host := ''api.example:443''\<rparr>) \<in> set out"
proof -
  obtain replies out st' where g: "guard_result = Some (replies, out, st')" using guard_result_eq by fastforce
  then have m: "Sent BridgeClient (evasive_request\<lparr>rq_scheme := ''https'', rq_url_host := ''api.example:443''\<rparr>) \<in> set out"
    using guard_result_eq unfolding g by simp
  have h: "fst (captured_host guard_server evasive_conn ''10.9.8.7:443'') = ''api.example:443''" by code_simp
  show ?thesis using captured_egress_gated [OF g [unfolded guard_result_def] m] g m unfolding h by blast
qed

text \<open>Claim C40. On a captured connection that the bridge decrypted, the agent exempts itself: a request whose Host
  header matches the skip list leaves exactly as the agent wrote it, whatever plugins the pipeline has, although the
  host it is sent to is another one and captured connections are meant never to consult that list.\<close>
theorem captured_request_self_exempts:
  assumes "match_pattern (fw_skip_hosts srv) (rq_host rq) \<noteq> None"
  shows "\<exists>reply lw'. \<forall>p. serve_decrypted ce clock (srv\<lparr>fw_pipeline := p\<rparr>) send flush authority [rq] lw =
     Some ([reply], [Sent (client_for srv True) (rq\<lparr>rq_scheme := ''https'', rq_url_host := authority,
       rq_headers := fold hdr_del hop_by_hop (rq_headers rq)\<rparr>)], lw')"
proof -
  let ?rq = "rq\<lparr>rq_scheme := ''https'', rq_url_host := authority, rq_headers := fold hdr_del hop_by_hop (rq_headers rq)\<rparr>"
  obtain s w1 where s: "send (client_for srv True) ?rq (lw_world lw) = (s, w1)" by fastforce
  have k: "client_for (srv\<lparr>fw_pipeline := p\<rparr>) True = client_for srv True" for p by (simp add: client_for_def)
  show ?thesis
  proof (cases s)
    case (Inl e)
    then show ?thesis using assms s k
      by (simp add: serve_outbound_def serve_skipped_def outbound_request_def Let_def)
  next
    case (Inr r)
    then show ?thesis using assms s k
      by (simp add: serve_outbound_def serve_skipped_def outbound_request_def Let_def)
  qed
qed

text \<open>The whole of it on one connection: the guard rejects the request when it names its target, and the same
  request with the name of the collector is sent to the target.\<close>
theorem captured_request_self_exempts_witness:
  "(\<exists>reply lw'. serve_decrypted (\<lambda>_. False) (\<lambda>_. 0) guard_server (\<lambda>_ _ w. (Inl ''down'', w)) None ''api.example:443'' [evasive_request]
       (fs_lw guard_state) = Some ([reply], [Sent BridgeClient (evasive_request\<lparr>rq_scheme := ''https'', rq_url_host := ''api.example:443''\<rparr>)], lw')) \<and>
   map_option (\<lambda>(_, out, _). out) (serve_decrypted (\<lambda>_. False) (\<lambda>_. 0) guard_server (\<lambda>_ _ w. (Inl ''down'', w)) None ''api.example:443''
       [evasive_request\<lparr>rq_host := ''api.example''\<rparr>] (fs_lw guard_state)) = Some []"
proof -
  have m: "match_pattern (fw_skip_hosts guard_server) (rq_host evasive_request) \<noteq> None" by code_simp
  have e: "fold hdr_del hop_by_hop (rq_headers evasive_request) = []" by code_simp
  have p: "guard_server\<lparr>fw_pipeline := fw_pipeline guard_server\<rparr> = guard_server" "rq_headers evasive_request = []"
    by (simp_all add: guard_server_def evasive_request_def)
  have k: "client_for guard_server True = BridgeClient" by code_simp
  have u: "evasive_request\<lparr>rq_scheme := a, rq_url_host := b, rq_headers := []\<rparr> = evasive_request\<lparr>rq_scheme := a, rq_url_host := b\<rparr>" for a b
    by (simp add: evasive_request_def)
  obtain reply lw' where "serve_decrypted (\<lambda>_. False) (\<lambda>_. 0) guard_server (\<lambda>_ _ w. (Inl ''down'', w)) None ''api.example:443'' [evasive_request]
       (fs_lw guard_state) = Some ([reply], [Sent BridgeClient (evasive_request\<lparr>rq_scheme := ''https'', rq_url_host := ''api.example:443''\<rparr>)], lw')"
    using captured_request_self_exempts [OF m, of "\<lambda>_. False" "\<lambda>_. 0" "\<lambda>_ _ w. (Inl ''down'', w)" None "''api.example:443''" "fs_lw guard_state"]
    unfolding e k u by (metis p(1))
  moreover have "map_option (\<lambda>(_, out, _). out) (serve_decrypted (\<lambda>_. False) (\<lambda>_. 0) guard_server (\<lambda>_ _ w. (Inl ''down'', w)) None ''api.example:443''
       [evasive_request\<lparr>rq_host := ''api.example''\<rparr>] (fs_lw guard_state)) = Some []" by code_simp
  ultimately show ?thesis by blast
qed

subsection \<open>Addresses\<close>

lemma itoa_no_leading_zero: "length (itoa n) = 1 \<or> hd (itoa n) \<noteq> CHR ''0''"
proof (induction n rule: itoa.induct)
  case (1 n)
  show ?case
  proof (cases "n < 10")
    case False
    have "hd (itoa (n div 10)) \<noteq> CHR ''0''"
    proof (cases "n div 10 < 10")
      case True
      then have "n div 10 \<in> {1..9}" using False by auto
      then have "digit_char (n div 10) \<noteq> CHR ''0''" by (auto simp: digit_char_def char_of_eq_iff take_bit_nat_eq_self)
      then show ?thesis using True by (simp add: itoa.simps [of "n div 10"])
    next
      case F: False
      have "length (itoa (n div 10)) \<noteq> 1"
        using F itoa_digits [of "n div 10 div 10"] by (simp add: itoa.simps [of "n div 10"])
      then show ?thesis using 1 False by simp
    qed
    then show ?thesis using False itoa_digits [of "n div 10"] by (simp add: itoa.simps [of n] hd_append)
  qed (simp add: itoa.simps [of n])
qed

lemma digits_no_char: "list_all is_digit s \<Longrightarrow> \<not> is_digit c \<Longrightarrow> c \<notin> set s"
  by (auto simp: list_all_iff)

lemma parse_ipv4_string:
  assumes "a \<le> 255" "b \<le> 255" "c \<le> 255" "d \<le> 255"
  shows "parse_ipv4 (ipv4_string [a, b, c, d]) = Some [a, b, c, d]"
proof -
  have "\<forall>p \<in> set (map itoa [a, b, c, d]). CHR ''.'' \<notin> set p"
    using itoa_digits digits_no_char [of _ "CHR ''.''"] by (auto simp: is_digit_def)
  then have "split_on CHR ''.'' (ipv4_string [a, b, c, d]) = map itoa [a, b, c, d]"
    unfolding ipv4_string_def by (intro split_on_join) auto
  then show ?thesis using assms itoa_digits itoa_no_leading_zero by (simp add: parse_ipv4_def digits_val_itoa)
qed

lemma ipv4_string_chars: "set (ipv4_string bs) \<subseteq> insert CHR ''.'' {c. is_digit c}"
  unfolding ipv4_string_def by (induction bs rule: induct_list012) (use itoa_digits in \<open>auto simp: list_all_iff\<close>)

text \<open>The destination of a captured IPv4 connection is the address in the socket option, and it is handed on unless
  it is loopback or the listener itself.\<close>
lemma captured_ipv4:
  assumes "8 \<le> length b" "byte_at b 0 = 2" "byte_at b 1 = 0"
  defines "ip \<equiv> ipv4_string [byte_at b 4, byte_at b 5, byte_at b 6, byte_at b 7]"
  defines "dst \<equiv> ip @ '':'' @ itoa (256 * byte_at b 2 + byte_at b 3)"
  shows "transparent_dispatch (parse_sockaddr b) local = (if byte_at b 4 = 127 \<or> dst = local then None else Some dst)"
proof -
  let ?port = "itoa (256 * byte_at b 2 + byte_at b 3)"
  have nd: "\<not> is_digit CHR '':''" "\<not> is_digit CHR ''[''" "\<not> is_digit CHR '']''" by (simp_all add: is_digit_def)
  have ip: "CHR '':'' \<notin> set ip" "CHR ''['' \<notin> set ip" "CHR '']'' \<notin> set ip"
    using ipv4_string_chars nd unfolding ip_def by fastforce+
  have port: "CHR '':'' \<notin> set ?port" "CHR ''['' \<notin> set ?port" "CHR '']'' \<notin> set ?port"
    using itoa_digits digits_no_char nd by blast+
  have p: "parse_sockaddr b = Inr dst"
    using assms(1-3) ip(1) by (simp add: parse_sockaddr_def join_host_port_def dst_def ip_def)
  have "split_host_port dst = Some (ip, ?port)"
    using split_host_port_plain [OF ip port] by (simp add: dst_def)
  moreover have le: "byte_at b i \<le> 255" for i using nat_of_char_less_256 [of "b ! i"] unfolding byte_at_def by linarith
  have "parse_ip ip = Some [0, 0, 0, 0, 0, 65535, 256 * byte_at b 4 + byte_at b 5, 256 * byte_at b 6 + byte_at b 7]"
  proof -
    have "\<forall>c \<in> set (itoa (byte_at b 4)). is_digit c" using itoa_digits [of "byte_at b 4"] by (simp add: list_all_iff)
    then have d: "\<forall>c \<in> set (itoa (byte_at b 4)). (Not \<circ> (\<lambda>c. c \<in> set ''.:%'')) c" by (auto simp: is_digit_def)
    have dw: "dropWhile (Not \<circ> (\<lambda>c. c \<in> set ''.:%'')) (itoa (byte_at b 4) @ CHR ''.'' # r) = CHR ''.'' # r" for r
      by (subst dropWhile_append2) (use d in auto)
    obtain r where "ip = itoa (byte_at b 4) @ CHR ''.'' # r" by (auto simp: ip_def ipv4_string_def)
    then have "find (\<lambda>c. c \<in> set ''.:%'') ip = Some CHR ''.''" unfolding find_dropWhile by (simp only: dw list.case)
    then show ?thesis using parse_ipv4_string [OF le le le le, of 4 5 6 7] by (simp add: parse_ip_def ip_def)
  qed
  ultimately show ?thesis using p le [of 5] by (auto simp: transparent_dispatch_def is_loopback_def)
qed

end
