(* ===== verification/Plugin_Registry.thy ===== *)
theory Plugin_Registry
  imports Pipeline_Run
begin

text \<open>
  The plugin registry (\<^verbatim>\<open>authlib/plugins/registry.go\<close>): registration, the
  construction of a pipeline from the configured entries, and the validation
  of the relationships that plugins declare.

  A factory gives a fresh plugin; for a configurable plugin the field
  \<^verbatim>\<open>fa_configure\<close> is its \<^verbatim>\<open>Configure\<close>, which returns the configured plugin or an
  error.
\<close>

record 'w factory =
  fa_plugin :: "'w plugin"
  fa_configure :: "(bytes \<Rightarrow> string + 'w plugin) option"

type_synonym 'w registry = "(string, 'w factory) gomap"

record plugin_entry =
  en_name :: string
  en_config :: bytes
  en_on_error :: error_policy

datatype relation_error =
    RequiresMissing string string
  | RequiresLater string string nat nat
  | AnyLater string string nat nat
  | AnyMissing string "string list"

datatype build_error =
    UnknownPlugin string
  | ConfigureFailed string string
  | ConfigNotAccepted string
  | BadRelationships "relation_error list"
  | BadPipeline pipeline_error

text \<open>\<^verbatim>\<open>RegisterPlugin\<close>; registering a name twice panics.\<close>
definition register_plugin :: "string \<Rightarrow> 'w factory \<Rightarrow> 'w registry \<Rightarrow> 'w registry option" where
  "register_plugin name fa reg = (if gm_get reg name \<noteq> None then None else Some (gm_put name fa reg))"

definition factory_for :: "'w registry \<Rightarrow> string \<Rightarrow> 'w factory option" where
  "factory_for reg name = gm_get reg name"

text \<open>One entry of the loop of \<^verbatim>\<open>Build\<close>.\<close>
definition build_entry :: "'w registry \<Rightarrow> plugin_entry \<Rightarrow> build_error + 'w plugin" where
  "build_entry reg e =
     (case factory_for reg (en_name e) of
        None \<Rightarrow> Inl (UnknownPlugin (en_name e))
      | Some fa \<Rightarrow>
          (case fa_configure fa of
             Some conf \<Rightarrow>
               (case conf (en_config e) of
                  Inl err \<Rightarrow> Inl (ConfigureFailed (en_name e) err)
                | Inr p \<Rightarrow> Inr (wrap_configured p (en_config e)))
           | None \<Rightarrow>
               if length (en_config e) > 0 then Inl (ConfigNotAccepted (en_name e)) else Inr (fa_plugin fa)))"

fun build_entries :: "'w registry \<Rightarrow> plugin_entry list \<Rightarrow> build_error + ('w plugin \<times> error_policy) list" where
  "build_entries reg [] = Inr []"
| "build_entries reg (e # es) =
     (if policy_resolved (en_on_error e) = ErrorPolicyOff then build_entries reg es
      else case build_entry reg e of
             Inl err \<Rightarrow> Inl err
           | Inr p \<Rightarrow> (case build_entries reg es of
                         Inl err \<Rightarrow> Inl err
                       | Inr l \<Rightarrow> Inr ((p, policy_resolved (en_on_error e)) # l)))"

text \<open>The position of the first plugin with a name.\<close>
definition position_of :: "'w plugin list \<Rightarrow> string \<Rightarrow> nat option" where
  "position_of ps name = index_from 0 name (map pl_name ps)"

definition require_errors :: "'w plugin list \<Rightarrow> nat \<Rightarrow> 'w plugin \<Rightarrow> relation_error list" where
  "require_errors ps i p =
     concat (map (\<lambda>req. case position_of ps req of
         None \<Rightarrow> [RequiresMissing (pl_name p) req]
       | Some j \<Rightarrow> if j \<ge> i then [RequiresLater (pl_name p) req j i] else [])
     (cap_requires (normalize (pl_capabilities p))))"

definition require_any_errors :: "'w plugin list \<Rightarrow> nat \<Rightarrow> 'w plugin \<Rightarrow> relation_error list" where
  "require_any_errors ps i p =
     (let reqs = cap_requires_any (normalize (pl_capabilities p)) in
      if length reqs > 0 then
        concat (map (\<lambda>req. case position_of ps req of
            None \<Rightarrow> []
          | Some j \<Rightarrow> if j \<ge> i then [AnyLater (pl_name p) req j i] else []) reqs)
        @ (if list_ex (\<lambda>req. case position_of ps req of None \<Rightarrow> False | Some j \<Rightarrow> j < i) reqs then []
           else [AnyMissing (pl_name p) reqs])
      else [])"

definition validate_relationships :: "'w plugin list \<Rightarrow> relation_error list" where
  "validate_relationships ps =
     concat (map (\<lambda>(i, p). require_errors ps i p @ require_any_errors ps i p) (enumerate 0 ps))"

definition build :: "'w registry \<Rightarrow> time \<Rightarrow> plugin_entry list \<Rightarrow> build_error + 'w pipeline" where
  "build reg finish_timeout entries =
     (case build_entries reg entries of
        Inl err \<Rightarrow> Inl err
      | Inr l \<Rightarrow>
          (case validate_relationships (map fst l) of
             err # errs \<Rightarrow> Inl (BadRelationships (err # errs))
           | [] \<Rightarrow> (case new_pipeline (map fst l) (map snd l) finish_timeout of
                      Inl err \<Rightarrow> Inl (BadPipeline err)
                    | Inr p \<Rightarrow> Inr p)))"

text \<open>What a chain has to satisfy: every required plugin, and one of each group,
  stands earlier; no member of a group stands at or after the plugin.\<close>
definition requirements_met :: "'w plugin list \<Rightarrow> bool" where
  "requirements_met ps = (\<forall>i < length ps.
     (\<forall>req \<in> set (cap_requires (pl_capabilities (ps ! i))). \<exists>j < i. pl_name (ps ! j) = req) \<and>
     (cap_requires_any (pl_capabilities (ps ! i)) \<noteq> [] \<longrightarrow>
        (\<exists>req \<in> set (cap_requires_any (pl_capabilities (ps ! i))). \<exists>j < i. pl_name (ps ! j) = req) \<and>
        (\<forall>req \<in> set (cap_requires_any (pl_capabilities (ps ! i))).
           req \<in> pl_name ` set ps \<longrightarrow> (\<exists>j < i. pl_name (ps ! j) = req))))"

section \<open>Lemmas\<close>

lemma normalize_requires [simp]:
  "cap_requires (normalize c) = cap_requires c" "cap_requires_any (normalize c) = cap_requires_any c"
  by (simp_all add: normalize_def)

lemma position_of_None: "position_of ps n = None \<longleftrightarrow> n \<notin> pl_name ` set ps"
  by (simp add: position_of_def)

lemma position_of_less: "(case position_of ps n of None \<Rightarrow> False | Some j \<Rightarrow> j < i) \<longleftrightarrow>
    (\<exists>j < i. j < length ps \<and> pl_name (ps ! j) = n)"
proof (cases "position_of ps n")
  case None
  then show ?thesis using position_of_None[of ps n] by (auto simp: nth_mem image_iff)
next
  case (Some k)
  then have k: "k < length ps" "pl_name (ps ! k) = n" "n \<notin> set (take k (map pl_name ps))"
    using index_from_Some[of 0 n "map pl_name ps" k] by (auto simp: position_of_def)
  have le: "k \<le> j" if "j < length ps" "pl_name (ps ! j) = n" for j
  proof (rule ccontr)
    assume "\<not> k \<le> j"
    then have "n \<in> set (take k (map pl_name ps))"
      using that k(1) by (metis (no_types, lifting) in_set_conv_nth length_map length_take min.absorb4 not_le_imp_less
          nth_map nth_take)
    then show False using k(3) by simp
  qed
  show ?thesis using Some k le_less_trans[OF le] by auto
qed

lemma position_of_earlier:
  "i \<le> length ps \<Longrightarrow> (case position_of ps n of None \<Rightarrow> False | Some j \<Rightarrow> j < i) \<longleftrightarrow> (\<exists>j < i. pl_name (ps ! j) = n)"
  using position_of_less[of i ps n] by auto

lemma require_errors_Nil:
  assumes "i \<le> length ps"
  shows "require_errors ps i p = [] \<longleftrightarrow>
     (\<forall>req \<in> set (cap_requires (pl_capabilities p)). \<exists>j < i. pl_name (ps ! j) = req)"
proof -
  have "(case position_of ps req of None \<Rightarrow> [RequiresMissing (pl_name p) req]
       | Some j \<Rightarrow> if j \<ge> i then [RequiresLater (pl_name p) req j i] else []) = [] \<longleftrightarrow> (\<exists>j < i. pl_name (ps ! j) = req)" for req
    using position_of_earlier[OF assms, of req] by (auto split: option.splits)
  then show ?thesis by (simp add: require_errors_def concat_eq_Nil_conv)
qed

lemma require_any_errors_Nil:
  assumes "i \<le> length ps"
  shows "require_any_errors ps i p = [] \<longleftrightarrow> (cap_requires_any (pl_capabilities p) \<noteq> [] \<longrightarrow>
     (\<exists>req \<in> set (cap_requires_any (pl_capabilities p)). \<exists>j < i. pl_name (ps ! j) = req) \<and>
     (\<forall>req \<in> set (cap_requires_any (pl_capabilities p)). req \<in> pl_name ` set ps \<longrightarrow> (\<exists>j < i. pl_name (ps ! j) = req)))"
proof -
  have "(case position_of ps req of None \<Rightarrow> []
       | Some j \<Rightarrow> if j \<ge> i then [AnyLater (pl_name p) req j i] else []) = [] \<longleftrightarrow>
     (req \<in> pl_name ` set ps \<longrightarrow> (\<exists>j < i. pl_name (ps ! j) = req))" for req
    using position_of_earlier[OF assms, of req] position_of_None[of ps req] by (auto split: option.splits)
  then show ?thesis
    by (auto simp: require_any_errors_def Let_def concat_eq_Nil_conv list_ex_iff position_of_earlier[OF assms])
qed

lemma validate_relationships_Nil: "validate_relationships ps = [] \<longleftrightarrow> requirements_met ps"
proof -
  have "validate_relationships ps = [] \<longleftrightarrow>
     (\<forall>i < length ps. require_errors ps i (ps ! i) = [] \<and> require_any_errors ps i (ps ! i) = [])"
    unfolding validate_relationships_def concat_eq_Nil_conv set_map ball_simps case_prod_unfold
    by (auto simp: in_set_enumerate_eq Ball_def)
  also have "\<dots> \<longleftrightarrow> requirements_met ps"
    by (simp add: requirements_met_def require_errors_Nil require_any_errors_Nil)
  finally show ?thesis .
qed

lemma build_entries_policies:
  "build_entries reg es = Inr l \<Longrightarrow>
     map snd l = map (\<lambda>e. policy_resolved (en_on_error e)) (filter (\<lambda>e. policy_resolved (en_on_error e) \<noteq> ErrorPolicyOff) es) \<and>
     list_all2 (\<lambda>e (p, _). build_entry reg e = Inr p) (filter (\<lambda>e. policy_resolved (en_on_error e) \<noteq> ErrorPolicyOff) es) l"
  by (induction es arbitrary: l) (auto split: if_splits sum.splits)

lemma build_entries_total:
  "list_all2 (\<lambda>e p. build_entry reg e = Inr p) (filter (\<lambda>e. policy_resolved (en_on_error e) \<noteq> ErrorPolicyOff) es) ps \<Longrightarrow>
     \<exists>l. build_entries reg es = Inr l"
proof (induction es arbitrary: ps)
  case (Cons e es)
  show ?case
  proof (cases "policy_resolved (en_on_error e) = ErrorPolicyOff")
    case False
    then obtain p ps' where "ps = p # ps'" "build_entry reg e = Inr p"
      "list_all2 (\<lambda>e p. build_entry reg e = Inr p) (filter (\<lambda>e. policy_resolved (en_on_error e) \<noteq> ErrorPolicyOff) es) ps'"
      using Cons.prems by (auto simp: list_all2_Cons1)
    then show ?thesis using Cons.IH False by (auto split: sum.splits)
  qed (use Cons in auto)
qed simp

lemma build_entries_plugins:
  assumes "build_entries reg es = Inr l"
  shows "map fst l = ps \<longleftrightarrow>
    list_all2 (\<lambda>e p. build_entry reg e = Inr p) (filter (\<lambda>e. policy_resolved (en_on_error e) \<noteq> ErrorPolicyOff) es) ps"
proof -
  let ?es = "filter (\<lambda>e. policy_resolved (en_on_error e) \<noteq> ErrorPolicyOff) es"
  have l: "list_all2 (\<lambda>e (p, _). build_entry reg e = Inr p) ?es l" using build_entries_policies[OF assms] by simp
  then have "list_all2 (\<lambda>e p. build_entry reg e = Inr p) ?es (map fst l)"
    by (auto simp: list_all2_conv_all_nth case_prod_unfold)
  moreover have "ps = map fst l" if "list_all2 (\<lambda>e p. build_entry reg e = Inr p) ?es ps"
    using that l by (auto simp: list_all2_conv_all_nth case_prod_unfold intro!: nth_equalityI)
  ultimately show ?thesis by auto
qed

section \<open>Properties\<close>

text \<open>Claim C34. Build accepts a configuration exactly when every entry that is not
  switched off can be built, every declared relationship is met by the order
  of the chain and the body capabilities are compatible; the pipeline then has
  exactly those plugins in the configured order, each with its own policy.\<close>
theorem build_iff:
  "(\<exists>p. build reg t entries = Inr p \<and> pp_plugins p = ps \<and> pp_policies p = pols) \<longleftrightarrow>
   (let es = filter (\<lambda>e. policy_resolved (en_on_error e) \<noteq> ErrorPolicyOff) entries
    in list_all2 (\<lambda>e p. build_entry reg e = Inr p) es ps \<and> pols = map (\<lambda>e. policy_resolved (en_on_error e)) es \<and>
       requirements_met ps \<and> validate_capabilities ps = None)"
proof -
  let ?es = "filter (\<lambda>e. policy_resolved (en_on_error e) \<noteq> ErrorPolicyOff) entries"
  show ?thesis
  proof (cases "build_entries reg entries")
    case (Inl e)
    then show ?thesis using build_entries_total[of reg entries ps] by (auto simp: build_def Let_def)
  next
    case (Inr l)
    have len: "length (map snd l) = length (map fst l)" by simp
    have "(\<exists>p. build reg t entries = Inr p \<and> pp_plugins p = ps \<and> pp_policies p = pols) \<longleftrightarrow>
        map fst l = ps \<and> map snd l = pols \<and> requirements_met ps \<and> validate_capabilities ps = None"
      using Inr validate_relationships_Nil[of "map fst l"]
      by (auto simp: build_def new_pipeline_def split: list.splits option.splits)
    then show ?thesis using build_entries_plugins[OF Inr] build_entries_policies[OF Inr] by (auto simp: Let_def)
  qed
qed

end
