(* ===== verification/Auth_Plugins.thy ===== *)
theory Auth_Plugins
  imports Auth_Handler Pipeline_Run Broker_Cache
begin

text \<open>
  The two built-in auth plugins: \<^verbatim>\<open>jwt-validation\<close>
  (\<^verbatim>\<open>authlib/plugins/jwtvalidation/plugin.go\<close>, \<^verbatim>\<open>identity.go\<close>) on the inbound side
  and \<^verbatim>\<open>token-exchange\<close> (\<^verbatim>\<open>authlib/plugins/tokenexchange/plugin.go\<close>) on the
  outbound side, with the credential placeholders that connect them
  (\<^verbatim>\<open>authlib/placeholder\<close>).

  The world that the plugins thread through a pipeline is \<^verbatim>\<open>bridge_world\<close>: the
  clock, the random bytes that will be read, the shared store and the mutable
  state of the two auth handlers.
\<close>

section \<open>Placeholders\<close>

definition placeholder_prefix :: string where
  "placeholder_prefix = ''abph_''"

definition placeholder_new :: "bytes \<Rightarrow> string" where
  "placeholder_new random = placeholder_prefix @ b64_encode random"

definition is_placeholder :: "string \<Rightarrow> bool" where
  "is_placeholder token = has_prefix token placeholder_prefix"

definition placeholder_key :: "string \<Rightarrow> string" where
  "placeholder_key handle = ''placeholder/'' @ handle"

text \<open>The value of an Authorization header.\<close>
definition bearer :: "string \<Rightarrow> string" where
  "bearer token = ''Bearer '' @ token"

section \<open>The world of the plugins\<close>

text \<open>A failed read of random bytes is None; the list holds the outcomes of the
  coming reads.\<close>
record bridge_world =
  bw_now :: time
  bw_random :: "bytes option list"
  bw_shared :: shared_store
  bw_inbound :: auth_state
  bw_outbound :: auth_state

fun next_random :: "bridge_world \<Rightarrow> bytes option \<times> bridge_world" where
  "next_random w = (case bw_random w of
      [] \<Rightarrow> (None, w)
    | r # rs \<Rightarrow> (r, w\<lparr>bw_random := rs\<rparr>))"

section \<open>jwt-validation\<close>

record jwt_config =
  jv_issuer :: string
  jv_jwks_url :: string
  jv_keycloak_url :: string
  jv_keycloak_realm :: string
  jv_audience :: string
  jv_audience_file :: string
  jv_audience_mode :: string
  jv_allowed_audiences :: "string list"
  jv_bypass_paths :: "string list"
  jv_placeholder_mode :: bool
  jv_placeholder_ttl :: string

definition trim_right_slash :: "string \<Rightarrow> string" where
  "trim_right_slash s = rev (dropWhile (\<lambda>c. c = CHR ''/'') (rev s))"

definition default_jwks_url :: "jwt_config \<Rightarrow> jwt_config" where
  "default_jwks_url c =
     (if jv_jwks_url c = '''' then
        (if jv_keycloak_url c \<noteq> '''' \<and> jv_keycloak_realm c \<noteq> ''''
         then c\<lparr>jv_jwks_url := trim_right_slash (jv_keycloak_url c) @ ''/realms/'' @ jv_keycloak_realm c
                    @ ''/protocol/openid-connect/certs''\<rparr>
         else if jv_issuer c \<noteq> ''''
         then c\<lparr>jv_jwks_url := trim_right_slash (jv_issuer c) @ ''/protocol/openid-connect/certs''\<rparr>
         else c)
      else c)"

definition default_audience :: "jwt_config \<Rightarrow> jwt_config" where
  "default_audience c =
     (if jv_audience_mode c = ''static'' \<and> jv_audience c = '''' \<and> jv_audience_file c = '''' \<and>
         length (jv_allowed_audiences c) = 0
      then c\<lparr>jv_audience_file := ''/shared/client-id.txt''\<rparr> else c)"

definition jwt_apply_defaults :: "jwt_config \<Rightarrow> jwt_config" where
  "jwt_apply_defaults c0 =
     (let c1 = default_jwks_url c0;
          c2 = (if jv_audience_mode c1 = '''' then c1\<lparr>jv_audience_mode := ''static''\<rparr> else c1);
          c3 = default_audience c2
      in if length (jv_bypass_paths c3) = 0 then c3\<lparr>jv_bypass_paths := DefaultPatterns\<rparr> else c3)"

definition jwt_validate :: "jwt_config \<Rightarrow> string option" where
  "jwt_validate c =
     (if jv_issuer c = '''' then Some ''issuer is required''
      else if jv_jwks_url c = '''' then Some ''jwks_url could not be derived; set it explicitly''
      else if jv_audience_mode c = ''static'' \<or> jv_audience_mode c = ''per-host'' then None
      else Some ''audience_mode must be static or per-host'')"

fun add_unique :: "string list \<Rightarrow> string list \<Rightarrow> string list" where
  "add_unique out [] = out"
| "add_unique out (s # ss) =
     (let t = trim_space s in if t = '''' \<or> t \<in> set out then add_unique out ss else add_unique (out @ [t]) ss)"

definition expected_audiences :: "jwt_config \<Rightarrow> string \<Rightarrow> string list" where
  "expected_audiences c from_file = add_unique [] (jv_allowed_audiences c @ [jv_audience c, from_file])"

record jwt_plugin =
  jp_cfg :: jwt_config
  jp_inner :: "auth_config option"
  jp_per_host :: bool
  jp_ttl :: time

datatype configure_error = ConfigInvalid string | BypassInvalid bypass_error | TtlInvalid string

text \<open>\<^verbatim>\<open>Configure\<close> on the decoded configuration: \<^verbatim>\<open>verifier\<close> is the JWKS verifier for
  a URL and an issuer, \<^verbatim>\<open>read_file\<close> the credential file reader and
  \<^verbatim>\<open>parse_duration\<close> the duration parser.  The second result is the identity of
  the new auth handler.\<close>
definition jwt_configure ::
  "(string \<Rightarrow> string \<Rightarrow> string \<Rightarrow> string list \<Rightarrow> string + claims) \<Rightarrow> (string \<Rightarrow> string option) \<Rightarrow> (string \<Rightarrow> time option) \<Rightarrow>
   jwt_config \<Rightarrow> configure_error + (jwt_plugin \<times> auth_state)" where
  "jwt_configure verifier read_file parse_duration raw =
     (let c = jwt_apply_defaults raw in
      case jwt_validate c of
        Some e \<Rightarrow> Inl (ConfigInvalid e)
      | None \<Rightarrow>
          (let from_file = (if jv_audience c = '''' \<and> jv_audience_file c \<noteq> ''''
                            then (case read_file (jv_audience_file c) of Some v \<Rightarrow> v | None \<Rightarrow> '''') else '''')
           in case new_matcher (jv_bypass_paths c) of
                Inl e \<Rightarrow> Inl (BypassInvalid e)
              | Inr patterns \<Rightarrow>
                  (case (if jv_placeholder_ttl c = '''' then Some (3600 * nanos) else parse_duration (jv_placeholder_ttl c)) of
                     None \<Rightarrow> Inl (TtlInvalid (jv_placeholder_ttl c))
                   | Some ttl \<Rightarrow>
                       Inr (\<lparr>jp_cfg = c,
                             jp_inner = Some \<lparr>ac_verifier = Some (verifier (jv_jwks_url c) (jv_issuer c)), ac_exchanger = None,
                               ac_bypass = Some patterns, ac_router = None, ac_no_token_policy = '''', ac_audience_deriver = None\<rparr>,
                             jp_per_host = (jv_audience_mode c = ''per-host''), jp_ttl = ttl\<rparr>,
                            \<lparr>as_identity = \<lparr>ic_client_id = '''', ic_audiences = expected_audiences c from_file,
                                             ic_issuer = jv_issuer c\<rparr>,
                             as_cache = None, as_stats = new_stats\<rparr>))))"

text \<open>Whether \<^verbatim>\<open>Init\<close> starts the background poll of the audience file, and what the
  poll does when the file appears.\<close>
definition jwt_init_polls :: "jwt_plugin \<Rightarrow> auth_state \<Rightarrow> bool" where
  "jwt_init_polls p st = (\<not> (jv_audience_file (jp_cfg p) = '''' \<or> jv_audience (jp_cfg p) \<noteq> '''' \<or> auth_ready st))"

definition jwt_poll_done :: "jwt_plugin \<Rightarrow> string \<Rightarrow> auth_state \<Rightarrow> auth_state" where
  "jwt_poll_done p v st = update_identity \<lparr>ic_client_id = '''', ic_audiences = expected_audiences (jp_cfg p) v,
     ic_issuer = jv_issuer (jp_cfg p)\<rparr> st"

definition jwt_ready :: "jwt_plugin \<Rightarrow> bridge_world \<Rightarrow> bool" where
  "jwt_ready p w = (jp_inner p \<noteq> None \<and> (jv_audience_mode (jp_cfg p) = ''per-host'' \<or> auth_ready (bw_inbound w)))"

text \<open>\<^verbatim>\<open>mint\<close>: the handle, or None when it fails.\<close>
definition jwt_mint :: "jwt_plugin \<Rightarrow> pcontext \<Rightarrow> bridge_world \<Rightarrow> string option \<times> pcontext \<times> bridge_world" where
  "jwt_mint p c w =
     (if \<not> c_shared c then (None, c, w)
      else let real = extract_bearer (hdr_get (c_headers c) ''Authorization'') in
        if real = '''' then (None, c, w)
        else case next_random w of
               (None, w1) \<Rightarrow> (None, c, w1)
             | (Some r, w1) \<Rightarrow>
                 (let h = placeholder_new r
                  in (Some h, c\<lparr>c_headers := hdr_set ''Authorization'' (bearer h) (c_headers c)\<rparr>,
                      w1\<lparr>bw_shared := shared_put (bw_now w1) (placeholder_key h) (SharedString real) (jp_ttl p) (bw_shared w1)\<rparr>)))"

definition claims_identity :: "claims \<Rightarrow> identity" where
  "claims_identity cl = \<lparr>id_subject = cl_subject cl, id_client_id = cl_client_id cl, id_scopes = cl_scopes cl\<rparr>"

definition with_details :: "(string, string) gomap \<Rightarrow> invocation \<Rightarrow> invocation" where
  "with_details ds iv = iv\<lparr>inv_details := ds\<rparr>"

text \<open>The part of \<^verbatim>\<open>OnRequest\<close> after an accepted token.\<close>
definition jwt_accept :: "jwt_plugin \<Rightarrow> claims \<Rightarrow> bridge_world hook" where
  "jwt_accept p cl c w =
     (let c1 = record_invocation (with_details [(''token_subject'', cl_subject cl),
                   (''token_audience'', join_with '','' (cl_audience cl)), (''token_scopes'', join_with '' '' (cl_scopes cl))]
                 (mk_invocation ActionAllow (inbound_approval_string APPROVE_AUTHORIZED)))
               (c\<lparr>c_identity := Some (claims_identity cl)\<rparr>)
      in if \<not> jv_placeholder_mode (jp_cfg p) then (Continue, c1, w)
         else case jwt_mint p c1 w of
                (None, c2, w1) \<Rightarrow>
                  (DenyStatus 503 ''upstream.unreachable'' ''placeholder_mode requires a shared store'',
                   record_invocation (mk_invocation ActionDeny ''placeholder_mint_failed'') c2, w1)
              | (Some h, c2, w1) \<Rightarrow>
                  (Continue, record_invocation (with_details [(''handle_prefix'', take (length placeholder_prefix + 6) h)]
                     (mk_invocation ActionModify ''placeholder_minted'')) c2, w1))"

definition jwt_on_request :: "jwt_plugin \<Rightarrow> bridge_world hook" where
  "jwt_on_request p c w =
     (case jp_inner p of
        None \<Rightarrow> (DenyStatus 503 ''upstream.unreachable'' ''jwt-validation not configured'', c, w)
      | Some cfg \<Rightarrow>
          (let audience = (if jp_per_host p then service_name_from_host (c_host c) else '''');
               (r, st) = handle_inbound cfg (hdr_get (c_headers c) ''Authorization'') (c_path c) audience (bw_inbound w);
               w1 = w\<lparr>bw_inbound := st\<rparr>
           in if ir_action r = ActDeny
              then (DenyStatus (ir_deny_status r)
                      (if ir_deny_status r = 503 then ''upstream.unreachable'' else ''auth.unauthorized'') (ir_deny_reason r),
                    record_invocation (with_details [(''expected_issuer'', jv_issuer (jp_cfg p)),
                        (''expected_audiences'', join_with '','' (ic_audiences (as_identity st))),
                        (''expected_audience_host'', audience)]
                      (mk_invocation ActionDeny (inbound_denial_string (ir_deny_code r)))) c, w1)
              else case ir_claims r of
                     None \<Rightarrow> (Continue, ctx_skip ''path_bypass'' c, w1)
                   | Some cl \<Rightarrow> jwt_accept p cl c w1))"

section \<open>token-exchange\<close>

record te_plugin =
  te_resolve_placeholders :: bool
  te_inner :: "auth_config option"
  te_ready :: bool

text \<open>\<^verbatim>\<open>resolvePlaceholder\<close>; the lookup may evict an expired entry.\<close>
definition resolve_placeholder :: "pcontext \<Rightarrow> string \<Rightarrow> bridge_world \<Rightarrow> string option \<times> bridge_world" where
  "resolve_placeholder c handle w =
     (if \<not> c_shared c then (None, w)
      else case shared_get (bw_now w) (placeholder_key handle) (bw_shared w) of
             (v, s) \<Rightarrow> (case v of Some (SharedString t) \<Rightarrow> Some t | _ \<Rightarrow> None, w\<lparr>bw_shared := s\<rparr>))"

definition bool_str :: "bool \<Rightarrow> string" where
  "bool_str b = (if b then ''true'' else ''false'')"

text \<open>What \<^verbatim>\<open>OnRequest\<close> does with the result of the auth layer.\<close>
definition te_apply :: "outbound_result \<Rightarrow> pcontext \<Rightarrow> action \<times> pcontext" where
  "te_apply r c =
     (case or_action r of
        ActDeny \<Rightarrow>
          (DenyStatus (or_deny_status r)
             (if or_deny_status r = 403 then ''policy.forbidden'' else ''upstream.token-exchange-failed'') (or_deny_reason r),
           record_invocation (with_details [(''route_matched'', bool_str (or_route_matched r)), (''route_host'', c_host c),
               (''target_audience'', or_target_audience r), (''requested_scopes'', or_requested_scopes r)]
             (mk_invocation ActionDeny (outbound_denial_string (or_deny_code r)))) c)
      | ActReplaceToken \<Rightarrow>
          (Continue,
           record_invocation (with_details [(''route_matched'', ''true''), (''route_host'', c_host c),
               (''target_audience'', or_target_audience r), (''requested_scopes'', or_requested_scopes r),
               (''cache_hit'', bool_str (or_cache_hit r))]
             (mk_invocation ActionModify (if or_cache_hit r then ''cache_hit'' else ''token_replaced'')))
             (c\<lparr>c_headers := hdr_set ''Authorization'' (bearer (or_token r)) (c_headers c)\<rparr>))
      | ActAllow \<Rightarrow>
          (Continue,
           record_invocation (with_details [(''route_matched'', bool_str (or_route_matched r)), (''route_host'', c_host c)]
             (mk_invocation ActionSkip (if or_route_matched r then ''route_passthrough'' else ''no_matching_route''))) c))"

definition te_on_request :: "te_plugin \<Rightarrow> bridge_world hook" where
  "te_on_request p c w =
     (case te_inner p of
        None \<Rightarrow> (DenyStatus 503 ''upstream.unreachable'' ''token-exchange not configured'', c, w)
      | Some cfg \<Rightarrow>
          (let header = hdr_get (c_headers c) ''Authorization'';
               handle = extract_bearer header;
               needs = (te_resolve_placeholders p \<and> is_placeholder handle);
               (real, w1) = (if needs then resolve_placeholder c handle w else (None, w))
           in if needs \<and> real = None
              then (case deny_and_record ''placeholder_unresolved'' ''auth.unauthorized'' ''unresolvable credential placeholder'' c of
                      (a, c1) \<Rightarrow> (a, c1, w1))
              else (let (r, st) = handle_outbound cfg (bw_now w1)
                            (if needs then bearer (the real) else header) (c_host c) (bw_outbound w1);
                        (a, c1) = te_apply r c
                    in (a, c1, w1\<lparr>bw_outbound := st\<rparr>))))"

text \<open>The configured routes as routes of the router; routes of the file come first.\<close>
record te_route =
  tr_host :: string
  tr_target_audience :: string
  tr_token_scopes :: string
  tr_token_url :: string
  tr_action :: string
  tr_passthrough :: bool

definition build_router_from ::
  "(string \<Rightarrow> glob option) \<Rightarrow> string \<Rightarrow> route list \<Rightarrow> te_route list \<Rightarrow> string + router" where
  "build_router_from compile default_policy file_routes rules =
     new_router compile default_policy (file_routes @
       map (\<lambda>rc. \<lparr>rt_host = tr_host rc, rt_audience = tr_target_audience rc, rt_scopes = tr_token_scopes rc,
                  rt_token_endpoint = tr_token_url rc,
                  rt_action = (if tr_action rc = '''' \<and> tr_passthrough rc then ''passthrough'' else tr_action rc)\<rparr>) rules)"

section \<open>The plugins as pipeline members\<close>

definition continue_hook :: "'w hook" where
  "continue_hook c w = (Continue, c, w)"

definition described :: "string \<Rightarrow> capabilities" where
  "described d = \<lparr>cap_reads_body = False, cap_writes_body = False, cap_requires = [], cap_requires_any = [],
     cap_description = d\<rparr>"

definition jwt_validation :: "jwt_plugin \<Rightarrow> bridge_world plugin" where
  "jwt_validation p = \<lparr>pl_name = ''jwt-validation'',
     pl_capabilities = described ''Inbound JWT validation (signature, issuer, audience) against JWKS.'',
     pl_on_request = jwt_on_request p, pl_on_response = continue_hook, pl_on_response_frame = None,
     pl_init = Some (\<lambda>w. (None, w)), pl_shutdown = Some (\<lambda>w. (None, w)), pl_on_finish = None,
     pl_ready = Some (jwt_ready p), pl_raw_config = None\<rparr>"

definition token_exchange :: "te_plugin \<Rightarrow> bridge_world plugin" where
  "token_exchange p = \<lparr>pl_name = ''token-exchange'',
     pl_capabilities = described ''RFC 8693 outbound token exchange per route. Supports Keycloak, Entra ID, Okta, and any RFC 8693-compliant IdP.'',
     pl_on_request = te_on_request p, pl_on_response = continue_hook, pl_on_response_frame = None,
     pl_init = Some (\<lambda>w. (None, w)), pl_shutdown = Some (\<lambda>w. (None, w)), pl_on_finish = None,
     pl_ready = Some (\<lambda>w. te_ready p), pl_raw_config = None\<rparr>"

section \<open>Specification and sample inputs\<close>

text \<open>The credential that token-exchange hands to the auth layer: the bearer token of
  the request, or the token behind its placeholder.\<close>
definition te_subject :: "te_plugin \<Rightarrow> pcontext \<Rightarrow> bridge_world \<Rightarrow> string" where
  "te_subject p c w =
     (let h = extract_bearer (hdr_get (c_headers c) ''Authorization'')
      in if te_resolve_placeholders p \<and> is_placeholder h then the (fst (resolve_placeholder c h w)) else h)"

definition sample_claims :: claims where
  "sample_claims = \<lparr>cl_subject = ''alice'', cl_client_id = ''ui'', cl_audience = [''svc''], cl_scopes = []\<rparr>"

text \<open>A verifier that knows one token.\<close>
definition sample_verifier :: "string \<Rightarrow> string list \<Rightarrow> string + claims" where
  "sample_verifier token audiences =
     (if token = ''real'' \<and> ''svc'' \<in> set audiences then Inr sample_claims else Inl ''invalid'')"

definition sample_jwt_config :: jwt_config where
  "sample_jwt_config = \<lparr>jv_issuer = ''https://idp'', jv_jwks_url = '''', jv_keycloak_url = '''', jv_keycloak_realm = '''',
     jv_audience = '''', jv_audience_file = ''/shared/client-id.txt'', jv_audience_mode = '''', jv_allowed_audiences = [''svc''],
     jv_bypass_paths = [], jv_placeholder_mode = True, jv_placeholder_ttl = ''''\<rparr>"

definition sample_auth :: auth_config where
  "sample_auth = \<lparr>ac_verifier = Some sample_verifier,
     ac_exchanger = Some \<lparr>ec_token_url = ''https://idp/token'', ec_apply = Inr, ec_http = (\<lambda>now url fm. HttpReply 200 ''new''),
       ec_parse_token = (\<lambda>b. Some (b, ''Bearer'', 300)), ec_parse_error = (\<lambda>b. ('''', ''''))\<rparr>,
     ac_bypass = Some [''/healthz''],
     ac_router = Some \<lparr>ro_routes = [], ro_default_action = ''exchange''\<rparr>,
     ac_no_token_policy = ''client-credentials'', ac_audience_deriver = Some service_name_from_host\<rparr>"

definition sample_state :: auth_state where
  "sample_state = \<lparr>as_identity = \<lparr>ic_client_id = '''', ic_audiences = [''svc''], ic_issuer = ''https://idp''\<rparr>,
     as_cache = None, as_stats = new_stats\<rparr>"

definition sample_jwt :: jwt_plugin where
  "sample_jwt = \<lparr>jp_cfg = sample_jwt_config, jp_inner = Some sample_auth, jp_per_host = False, jp_ttl = 3600\<rparr>"

definition sample_te :: te_plugin where
  "sample_te = \<lparr>te_resolve_placeholders = True, te_inner = Some sample_auth, te_ready = True\<rparr>"

definition sample_world :: bridge_world where
  "sample_world = \<lparr>bw_now = 0, bw_random = [Some ''abc''], bw_shared = [], bw_inbound = sample_state, bw_outbound = sample_state\<rparr>"

definition sample_request :: pcontext where
  "sample_request = fresh_context\<lparr>c_shared := True, c_host := ''agent.ns'', c_path := ''/mcp'',
     c_headers := hdr_set ''Authorization'' (bearer ''real'') []\<rparr>"

section \<open>Lemmas\<close>

lemma hdr_get_set [simp]: "hdr_get (hdr_set k v h) k = v"
  by (simp add: hdr_get_def hdr_set_def)

lemma extract_bearer_bearer [simp]: "extract_bearer (bearer h) = h"
proof (cases "h = ''''")
  case False
  moreover have "equal_fold ''Bearer '' ''bearer ''" by code_simp
  ultimately show ?thesis by (simp add: extract_bearer_def bearer_def)
qed (simp add: extract_bearer_def bearer_def)

lemma bearer_not_Nil [simp]: "bearer h \<noteq> ''''"
  by (simp add: bearer_def)

lemma is_placeholder_new: "is_placeholder (placeholder_new r)"
  by (simp add: is_placeholder_def placeholder_new_def)

lemma placeholder_new_not_empty: "placeholder_new r \<noteq> ''''"
  by (simp add: placeholder_new_def placeholder_prefix_def)

lemma record_invocation_frame [simp]:
  "c_headers (record_invocation iv c) = c_headers c" "c_identity (record_invocation iv c) = c_identity c"
  "c_host (record_invocation iv c) = c_host c" "c_shared (record_invocation iv c) = c_shared c"
  by (simp_all add: record_invocation_def append_invocation_def Let_def)

lemma ctx_skip_frame [simp]: "c_headers (ctx_skip r c) = c_headers c" "c_identity (ctx_skip r c) = c_identity c"
  by (simp_all add: ctx_skip_def)

lemma framework_fields_updates [framework, simp]:
  "framework_fields (c\<lparr>c_headers := h\<rparr>) = framework_fields c"
  "framework_fields (c\<lparr>c_identity := i\<rparr>) = framework_fields c"
  by (simp_all add: framework_fields_def)

lemma jwt_mint_result:
  assumes "jwt_mint p c w = (ho, c', w')"
  shows "framework_fields c' = framework_fields c" "c_identity c' = c_identity c"
    "\<And>h. ho = Some h \<Longrightarrow> \<exists>r. h = placeholder_new r \<and> c_shared c \<and>
        extract_bearer (hdr_get (c_headers c) ''Authorization'') \<noteq> '''' \<and>
        c_headers c' = hdr_set ''Authorization'' (bearer h) (c_headers c) \<and> bw_now w' = bw_now w \<and>
        bw_shared w' = shared_put (bw_now w) (placeholder_key h)
          (SharedString (extract_bearer (hdr_get (c_headers c) ''Authorization''))) (jp_ttl p) (bw_shared w)"
  using assms by (auto simp: jwt_mint_def Let_def split: if_splits prod.splits option.splits list.splits)

lemma jwt_accept_keeps: "framework_fields (fst (snd (jwt_accept p cl c w))) = framework_fields c"
  using jwt_mint_result(1) by (auto simp: jwt_accept_def Let_def split: prod.splits option.splits)

lemma jwt_on_request_keeps: "framework_fields (fst (snd (jwt_on_request p c w))) = framework_fields c"
  using jwt_accept_keeps by (simp add: jwt_on_request_def Let_def split: prod.splits option.splits)

lemma te_apply_keeps: "framework_fields (snd (te_apply r c)) = framework_fields c"
  by (simp add: te_apply_def split: auth_action.splits)

lemma te_on_request_keeps: "framework_fields (fst (snd (te_on_request p c w))) = framework_fields c"
proof -
  have "framework_fields c1 = framework_fields c" if "te_apply r c = (a, c1)" for r a c1
    using te_apply_keeps[of r c] that by simp
  then show ?thesis
    by (auto simp: te_on_request_def deny_and_record_def Let_def split: prod.splits option.splits)
qed

text \<open>The auth plugins keep the contract of the pipeline, alone and in any chain.\<close>
interpretation jwt_hook: plugin_contract "jwt_on_request p" for p
  by unfold_locales (rule jwt_on_request_keeps)

interpretation te_hook: plugin_contract "te_on_request p" for p
  by unfold_locales (rule te_on_request_keeps)

interpretation auth_chain: plugin_chain "map jwt_validation ps @ map token_exchange qs" for ps qs
  by unfold_locales
    (auto simp: jwt_validation_def token_exchange_def jwt_on_request_keeps te_on_request_keeps)

lemma handle_inbound_allow:
  assumes "handle_inbound cfg header path audience st = (r, st')" "ir_action r \<noteq> ActDeny"
  shows "ir_claims r = None \<and> (\<exists>ps. ac_bypass cfg = Some ps \<and> bypass_match ps path) \<or>
    (\<exists>verify cl audiences. ac_verifier cfg = Some verify \<and> ir_claims r = Some cl \<and> extract_bearer header \<noteq> '''' \<and>
       audiences = (if audience \<noteq> '''' then [audience] else ic_audiences (as_identity st)) \<and> audiences \<noteq> [] \<and>
       verify (extract_bearer header) audiences = Inr cl)"
  using assms
  by (auto simp: handle_inbound_def inbound_allow_def inbound_deny_def Let_def
      split: if_splits option.splits sum.splits)

lemma jwt_accept_continue:
  assumes "jwt_accept p cl c w = (Continue, c', w')"
  shows "c_identity c' = Some (claims_identity cl)"
    and "\<not> jv_placeholder_mode (jp_cfg p) \<Longrightarrow> c_headers c' = c_headers c"
  using assms
  by (auto simp: jwt_accept_def Let_def DenyStatus_def dest: jwt_mint_result(2) split: if_splits prod.splits option.splits)

lemma jwt_accept_minted:
  assumes "jwt_accept p cl c w = (Continue, c', w')" "jv_placeholder_mode (jp_cfg p)"
  shows "\<exists>r h. h = placeholder_new r \<and> c_shared c \<and>
        extract_bearer (hdr_get (c_headers c) ''Authorization'') \<noteq> '''' \<and>
        c_headers c' = hdr_set ''Authorization'' (bearer h) (c_headers c) \<and> bw_now w' = bw_now w \<and>
        bw_shared w' = shared_put (bw_now w) (placeholder_key h)
          (SharedString (extract_bearer (hdr_get (c_headers c) ''Authorization''))) (jp_ttl p) (bw_shared w)"
proof -
  let ?c = "record_invocation (with_details [(''token_subject'', cl_subject cl),
                   (''token_audience'', join_with '','' (cl_audience cl)), (''token_scopes'', join_with '' '' (cl_scopes cl))]
                 (mk_invocation ActionAllow (inbound_approval_string APPROVE_AUTHORIZED)))
               (c\<lparr>c_identity := Some (claims_identity cl)\<rparr>)"
  obtain h c2 where m: "jwt_mint p ?c w = (Some h, c2, w')" "c_headers c' = c_headers c2"
    using assms by (auto simp: jwt_accept_def Let_def DenyStatus_def split: prod.splits option.splits)
  show ?thesis using jwt_mint_result(3)[OF m(1) refl] m(2) by auto
qed

lemma resolve_placeholder_frame:
  assumes "resolve_placeholder c h w = (r, w')"
  shows "bw_now w' = bw_now w" "bw_outbound w' = bw_outbound w" "bw_inbound w' = bw_inbound w"
  using assms by (auto simp: resolve_placeholder_def split: if_splits prod.splits)

lemma te_on_request_continue:
  assumes "te_on_request p c w = (Continue, c', w')" "te_inner p = Some cfg"
  shows "\<exists>r st hdr. handle_outbound cfg (bw_now w) hdr (c_host c) (bw_outbound w) = (r, st) \<and>
    extract_bearer hdr = te_subject p c w \<and> te_apply r c = (Continue, c')"
proof -
  let ?hdr = "hdr_get (c_headers c) ''Authorization''"
  let ?h = "extract_bearer ?hdr"
  show ?thesis
  proof (cases "te_resolve_placeholders p \<and> is_placeholder ?h")
    case True
    obtain v w1 where v: "resolve_placeholder c ?h w = (v, w1)" by fastforce
    obtain r st where h: "handle_outbound cfg (bw_now w) (bearer (the v)) (c_host c) (bw_outbound w) = (r, st)" by fastforce
    have "v \<noteq> None" using True assms v 
      by (cases v) (auto simp: te_on_request_def deny_and_record_def Deny_def)
    then have "te_apply r c = (Continue, c')"
      using True assms v h resolve_placeholder_frame[OF v] by (auto simp: te_on_request_def Let_def split: prod.splits)
    then show ?thesis using h True v
      by (intro exI[of _ r] exI[of _ st] exI[of _ "bearer (the v)"]) (simp add: te_subject_def)
  next
    case False
    obtain r st where h: "handle_outbound cfg (bw_now w) ?hdr (c_host c) (bw_outbound w) = (r, st)" by fastforce
    have "te_apply r c = (Continue, c')"
      using False assms h by (auto simp: te_on_request_def Let_def split: prod.splits)
    then show ?thesis using h False
      by (intro exI[of _ r] exI[of _ st] exI[of _ ?hdr]) (auto simp: te_subject_def Let_def)
  qed
qed

lemma add_unique_Nil: "add_unique out ss = [] \<longleftrightarrow> out = [] \<and> (\<forall>s \<in> set ss. trim_space s = '''')"
  by (induction out ss rule: add_unique.induct) (auto simp: Let_def)

lemma expected_audiences_Nil:
  "expected_audiences c v = [] \<longleftrightarrow>
     (\<forall>a \<in> set (jv_allowed_audiences c). trim_space a = '''') \<and> trim_space (jv_audience c) = '''' \<and> trim_space v = ''''"
  by (auto simp: expected_audiences_def add_unique_Nil)

lemma default_allowed [simp]:
  "jv_allowed_audiences (default_jwks_url c) = jv_allowed_audiences c"
  "jv_allowed_audiences (default_audience c) = jv_allowed_audiences c"
  by (simp_all add: default_jwks_url_def default_audience_def)

lemma jwt_apply_defaults_allowed [simp]: "jv_allowed_audiences (jwt_apply_defaults c) = jv_allowed_audiences c"
  by (simp add: jwt_apply_defaults_def Let_def)

lemma jwt_admitted:
  assumes "jwt_on_request p c w = (Continue, c', w')" "jp_inner p = Some cfg"
    and "\<And>ps. ac_bypass cfg = Some ps \<Longrightarrow> \<not> bypass_match ps (c_path c)"
  shows "\<exists>cl st. jwt_accept p cl c (w\<lparr>bw_inbound := st\<rparr>) = (Continue, c', w')"
proof -
  let ?aud = "if jp_per_host p then service_name_from_host (c_host c) else ''''"
  obtain r st where h: "handle_inbound cfg (hdr_get (c_headers c) ''Authorization'') (c_path c) ?aud (bw_inbound w) = (r, st)"
    by fastforce
  have allow: "ir_action r \<noteq> ActDeny" and
    res: "\<And>cl. ir_claims r = Some cl \<Longrightarrow> jwt_accept p cl c (w\<lparr>bw_inbound := st\<rparr>) = (Continue, c', w')"
    using assms(1,2) h by (auto simp: jwt_on_request_def DenyStatus_def Let_def split: if_splits option.splits)
  from handle_inbound_allow[OF h allow] obtain cl where "ir_claims r = Some cl" using assms(3) by auto
  from res[OF this] show ?thesis by blast
qed

lemma sample_not_bypassed: "\<not> bypass_match [''/healthz''] ''/mcp''"
  by code_simp

lemma sample_admitted: "fst (jwt_on_request sample_jwt sample_request sample_world) = Continue"
  by (simp add: jwt_on_request_def sample_jwt_def sample_auth_def sample_request_def sample_world_def sample_state_def
      sample_jwt_config_def sample_verifier_def handle_inbound_def sample_not_bypassed jwt_accept_def jwt_mint_def
      inbound_allow_def Let_def)

lemma sample_subject: "extract_bearer (hdr_get (c_headers sample_request) ''Authorization'') = ''real''"
    "\<not> is_placeholder ''real''"
  by (simp_all add: sample_request_def is_placeholder_def placeholder_prefix_def)

lemma sample_exchanged: "fst (te_on_request sample_te sample_request sample_world) = Continue"
  by (simp add: te_on_request_def sample_te_def sample_auth_def sample_subject handle_outbound_def resolve_def
      exchange_subject_def exchange_def do_token_request_def max_reply_bytes_def sample_world_def sample_state_def
      te_apply_def Let_def)

section \<open>Properties\<close>

text \<open>jwt-validation lets a request through only if its path is bypassed,
  which leaves its headers and identity alone, or the verifier accepted the
  bearer token for a non-empty list of expected audiences; then the identity is
  that of the verified claims, and in placeholder mode the forwarded credential
  is an opaque handle.\<close>
lemma jwt_admits_only_verified:
  assumes "jwt_on_request p c w = (Continue, c', w')"
  shows "\<exists>cfg. jp_inner p = Some cfg \<and>
    ((\<exists>ps. ac_bypass cfg = Some ps \<and> bypass_match ps (c_path c)) \<and> c_headers c' = c_headers c \<and> c_identity c' = c_identity c \<or>
     (\<exists>verify cl audiences. ac_verifier cfg = Some verify \<and> audiences \<noteq> [] \<and>
        (audiences = [service_name_from_host (c_host c)] \<or> audiences = ic_audiences (as_identity (bw_inbound w))) \<and>
        verify (extract_bearer (hdr_get (c_headers c) ''Authorization'')) audiences = Inr cl \<and>
        c_identity c' = Some (claims_identity cl) \<and>
        (if jv_placeholder_mode (jp_cfg p) then is_placeholder (extract_bearer (hdr_get (c_headers c') ''Authorization''))
         else c_headers c' = c_headers c)))"
proof -
  obtain cfg where cfg: "jp_inner p = Some cfg"
    using assms by (auto simp: jwt_on_request_def DenyStatus_def split: option.splits)
  let ?hdr = "hdr_get (c_headers c) ''Authorization''"
  let ?aud = "if jp_per_host p then service_name_from_host (c_host c) else ''''"
  obtain r st where h: "handle_inbound cfg ?hdr (c_path c) ?aud (bw_inbound w) = (r, st)" by fastforce
  have allow: "ir_action r \<noteq> ActDeny" and
    res: "case ir_claims r of None \<Rightarrow> c' = ctx_skip ''path_bypass'' c
        | Some cl \<Rightarrow> jwt_accept p cl c (w\<lparr>bw_inbound := st\<rparr>) = (Continue, c', w')"
    using assms cfg h by (auto simp: jwt_on_request_def DenyStatus_def Let_def split: if_splits option.splits)
  from handle_inbound_allow[OF h allow] show ?thesis
  proof (elim disjE conjE exE)
    fix ps assume "ir_claims r = None" "ac_bypass cfg = Some ps" "bypass_match ps (c_path c)"
    then show ?thesis using res cfg by auto
  next
    fix verify cl audiences
    assume a: "ac_verifier cfg = Some verify" "ir_claims r = Some cl" "audiences \<noteq> []"
      "audiences = (if ?aud \<noteq> '''' then [?aud] else ic_audiences (as_identity (bw_inbound w)))"
      "verify (extract_bearer ?hdr) audiences = Inr cl"
    then have acc: "jwt_accept p cl c (w\<lparr>bw_inbound := st\<rparr>) = (Continue, c', w')" using res by simp
    have "if jv_placeholder_mode (jp_cfg p) then is_placeholder (extract_bearer (hdr_get (c_headers c') ''Authorization''))
         else c_headers c' = c_headers c"
      using jwt_accept_continue(2)[OF acc] jwt_accept_minted[OF acc] by (auto simp: placeholder_new_not_empty is_placeholder_new)
    moreover have "audiences = [service_name_from_host (c_host c)] \<or> audiences = ic_audiences (as_identity (bw_inbound w))"
      using a(4) by (simp split: if_splits)
    ultimately show ?thesis using cfg a jwt_accept_continue(1)[OF acc] by blast
  qed
qed

lemma jwt_admits_only_verified_witness:
  "\<exists>c' w'. jwt_on_request sample_jwt sample_request sample_world = (Continue, c', w') \<and>
     c_identity c' = Some (claims_identity sample_claims) \<and>
     is_placeholder (extract_bearer (hdr_get (c_headers c') ''Authorization''))"
proof -
  obtain c' w' where r: "jwt_on_request sample_jwt sample_request sample_world = (Continue, c', w')"
    using sample_admitted by (metis prod.collapse)
  have b: "\<not> bypass_match [''/healthz''] (c_path sample_request)" by (simp add: sample_request_def sample_not_bypassed)
  show ?thesis using jwt_admits_only_verified[OF r] r b
    by (auto simp: sample_jwt_def sample_auth_def sample_jwt_config_def sample_verifier_def split: if_splits)
qed

text \<open>On a route that asks for an exchange, with a token endpoint configured
  and no policy that lets anonymous requests pass, token-exchange never
  forwards the credential it received: a request that continues carries a token
  cached for its subject token and the route's audience, or the result of a
  successful exchange of the subject token, or, when it had none, the result of the
  client-credentials grant.\<close>
lemma te_exchanged:
  assumes "te_on_request p c w = (Continue, c', w')" "te_inner p = Some cfg" "ac_router cfg = Some ro"
    and "resolve ro (c_host c) = Some rr" "\<not> rr_passthrough rr" "ac_exchanger cfg = Some cl"
    and "ac_no_token_policy cfg \<noteq> ''allow''"
  shows "\<exists>token audience. hdr_get (c_headers c') ''Authorization'' = bearer token \<and>
    audience = route_audience cfg rr (c_host c) \<and>
    (if te_subject p c w = ''''
     then ac_no_token_policy cfg = ''client-credentials'' \<and>
       (\<exists>resp. client_credentials cl (bw_now w) audience (rr_scopes rr) = Inr resp \<and> ep_access_token resp = token)
     else (\<exists>cache. as_cache (bw_outbound w) = Some cache \<and> exchange_get (bw_now w) (te_subject p c w) audience cache = Some token) \<or>
       (\<exists>resp. exchange cl (bw_now w) \<lparr>er_subject_token = te_subject p c w, er_audience = audience,
         er_scopes = rr_scopes rr, er_actor_token = '''', er_token_endpoint = rr_token_endpoint rr\<rparr> = Inr resp \<and>
         ep_access_token resp = token))"
proof -
  obtain r st hdr where h: "handle_outbound cfg (bw_now w) hdr (c_host c) (bw_outbound w) = (r, st)"
      "extract_bearer hdr = te_subject p c w" and a: "te_apply r c = (Continue, c')"
    using te_on_request_continue[OF assms(1,2)] by blast
  have nd: "or_action r \<noteq> ActDeny" using a by (auto simp: te_apply_def DenyStatus_def)
  note res = handle_outbound_exchanges[OF h(1) nd assms(3-7), unfolded h(2)]
  have "hdr_get (c_headers c') ''Authorization'' = bearer (or_token r)"
    using a res by (auto simp: te_apply_def)
  then show ?thesis using res by auto
qed



text \<open>Claim C0. After a successful \<^verbatim>\<open>Configure\<close>, \<^verbatim>\<open>Init\<close> polls for the audience file exactly
  when a file is configured, no literal audience is set, no allowed audience is
  given, and the file could not be read or was blank: with an allowed audience,
  an audience file that appears later is never read.\<close>
lemma audience_file_poll_iff:
  assumes "jwt_configure verifier read_file parse_duration raw = Inr (p, st)"
  shows "jwt_init_polls p st \<longleftrightarrow>
    jv_audience_file (jp_cfg p) \<noteq> '''' \<and> jv_audience (jp_cfg p) = '''' \<and>
    (\<forall>a \<in> set (jv_allowed_audiences raw). trim_space a = '''') \<and>
    (\<forall>v. read_file (jv_audience_file (jp_cfg p)) = Some v \<longrightarrow> trim_space v = '''')"
proof -
  have p: "jp_cfg p = jwt_apply_defaults raw" and
    st: "ic_audiences (as_identity st) = expected_audiences (jp_cfg p)
      (if jv_audience (jp_cfg p) = '''' \<and> jv_audience_file (jp_cfg p) \<noteq> ''''
       then (case read_file (jv_audience_file (jp_cfg p)) of Some v \<Rightarrow> v | None \<Rightarrow> '''') else '''')"
    using assms by (auto simp: jwt_configure_def Let_def split: option.splits sum.splits if_splits)
  have "jv_allowed_audiences (jp_cfg p) = jv_allowed_audiences raw" by (simp add: p)
  then show ?thesis
    by (auto simp: jwt_init_polls_def auth_ready_def st expected_audiences_Nil trim_space_def split: option.splits)
qed

lemma audience_file_poll_iff_witness:
  "\<exists>p st. jwt_configure (\<lambda>url iss. sample_verifier) (\<lambda>f. None) (\<lambda>s. None) sample_jwt_config = Inr (p, st) \<and>
     jv_audience_file (jp_cfg p) \<noteq> '''' \<and> \<not> jwt_init_polls p st"
proof -
  have "\<not> isl (new_matcher DefaultPatterns)" by code_simp
  then obtain p st where
    c: "jwt_configure (\<lambda>url iss. sample_verifier) (\<lambda>f. None) (\<lambda>s. None) sample_jwt_config = Inr (p, st)"
      "jp_cfg p = jwt_apply_defaults sample_jwt_config"
    by (cases "new_matcher DefaultPatterns") (auto simp: jwt_configure_def sample_jwt_config_def jwt_apply_defaults_def default_jwks_url_def default_audience_def jwt_validate_def trim_right_slash_def Let_def)
  have "trim_space ''svc'' = ''svc''" by code_simp
  then show ?thesis
    using audience_file_poll_iff[OF c(1)] c by (auto simp: sample_jwt_config_def jwt_apply_defaults_def default_jwks_url_def default_audience_def Let_def)
qed

lemma jwt_verified:
  assumes "jwt_on_request p c w = (Continue, c', w')" "jp_inner p = Some cfg"
    and "\<And>ps. ac_bypass cfg = Some ps \<Longrightarrow> \<not> bypass_match ps (c_path c)"
  shows "\<exists>verify cl audiences. ac_verifier cfg = Some verify \<and> audiences \<noteq> [] \<and>
     verify (extract_bearer (hdr_get (c_headers c) ''Authorization'')) audiences = Inr cl"
proof -
  let ?aud = "if jp_per_host p then service_name_from_host (c_host c) else ''''"
  obtain r st where h: "handle_inbound cfg (hdr_get (c_headers c) ''Authorization'') (c_path c) ?aud (bw_inbound w) = (r, st)"
    by fastforce
  have "ir_action r \<noteq> ActDeny"
    using assms(1,2) h by (auto simp: jwt_on_request_def DenyStatus_def Let_def split: if_splits option.splits)
  from handle_inbound_allow [OF h this] show ?thesis using assms(3) by blast
qed

end
