(* ===== verification/Webhook_Config.thy ===== *)
theory Webhook_Config
  imports Go_Prelude
begin

text \<open>
  The configuration of the injection webhook
  (\<^verbatim>\<open>kagenti-operator/internal/webhook/config\<close>): the platform configuration with
  its compiled defaults and its validation, the feature gates, and the loaders
  that read both from files and swap them atomically.

  A file is the outcome of reading it; the YAML decoder, which overlays a
  document on a given value, is the argument \<^verbatim>\<open>overlay\<close>.
\<close>

section \<open>Platform configuration\<close>

record resource_requirements =
  rq_requests :: "(string, string) gomap"
  rq_limits :: "(string, string) gomap"

record image_config =
  im_envoy_proxy :: string
  im_auth_bridge :: string
  im_auth_bridge_lite :: string
  im_proxy_init :: string
  im_pull_policy :: string

record proxy_config =
  px_port :: int
  px_uid :: int
  px_inbound_proxy_port :: int
  px_admin_port :: int
  px_transparent_port :: int
  px_iptables_cmd :: string
  px_allowed_egress_enforcement :: "string list"

record resources_config =
  rs_envoy_proxy :: resource_requirements
  rs_proxy_init :: resource_requirements
  rs_auth_bridge :: resource_requirements

record token_exchange_defaults =
  td_token_url :: string
  td_default_audience :: string
  td_default_scopes :: "string list"

record spiffe_config =
  sp_trust_domain :: string
  sp_socket_path :: string
  sp_helper_config :: string

record platform_config =
  pc_images :: image_config
  pc_proxy :: proxy_config
  pc_resources :: resources_config
  pc_token_exchange :: token_exchange_defaults
  pc_spiffe :: spiffe_config
  pc_log_level :: string
  pc_enable_metrics :: bool

definition EgressEnforcementEnforceRedirect :: string where
  "EgressEnforcementEnforceRedirect = ''enforce-redirect''"

definition EgressEnforcementNone :: string where
  "EgressEnforcementNone = ''none''"

definition valid_port :: "int \<Rightarrow> bool" where
  "valid_port p = (1024 \<le> p \<and> p \<le> 65535)"

text \<open>\<^verbatim>\<open>PlatformConfig.Validate\<close>; the error carries the rejected field.\<close>
definition platform_validate :: "platform_config \<Rightarrow> string option" where
  "platform_validate c =
     (let px = pc_proxy c; im = pc_images c in
      if \<not> valid_port (px_port px) then Some ''proxy.port''
      else if \<not> valid_port (px_inbound_proxy_port px) then Some ''proxy.inboundProxyPort''
      else if \<not> valid_port (px_admin_port px) then Some ''proxy.adminPort''
      else if \<not> valid_port (px_transparent_port px) then Some ''proxy.transparentPort''
      else if px_uid px < 1 then Some ''proxy.uid''
      else if px_iptables_cmd px \<notin> {'''', ''iptables'', ''iptables-nft'', ''iptables-legacy''} then Some ''proxy.iptablesCmd''
      else if length (px_allowed_egress_enforcement px) = 0 then Some ''proxy.allowedEgressEnforcement''
      else if \<exists>mode \<in> set (px_allowed_egress_enforcement px). mode \<noteq> ''enforce-redirect'' \<and> mode \<noteq> ''none''
      then Some ''proxy.allowedEgressEnforcement''
      else if im_envoy_proxy im = '''' then Some ''images.envoyProxy''
      else if im_auth_bridge im = '''' then Some ''images.authbridge''
      else if im_auth_bridge_lite im = '''' then Some ''images.authbridgeLite''
      else if im_proxy_init im = '''' then Some ''images.proxyInit''
      else None)"

definition cpu_memory :: "string \<Rightarrow> string \<Rightarrow> string \<Rightarrow> string \<Rightarrow> resource_requirements" where
  "cpu_memory rc rm lc lm = \<lparr>rq_requests = [(''cpu'', rc), (''memory'', rm)], rq_limits = [(''cpu'', lc), (''memory'', lm)]\<rparr>"

text \<open>The lines of the default configuration of the SPIFFE helper.\<close>
definition DefaultSpiffeHelperConfig :: string where \<open>
  DefaultSpiffeHelperConfig = concat (map (\<lambda>l. l @ [CHR 0x0A])
    [''agent_address = "/spiffe-workload-api/spire-agent.sock"'',
     ''cmd = ""'',
     ''cmd_args = ""'',
     ''svid_file_name = "/opt/svid.pem"'',
     ''svid_key_file_name = "/opt/svid_key.pem"'',
     ''svid_bundle_file_name = "/opt/svid_bundle.pem"'',
     ''cert_file_mode = 0644'',
     ''key_file_mode = 0640'',
     ''jwt_svids = [{jwt_audience="http://keycloak.localtest.me:8080/realms/kagenti", jwt_svid_file_name="/opt/jwt_svid.token"}]'',
     ''jwt_svid_file_mode = 0644'',
     ''include_federated_domains = true''])\<close>

definition CompiledDefaults :: platform_config where
  "CompiledDefaults =
     \<lparr>pc_images = \<lparr>im_envoy_proxy = ''ghcr.io/kagenti/kagenti-extensions/authbridge-envoy:latest'',
        im_auth_bridge = ''quay.io/opendatahub/odh-authbridge:latest'',
        im_auth_bridge_lite = ''ghcr.io/kagenti/kagenti-extensions/authbridge-lite:latest'',
        im_proxy_init = ''ghcr.io/kagenti/kagenti-extensions/proxy-init:latest'',
        im_pull_policy = ''IfNotPresent''\<rparr>,
      pc_proxy = \<lparr>px_port = 15123, px_uid = 1337, px_inbound_proxy_port = 15124, px_admin_port = 9901,
        px_transparent_port = 8082, px_iptables_cmd = '''',
        px_allowed_egress_enforcement = [''enforce-redirect'', ''none'']\<rparr>,
      pc_resources = \<lparr>rs_envoy_proxy = cpu_memory ''50m'' ''64Mi'' ''200m'' ''256Mi'',
        rs_proxy_init = cpu_memory ''10m'' ''10Mi'' ''10m'' ''10Mi'',
        rs_auth_bridge = cpu_memory ''100m'' ''128Mi'' ''300m'' ''384Mi''\<rparr>,
      pc_token_exchange = \<lparr>td_token_url = '''', td_default_audience = '''', td_default_scopes = [''openid'']\<rparr>,
      pc_spiffe = \<lparr>sp_trust_domain = ''cluster.local'', sp_socket_path = ''unix:///spiffe-workload-api/spire-agent.sock'',
        sp_helper_config = DefaultSpiffeHelperConfig\<rparr>,
      pc_log_level = ''info'', pc_enable_metrics = True\<rparr>"

section \<open>Feature gates\<close>

record feature_gates =
  fg_global_enabled :: bool
  fg_envoy_proxy :: bool
  fg_inject_tools :: bool
  fg_per_workload_config_resolution :: bool
  fg_skill_discovery :: bool

definition DefaultFeatureGates :: feature_gates where
  "DefaultFeatureGates = \<lparr>fg_global_enabled = True, fg_envoy_proxy = True, fg_inject_tools = False,
     fg_per_workload_config_resolution = False, fg_skill_discovery = False\<rparr>"

definition zero_gates :: feature_gates where
  "zero_gates = \<lparr>fg_global_enabled = False, fg_envoy_proxy = False, fg_inject_tools = False,
     fg_per_workload_config_resolution = False, fg_skill_discovery = False\<rparr>"

section \<open>Loading\<close>

datatype file_read = FileMissing | FileError string | FileData string

text \<open>A load: the error, the configuration now current, and the values handed to the
  callbacks.\<close>
definition config_load ::
  "(string \<Rightarrow> platform_config \<Rightarrow> string + platform_config) \<Rightarrow> file_read \<Rightarrow> nat \<Rightarrow> platform_config \<Rightarrow>
   string option \<times> platform_config \<times> platform_config list" where
  "config_load overlay f callbacks current =
     (case f of
        FileMissing \<Rightarrow> (None, CompiledDefaults, replicate callbacks CompiledDefaults)
      | FileError e \<Rightarrow> (Some e, current, [])
      | FileData d \<Rightarrow>
          (case overlay d CompiledDefaults of
             Inl e \<Rightarrow> (Some e, current, [])
           | Inr c \<Rightarrow>
               (case platform_validate c of
                  Some e \<Rightarrow> (Some e, current, [])
                | None \<Rightarrow> (None, c, replicate callbacks c))))"

definition gates_load ::
  "(string \<Rightarrow> feature_gates \<Rightarrow> string + feature_gates) \<Rightarrow> file_read \<Rightarrow> nat \<Rightarrow> feature_gates \<Rightarrow>
   string option \<times> feature_gates \<times> feature_gates list" where
  "gates_load overlay f callbacks current =
     (case f of
        FileMissing \<Rightarrow> (None, DefaultFeatureGates, replicate callbacks DefaultFeatureGates)
      | FileError e \<Rightarrow> (Some (''reading feature gates file: '' @ e), current, [])
      | FileData d \<Rightarrow>
          (case overlay d DefaultFeatureGates of
             Inl e \<Rightarrow> (Some (''parsing feature gates file: '' @ e), current, [])
           | Inr g0 \<Rightarrow> (let g = (if g0 = zero_gates then DefaultFeatureGates else g0)
                         in (None, g, replicate callbacks g))))"

text \<open>A watcher reloads after every change, whatever the previous loads did.\<close>
definition config_watch ::
  "(string \<Rightarrow> platform_config \<Rightarrow> string + platform_config) \<Rightarrow> file_read list \<Rightarrow> platform_config" where
  "config_watch overlay fs = foldl (\<lambda>c f. fst (snd (config_load overlay f 0 c))) CompiledDefaults fs"

section \<open>Lemmas\<close>

lemma CompiledDefaults_valid: "platform_validate CompiledDefaults = None"
  by (simp add: platform_validate_def CompiledDefaults_def valid_port_def Let_def)

lemma config_load_valid:
  "platform_validate current = None \<Longrightarrow> platform_validate (fst (snd (config_load overlay f n current))) = None"
  by (auto simp: config_load_def CompiledDefaults_valid split: file_read.splits sum.splits option.splits)

lemma config_watch_valid: "platform_validate (config_watch overlay fs) = None"
proof -
  have "platform_validate c = None \<Longrightarrow>
      platform_validate (foldl (\<lambda>c f. fst (snd (config_load overlay f 0 c))) c fs) = None" for c
    by (induction fs arbitrary: c) (simp_all add: config_load_valid)
  then show ?thesis by (simp add: config_watch_def CompiledDefaults_valid)
qed

lemma platform_validate_egress:
  assumes "platform_validate c = None"
  shows "px_allowed_egress_enforcement (pc_proxy c) \<noteq> []"
    and "set (px_allowed_egress_enforcement (pc_proxy c)) \<subseteq> {''enforce-redirect'', ''none''}"
    and "px_uid (pc_proxy c) \<ge> 1"
  using assms by (auto simp: platform_validate_def Let_def split: if_splits)

end
