(* ===== verification/Pod_Builder.thy ===== *)
theory Pod_Builder
  imports Webhook_Config Host_Match
begin

text \<open>
  Pods and the parts that the webhook adds to them: the containers of
  \<^verbatim>\<open>internal/webhook/injector/container_builder.go\<close>, the volumes of
  \<^verbatim>\<open>volume_builder.go\<close>, the client credentials of
  \<^verbatim>\<open>keycloak_client_credentials.go\<close> and the environment helpers of
  \<^verbatim>\<open>pod_mutator.go\<close>.  A pod has the fields that this code reads or writes.
\<close>

section \<open>Pods\<close>

datatype env_source =
    ConfigMapKeyRef string string "bool option"
  | FieldRef string
  | OtherEnvSource string

record env_var =
  ev_name :: string
  ev_value :: string
  ev_value_from :: "env_source option"

record container_port =
  cp_name :: string
  cp_container_port :: int
  cp_protocol :: string

record volume_mount =
  vm_name :: string
  vm_mount_path :: string
  vm_sub_path :: string
  vm_read_only :: bool

text \<open>A Secret volume has the projected items, the mode and the optional flag.\<close>
datatype volume_source =
    EmptyDirVolume
  | CSIVolume string "bool option"
  | ConfigMapVolume string "bool option"
  | SecretVolume string "(string \<times> string) list" "int option" "bool option"
  | OtherVolume string

record volume =
  vo_name :: string
  vo_source :: volume_source

record security_context =
  sc_run_as_user :: "int option"
  sc_run_as_group :: "int option"
  sc_run_as_non_root :: "bool option"
  sc_allow_privilege_escalation :: "bool option"
  sc_privileged :: "bool option"
  sc_capabilities :: "(string list \<times> string list) option"

record container =
  co_name :: string
  co_image :: string
  co_image_pull_policy :: string
  co_args :: "string list"
  co_resources :: resource_requirements
  co_ports :: "container_port list"
  co_env :: "env_var list"
  co_security_context :: "security_context option"
  co_volume_mounts :: "volume_mount list"

text \<open>The security context of a pod is present or not, and so is its fsGroup.\<close>
record pod_spec =
  ps_service_account_name :: string
  ps_containers :: "container list"
  ps_init_containers :: "container list"
  ps_volumes :: "volume list"
  ps_security_context :: "int option option"

definition literal_env :: "string \<Rightarrow> string \<Rightarrow> env_var" where
  "literal_env n v = \<lparr>ev_name = n, ev_value = v, ev_value_from = None\<rparr>"

definition mount :: "string \<Rightarrow> string \<Rightarrow> bool \<Rightarrow> volume_mount" where
  "mount n p ro = \<lparr>vm_name = n, vm_mount_path = p, vm_sub_path = '''', vm_read_only = ro\<rparr>"

definition tcp_port :: "string \<Rightarrow> int \<Rightarrow> container_port" where
  "tcp_port n p = \<lparr>cp_name = n, cp_container_port = p, cp_protocol = ''TCP''\<rparr>"

definition fmt_int :: "int \<Rightarrow> string" where
  "fmt_int n = (if n < 0 then ''-'' @ itoa (nat (- n)) else itoa (nat n))"

definition container_exists :: "container list \<Rightarrow> string \<Rightarrow> bool" where
  "container_exists cs name = (\<exists>c \<in> set cs. co_name c = name)"

definition volume_exists :: "volume list \<Rightarrow> string \<Rightarrow> bool" where
  "volume_exists vs name = (\<exists>v \<in> set vs. vo_name v = name)"

definition env_exists :: "env_var list \<Rightarrow> string \<Rightarrow> bool" where
  "env_exists es name = (\<exists>e \<in> set es. ev_name e = name)"

text \<open>Set the first variable with the name, or add one.\<close>
fun set_env :: "string \<Rightarrow> string \<Rightarrow> env_var list \<Rightarrow> env_var list" where
  "set_env name v [] = [literal_env name v]"
| "set_env name v (e # es) =
     (if ev_name e = name then e\<lparr>ev_value := v, ev_value_from := None\<rparr> # es else e # set_env name v es)"

definition set_or_add_env :: "string \<Rightarrow> string \<Rightarrow> container \<Rightarrow> container" where
  "set_or_add_env name v c = c\<lparr>co_env := set_env name v (co_env c)\<rparr>"

definition add_env_if_missing :: "env_var \<Rightarrow> container \<Rightarrow> container" where
  "add_env_if_missing e c = (if env_exists (co_env c) (ev_name e) then c else c\<lparr>co_env := co_env c @ [e]\<rparr>)"

definition inject_http_proxy_env :: "int \<Rightarrow> container \<Rightarrow> container" where
  "inject_http_proxy_env port c =
     (let url = ''http://127.0.0.1:'' @ fmt_int port in
      add_env_if_missing (literal_env ''NO_PROXY'' ''127.0.0.1,localhost'')
        (add_env_if_missing (literal_env ''HTTPS_PROXY'' url)
          (add_env_if_missing (literal_env ''HTTP_PROXY'' url) c)))"

definition ensure_fs_group :: "pod_spec \<Rightarrow> pod_spec" where
  "ensure_fs_group p =
     (case ps_security_context p of
        Some (Some g) \<Rightarrow> p
      | _ \<Rightarrow> p\<lparr>ps_security_context := Some (Some 0)\<rparr>)"

section \<open>Names\<close>

definition EnvoyProxyContainerName :: string where "EnvoyProxyContainerName = ''envoy-proxy''"
definition ProxyInitContainerName :: string where "ProxyInitContainerName = ''proxy-init''"
definition AuthBridgeProxyContainerName :: string where "AuthBridgeProxyContainerName = ''authbridge-proxy''"
definition AuthBridgeConfigMapName :: string where "AuthBridgeConfigMapName = ''authbridge-config''"
definition AuthBridgeRuntimeConfigMapName :: string where "AuthBridgeRuntimeConfigMapName = ''authbridge-runtime-config''"
definition SpiffeHelperConfigMapName :: string where "SpiffeHelperConfigMapName = ''spiffe-helper-config''"
definition EnvoyConfigMapName :: string where "EnvoyConfigMapName = ''envoy-config''"
definition AuthproxyRoutesConfigMapName :: string where "AuthproxyRoutesConfigMapName = ''authproxy-routes''"
definition TLSBridgeCAVolumeName :: string where "TLSBridgeCAVolumeName = ''tls-bridge-ca''"
definition TLSBridgeCACertVolumeName :: string where "TLSBridgeCACertVolumeName = ''tls-bridge-ca-cert''"
definition TLSBridgeCAMountPath :: string where "TLSBridgeCAMountPath = ''/etc/authbridge/tls-bridge-ca''"
definition TLSBridgeCASecretSuffix :: string where "TLSBridgeCASecretSuffix = ''-tls-bridge-ca''"

section \<open>Containers\<close>

text \<open>The values that the resolved builder writes as literals.\<close>
record resolved_config =
  rc_platform :: platform_config
  rc_keycloak_url :: string
  rc_keycloak_realm :: string
  rc_admin_credentials_secret_name :: string
  rc_spiffe_trust_domain :: string
  rc_platform_client_ids :: string
  rc_token_url :: string
  rc_issuer :: string
  rc_expected_audience :: string
  rc_target_audience :: string
  rc_target_scopes :: string
  rc_default_outbound_policy :: string
  rc_client_auth_type :: string
  rc_spiffe_idp_alias :: string
  rc_authproxy_routes_yaml :: string
  rc_authbridge_runtime_yaml :: string
  rc_auth_bridge_mode :: string
  rc_mtls_mode :: string
  rc_tls_bridge_mode :: string

record container_builder =
  cb_cfg :: platform_config
  cb_resolved :: "resolved_config option"

definition new_container_builder :: "platform_config option \<Rightarrow> container_builder" where
  "new_container_builder cfg =
     \<lparr>cb_cfg = (case cfg of Some c \<Rightarrow> c | None \<Rightarrow> CompiledDefaults), cb_resolved = None\<rparr>"

definition spire_enabled_str :: "bool \<Rightarrow> string" where
  "spire_enabled_str b = (if b then ''true'' else ''false'')"

definition path_dir :: "string \<Rightarrow> string" where
  "path_dir s = path_clean (case last_index_byte (CHR ''/'') s of None \<Rightarrow> '''' | Some i \<Rightarrow> take (Suc i) s)"

definition spire_socket_dir :: "string \<Rightarrow> string" where
  "spire_socket_dir socket =
     (let dir = path_dir (trim_prefix socket ''unix://'') in if dir = ''.'' \<or> dir = ''/'' then '''' else dir)"

definition spire_mounts :: "platform_config \<Rightarrow> volume_mount list" where
  "spire_mounts cfg =
     [mount ''svid-output'' ''/opt'' False,
      mount ''spiffe-helper-config'' ''/etc/spiffe-helper'' True,
      mount ''spire-agent-socket'' (spire_socket_dir (sp_socket_path (pc_spiffe cfg))) True]"

definition proxy_security_context :: "platform_config \<Rightarrow> security_context" where
  "proxy_security_context cfg =
     \<lparr>sc_run_as_user = Some (px_uid (pc_proxy cfg)), sc_run_as_group = Some (px_uid (pc_proxy cfg)),
      sc_run_as_non_root = Some True, sc_allow_privilege_escalation = Some False, sc_privileged = None, sc_capabilities = None\<rparr>"

definition build_envoy_proxy_env_resolved :: "resolved_config \<Rightarrow> env_var list" where
  "build_envoy_proxy_env_resolved r =
     [literal_env ''KEYCLOAK_URL'' (rc_keycloak_url r), literal_env ''KEYCLOAK_REALM'' (rc_keycloak_realm r),
      literal_env ''TOKEN_URL'' (rc_token_url r), literal_env ''ISSUER'' (rc_issuer r),
      literal_env ''EXPECTED_AUDIENCE'' (rc_expected_audience r), literal_env ''TARGET_AUDIENCE'' (rc_target_audience r),
      literal_env ''TARGET_SCOPES'' (rc_target_scopes r), literal_env ''CLIENT_ID_FILE'' ''/shared/client-id.txt'',
      literal_env ''CLIENT_SECRET_FILE'' ''/shared/client-secret.txt'',
      literal_env ''ROUTES_CONFIG_PATH'' ''/etc/authproxy/routes.yaml'',
      literal_env ''DEFAULT_OUTBOUND_POLICY'' (rc_default_outbound_policy r)]"

definition config_map_env :: "string \<Rightarrow> bool \<Rightarrow> env_var" where
  "config_map_env key optional =
     \<lparr>ev_name = key, ev_value = '''', ev_value_from = Some (ConfigMapKeyRef ''authbridge-config'' key (Some optional))\<rparr>"

definition build_envoy_proxy_env_legacy :: "env_var list" where
  "build_envoy_proxy_env_legacy =
     [config_map_env ''KEYCLOAK_URL'' True, config_map_env ''KEYCLOAK_REALM'' True, config_map_env ''TOKEN_URL'' True,
      config_map_env ''ISSUER'' False, config_map_env ''EXPECTED_AUDIENCE'' True, config_map_env ''TARGET_AUDIENCE'' True,
      config_map_env ''TARGET_SCOPES'' True, literal_env ''CLIENT_ID_FILE'' ''/shared/client-id.txt'',
      literal_env ''CLIENT_SECRET_FILE'' ''/shared/client-secret.txt'',
      literal_env ''ROUTES_CONFIG_PATH'' ''/etc/authproxy/routes.yaml'', config_map_env ''DEFAULT_OUTBOUND_POLICY'' True]"

definition build_envoy_proxy_container_with_spire_option :: "container_builder \<Rightarrow> bool \<Rightarrow> container" where
  "build_envoy_proxy_container_with_spire_option b spire =
     (let cfg = cb_cfg b; px = pc_proxy cfg in
      \<lparr>co_name = EnvoyProxyContainerName, co_image = im_envoy_proxy (pc_images cfg),
       co_image_pull_policy = im_pull_policy (pc_images cfg), co_args = [''--config'', ''/etc/authbridge/config.yaml''],
       co_resources = rs_envoy_proxy (pc_resources cfg),
       co_ports = [tcp_port ''envoy-outbound'' (px_port px), tcp_port ''envoy-inbound'' (px_inbound_proxy_port px),
         tcp_port ''envoy-admin'' (px_admin_port px), tcp_port ''ext-proc'' 9090],
       co_env = (case cb_resolved b of Some r \<Rightarrow> build_envoy_proxy_env_resolved r | None \<Rightarrow> build_envoy_proxy_env_legacy)
         @ [literal_env ''SPIRE_ENABLED'' (spire_enabled_str spire)],
       co_security_context = Some (proxy_security_context cfg),
       co_volume_mounts = [mount ''envoy-config'' ''/etc/envoy'' True, mount ''shared-data'' ''/shared'' False,
         mount ''authproxy-routes'' ''/etc/authproxy'' True, mount ''authbridge-runtime-config'' ''/etc/authbridge'' True]
         @ (if spire then spire_mounts cfg else [])\<rparr>)"

definition build_proxy_sidecar_container_with_ports ::
  "container_builder \<Rightarrow> bool \<Rightarrow> string \<Rightarrow> int \<Rightarrow> int \<Rightarrow> int \<Rightarrow> container" where
  "build_proxy_sidecar_container_with_ports b spire img reverse_port agent_port forward_port =
     (let cfg = cb_cfg b in
      \<lparr>co_name = AuthBridgeProxyContainerName, co_image = img,
       co_image_pull_policy = im_pull_policy (pc_images cfg), co_args = [''--config'', ''/etc/authbridge/config.yaml''],
       co_resources = rs_auth_bridge (pc_resources cfg),
       co_ports = [tcp_port ''reverse-proxy'' reverse_port, tcp_port ''forward-proxy'' forward_port],
       co_env = [literal_env ''SPIRE_ENABLED'' (spire_enabled_str spire)],
       co_security_context = Some (proxy_security_context cfg),
       co_volume_mounts = [mount ''shared-data'' ''/shared'' False,
         mount ''authbridge-runtime-config'' ''/etc/authbridge'' True,
         mount AuthproxyRoutesConfigMapName ''/etc/authproxy'' True]
         @ (if spire then spire_mounts cfg else [])\<rparr>)"

section \<open>The init container\<close>

text \<open>The tokens of a port list that are ports and new.\<close>
fun valid_ports :: "string list \<Rightarrow> string list \<Rightarrow> string list" where
  "valid_ports ports [] = ports"
| "valid_ports ports (raw # toks) =
     (let tok = trim_space raw in
      if tok = '''' then valid_ports ports toks
      else case atoi tok of
             None \<Rightarrow> valid_ports ports toks
           | Some p \<Rightarrow>
               if p < 1 \<or> p > 65535 then valid_ports ports toks
               else if fmt_int p \<in> set ports then valid_ports ports toks
               else valid_ports (ports @ [fmt_int p]) toks)"

definition validate_and_deduplicate_ports :: "string \<Rightarrow> string list \<Rightarrow> string list" where
  "validate_and_deduplicate_ports raw initial = valid_ports initial (split_on (CHR '','') raw)"

definition mandatory_outbound_exclude :: string where
  "mandatory_outbound_exclude = ''8080''"

definition build_outbound_exclude_value :: "string \<Rightarrow> string" where
  "build_outbound_exclude_value extra =
     (if extra = '''' then mandatory_outbound_exclude
      else join_with '','' (validate_and_deduplicate_ports extra [mandatory_outbound_exclude]))"

definition build_port_exclude_value :: "string \<Rightarrow> string" where
  "build_port_exclude_value raw = (if raw = '''' then '''' else join_with '','' (validate_and_deduplicate_ports raw []))"

definition empty_container :: container where
  "empty_container = \<lparr>co_name = '''', co_image = '''', co_image_pull_policy = '''', co_args = [],
     co_resources = \<lparr>rq_requests = [], rq_limits = []\<rparr>, co_ports = [], co_env = [], co_security_context = None,
     co_volume_mounts = []\<rparr>"

definition ProxyInitModeRedirect :: string where "ProxyInitModeRedirect = ''redirect''"
definition ProxyInitModeEnforceRedirect :: string where "ProxyInitModeEnforceRedirect = ''enforce-redirect''"

definition build_proxy_init_container :: "container_builder \<Rightarrow> string \<Rightarrow> string \<Rightarrow> string \<Rightarrow> container" where
  "build_proxy_init_container b mode outbound_exclude inbound_exclude =
     (let cfg = cb_cfg b; px = pc_proxy cfg; inbound = build_port_exclude_value inbound_exclude;
          env = (if mode = ProxyInitModeEnforceRedirect
            then Some [literal_env ''MODE'' ProxyInitModeEnforceRedirect, literal_env ''PROXY_UID'' (fmt_int (px_uid px)),
                       literal_env ''TRANSPARENT_PORT'' (fmt_int (px_transparent_port px))]
            else if mode = ProxyInitModeRedirect
            then Some ([literal_env ''PROXY_PORT'' (fmt_int (px_port px)),
                        literal_env ''INBOUND_PROXY_PORT'' (fmt_int (px_inbound_proxy_port px)),
                        literal_env ''PROXY_UID'' (fmt_int (px_uid px)),
                        literal_env ''OUTBOUND_PORTS_EXCLUDE'' (build_outbound_exclude_value outbound_exclude),
                        \<lparr>ev_name = ''POD_IP'', ev_value = '''', ev_value_from = Some (FieldRef ''status.podIP'')\<rparr>]
                       @ (if inbound \<noteq> '''' then [literal_env ''INBOUND_PORTS_EXCLUDE'' inbound] else []))
            else None)
      in case env of
           None \<Rightarrow> empty_container
         | Some es \<Rightarrow>
             empty_container\<lparr>co_name := ProxyInitContainerName, co_image := im_proxy_init (pc_images cfg),
               co_image_pull_policy := im_pull_policy (pc_images cfg), co_resources := rs_proxy_init (pc_resources cfg),
               co_env := es @ (if px_iptables_cmd px \<noteq> '''' then [literal_env ''IPTABLES_CMD'' (px_iptables_cmd px)] else []),
               co_security_context := Some \<lparr>sc_run_as_user = Some 0, sc_run_as_group = None, sc_run_as_non_root = Some False,
                 sc_allow_privilege_escalation = None, sc_privileged = Some False,
                 sc_capabilities = Some ([''NET_ADMIN'', ''NET_RAW''], [''ALL''])\<rparr>\<rparr>)"

section \<open>Volumes\<close>

definition vol :: "string \<Rightarrow> volume_source \<Rightarrow> volume" where
  "vol n s = \<lparr>vo_name = n, vo_source = s\<rparr>"

definition spire_volumes :: "volume list" where
  "spire_volumes = [vol ''spire-agent-socket'' (CSIVolume ''csi.spiffe.io'' (Some True)),
     vol ''spiffe-helper-config'' (ConfigMapVolume ''spiffe-helper-config'' None), vol ''svid-output'' EmptyDirVolume]"

definition config_volumes :: "string \<Rightarrow> volume list" where
  "config_volumes envoy = [vol ''envoy-config'' (ConfigMapVolume envoy (Some True)),
     vol ''authproxy-routes'' (ConfigMapVolume ''authproxy-routes'' (Some True)),
     vol ''authbridge-runtime-config'' (ConfigMapVolume ''authbridge-runtime-config'' (Some True))]"

definition build_required_volumes :: "volume list" where
  "build_required_volumes = vol ''shared-data'' EmptyDirVolume # spire_volumes @ config_volumes ''envoy-config''"

definition build_required_volumes_no_spire :: "volume list" where
  "build_required_volumes_no_spire = vol ''shared-data'' EmptyDirVolume # config_volumes ''envoy-config''"

definition build_resolved_volumes :: "bool \<Rightarrow> string \<Rightarrow> volume list" where
  "build_resolved_volumes spire envoy =
     vol ''shared-data'' EmptyDirVolume # (if spire then spire_volumes else [])
       @ config_volumes (if envoy = '''' then EnvoyConfigMapName else envoy)"

definition override_config_map :: "string \<Rightarrow> string \<Rightarrow> volume \<Rightarrow> volume" where
  "override_config_map vname cm v =
     (case vo_source v of
        ConfigMapVolume _ optional \<Rightarrow> if vo_name v = vname then v\<lparr>vo_source := ConfigMapVolume cm optional\<rparr> else v
      | _ \<Rightarrow> v)"

definition override_auth_bridge_config_map_in_volumes :: "volume list \<Rightarrow> string \<Rightarrow> volume list" where
  "override_auth_bridge_config_map_in_volumes vs cm = map (override_config_map AuthBridgeRuntimeConfigMapName cm) vs"

definition override_envoy_config_map_in_volumes :: "volume list \<Rightarrow> string \<Rightarrow> volume list" where
  "override_envoy_config_map_in_volumes vs cm = map (override_config_map EnvoyConfigMapName cm) vs"

text \<open>The loop that adds the missing volumes.\<close>
definition add_volume :: "volume \<Rightarrow> pod_spec \<Rightarrow> pod_spec" where
  "add_volume v p = (if volume_exists (ps_volumes p) (vo_name v) then p else p\<lparr>ps_volumes := ps_volumes p @ [v]\<rparr>)"

definition add_volumes :: "volume list \<Rightarrow> pod_spec \<Rightarrow> pod_spec" where
  "add_volumes vs p = fold add_volume vs p"

section \<open>The certificate authority of the TLS bridge\<close>

definition tls_bridge_trust_env_vars :: "string list" where
  "tls_bridge_trust_env_vars = [''NODE_EXTRA_CA_CERTS'', ''SSL_CERT_FILE'', ''REQUESTS_CA_BUNDLE'', ''CURL_CA_BUNDLE'',
     ''GIT_SSL_CAINFO'', ''AWS_CA_BUNDLE'', ''GRPC_DEFAULT_SSL_ROOTS_FILE_PATH'']"

definition container_volume_mount_exists :: "volume_mount list \<Rightarrow> string \<Rightarrow> bool" where
  "container_volume_mount_exists ms name = (\<exists>m \<in> set ms. vm_name m = name)"

definition add_volume_mount_if_missing :: "volume_mount \<Rightarrow> container \<Rightarrow> container" where
  "add_volume_mount_if_missing vm c =
     (if container_volume_mount_exists (co_volume_mounts c) (vm_name vm) then c
      else c\<lparr>co_volume_mounts := co_volume_mounts c @ [vm]\<rparr>)"

definition tls_bridge_container :: "container \<Rightarrow> container" where
  "tls_bridge_container c =
     (if co_name c = AuthBridgeProxyContainerName
      then add_volume_mount_if_missing (mount TLSBridgeCAVolumeName TLSBridgeCAMountPath True) c
      else fold (\<lambda>e. set_or_add_env e (TLSBridgeCAMountPath @ ''/ca.crt'')) tls_bridge_trust_env_vars
             (add_volume_mount_if_missing (mount TLSBridgeCACertVolumeName TLSBridgeCAMountPath True) c))"

definition apply_tls_bridge_mounts :: "string \<Rightarrow> pod_spec \<Rightarrow> pod_spec" where
  "apply_tls_bridge_mounts workload p =
     (let secret = workload @ TLSBridgeCASecretSuffix;
          p1 = add_volumes [vol TLSBridgeCAVolumeName (SecretVolume secret [] (Some 292) None),
                 vol TLSBridgeCACertVolumeName (SecretVolume secret [(''ca.crt'', ''ca.crt'')] (Some 292) None)] p
      in p1\<lparr>ps_containers := map tls_bridge_container (ps_containers p1)\<rparr>)"

section \<open>Client credentials\<close>

definition AnnotationKeycloakClientSecretName :: string where
  "AnnotationKeycloakClientSecretName = ''kagenti.io/keycloak-client-credentials-secret-name''"

definition keycloak_client_credentials_volume_name :: "string \<Rightarrow> string" where
  "keycloak_client_credentials_volume_name secret = secret"

definition has_credentials_mount :: "container \<Rightarrow> string \<Rightarrow> string \<Rightarrow> bool" where
  "has_credentials_mount c vname path = (\<exists>m \<in> set (co_volume_mounts c). vm_name m = vname \<and> vm_mount_path m = path)"

definition needs_keycloak_client_credentials_volume_patch :: "pod_spec \<Rightarrow> (string, string) gomap \<Rightarrow> bool" where
  "needs_keycloak_client_credentials_volume_patch p annotations =
     (let secret = trim_space (gm_get_or '''' annotations AnnotationKeycloakClientSecretName);
          vname = keycloak_client_credentials_volume_name secret
      in secret \<noteq> '''' \<and>
         (\<not> volume_exists (ps_volumes p) vname \<or>
          (\<exists>c \<in> set (ps_containers p). container_volume_mount_exists (co_volume_mounts c) ''shared-data'' \<and>
             (\<not> has_credentials_mount c vname ''/shared/client-secret.txt'' \<or>
              \<not> has_credentials_mount c vname ''/shared/client-id.txt''))))"

definition append_sub_path_mount :: "string \<Rightarrow> string \<Rightarrow> string \<Rightarrow> container \<Rightarrow> container" where
  "append_sub_path_mount vname sub path c =
     (if has_credentials_mount c vname path then c
      else c\<lparr>co_volume_mounts := co_volume_mounts c @
             [\<lparr>vm_name = vname, vm_mount_path = path, vm_sub_path = sub, vm_read_only = True\<rparr>]\<rparr>)"

definition credentials_container :: "string \<Rightarrow> container \<Rightarrow> container" where
  "credentials_container vname c =
     (if container_volume_mount_exists (co_volume_mounts c) ''shared-data''
      then append_sub_path_mount vname ''client-id.txt'' ''/shared/client-id.txt''
             (append_sub_path_mount vname ''client-secret.txt'' ''/shared/client-secret.txt'' c)
      else c)"

definition apply_keycloak_client_credentials_secret_volumes :: "(string, string) gomap \<Rightarrow> pod_spec \<Rightarrow> pod_spec" where
  "apply_keycloak_client_credentials_secret_volumes annotations p =
     (let secret = trim_space (gm_get_or '''' annotations AnnotationKeycloakClientSecretName);
          vname = keycloak_client_credentials_volume_name secret
      in if secret = '''' then p
         else let p1 = add_volume (vol vname (SecretVolume secret [] None (Some False))) p
              in p1\<lparr>ps_containers := map (credentials_container vname) (ps_containers p1)\<rparr>)"

end
