(* ===== verification/Pod_Mutator.thy ===== *)
theory Pod_Mutator
  imports Pod_Builder
begin

text \<open>
  The injection of the AuthBridge sidecars into a pod
  (\<^verbatim>\<open>internal/webhook/injector\<close>): the per-sidecar precedence
  (\<^verbatim>\<open>precedence.go\<close>), the namespace configuration (\<^verbatim>\<open>namespace_config.go\<close>,
  \<^verbatim>\<open>resolved_config.go\<close>), the data of the Envoy template (\<^verbatim>\<open>envoy_template.go\<close>) and
  the mutator itself (\<^verbatim>\<open>pod_mutator.go\<close>).

  The API server is the record \<^verbatim>\<open>kube_api\<close> of the answers it gives; what the
  mutator writes to it is returned as a list of effects.  The YAML library is the
  record \<^verbatim>\<open>yaml_api\<close>: the string at one field of a document (None when the
  document cannot be decoded), a document as a map (which is nil for a null
  document), and the encoder.
\<close>

section \<open>Interfaces\<close>

record yaml_api =
  y_mode :: "string \<Rightarrow> string option"
  y_egress :: "string \<Rightarrow> string option"
  y_mtls :: "string \<Rightarrow> string option"
  y_tls_bridge :: "string \<Rightarrow> string option"
  y_map :: "string \<Rightarrow> (string, json) gomap option option"
  y_marshal :: "(string, json) gomap \<Rightarrow> string option"

datatype create_result = Created | AlreadyExists | CreateError string

record owner_reference =
  ow_api_version :: string
  ow_kind :: string
  ow_name :: string
  ow_uid :: string

record applied_config_map =
  am_namespace :: string
  am_name :: string
  am_data :: "(string, string) gomap"
  am_owner :: "owner_reference option"

record kube_api =
  ka_get_config_map :: "string \<Rightarrow> string \<Rightarrow> (string, string) gomap option"
  ka_create_service_account :: "string \<Rightarrow> string \<Rightarrow> create_result"
  ka_get_service_account :: "string \<Rightarrow> string \<Rightarrow> (string, string) gomap option"
  ka_get_workload :: "string \<Rightarrow> string \<Rightarrow> string \<Rightarrow> (string \<times> string) option"
  ka_apply :: "applied_config_map \<Rightarrow> string option"

datatype effect = CreatedServiceAccount string string | AppliedConfigMap applied_config_map

section \<open>Precedence\<close>

record sidecar_decision =
  sd_inject :: bool
  sd_reason :: string
  sd_layer :: string

record injection_decision =
  dc_envoy_proxy :: sidecar_decision
  dc_proxy_init :: sidecar_decision
  dc_spiffe_helper :: sidecar_decision

definition evaluate_sidecar :: "string \<Rightarrow> bool \<Rightarrow> string \<Rightarrow> sidecar_decision" where
  "evaluate_sidecar name gate label =
     (if \<not> gate then \<lparr>sd_inject = False, sd_reason = name @ '' feature gate disabled'', sd_layer = ''feature-gate''\<rparr>
      else if label = ''false''
      then \<lparr>sd_inject = False, sd_reason = ''workload label disabled '' @ name, sd_layer = ''workload-label''\<rparr>
      else \<lparr>sd_inject = True, sd_reason = ''all gates passed'', sd_layer = ''default''\<rparr>)"

definition evaluate_spiffe_helper :: "string \<Rightarrow> sidecar_decision" where
  "evaluate_spiffe_helper label =
     (if label = ''false''
      then \<lparr>sd_inject = False, sd_reason = ''workload label disabled spiffe-helper'', sd_layer = ''workload-label''\<rparr>
      else \<lparr>sd_inject = True, sd_reason = ''all gates passed'', sd_layer = ''default''\<rparr>)"

definition evaluate :: "feature_gates \<Rightarrow> (string, string) gomap \<Rightarrow> injection_decision" where
  "evaluate gates labels =
     (let envoy = evaluate_sidecar ''envoy-proxy'' (fg_envoy_proxy gates)
                    (gm_get_or '''' labels ''kagenti.io/envoy-proxy-inject'')
      in \<lparr>dc_envoy_proxy = envoy,
          dc_proxy_init = \<lparr>sd_inject = sd_inject envoy, sd_reason = ''follows envoy-proxy decision'', sd_layer = sd_layer envoy\<rparr>,
          dc_spiffe_helper = evaluate_spiffe_helper (gm_get_or '''' labels ''kagenti.io/spiffe-helper-inject'')\<rparr>)"

definition any_injected :: "injection_decision \<Rightarrow> bool" where
  "any_injected d = (sd_inject (dc_envoy_proxy d) \<or> sd_inject (dc_spiffe_helper d))"

section \<open>Namespace configuration\<close>

record namespace_config =
  nc_keycloak_url :: string
  nc_keycloak_realm :: string
  nc_platform_client_ids :: string
  nc_token_url :: string
  nc_issuer :: string
  nc_expected_audience :: string
  nc_target_audience :: string
  nc_target_scopes :: string
  nc_default_outbound_policy :: string
  nc_client_auth_type :: string
  nc_spiffe_idp_alias :: string
  nc_jwt_audience :: string
  nc_authproxy_routes_yaml :: string
  nc_authbridge_runtime_yaml :: string

text \<open>A value of a ConfigMap; empty when the map cannot be read or lacks the key.\<close>
definition cm_value :: "kube_api \<Rightarrow> string \<Rightarrow> string \<Rightarrow> string \<Rightarrow> string" where
  "cm_value api ns name key =
     (case ka_get_config_map api ns name of None \<Rightarrow> '''' | Some data \<Rightarrow> gm_get_or '''' data key)"

definition read_namespace_config :: "kube_api \<Rightarrow> string \<Rightarrow> namespace_config" where
  "read_namespace_config api ns =
     (let v = cm_value api ns AuthBridgeConfigMapName in
      \<lparr>nc_keycloak_url = v ''KEYCLOAK_URL'', nc_keycloak_realm = v ''KEYCLOAK_REALM'',
       nc_platform_client_ids = v ''PLATFORM_CLIENT_IDS'', nc_token_url = v ''TOKEN_URL'', nc_issuer = v ''ISSUER'',
       nc_expected_audience = v ''EXPECTED_AUDIENCE'', nc_target_audience = v ''TARGET_AUDIENCE'',
       nc_target_scopes = v ''TARGET_SCOPES'', nc_default_outbound_policy = v ''DEFAULT_OUTBOUND_POLICY'',
       nc_client_auth_type = v ''CLIENT_AUTH_TYPE'', nc_spiffe_idp_alias = v ''SPIFFE_IDP_ALIAS'',
       nc_jwt_audience = v ''JWT_AUDIENCE'',
       nc_authproxy_routes_yaml = cm_value api ns AuthproxyRoutesConfigMapName ''routes.yaml'',
       nc_authbridge_runtime_yaml = cm_value api ns AuthBridgeRuntimeConfigMapName ''config.yaml''\<rparr>)"

text \<open>\<^verbatim>\<open>ExtractMode\<close> and its siblings, with the decoder of their field.\<close>
definition extract_field :: "(string \<Rightarrow> string option) \<Rightarrow> string \<Rightarrow> string" where
  "extract_field decode doc = (if doc = '''' then '''' else case decode doc of None \<Rightarrow> '''' | Some v \<Rightarrow> v)"

definition empty_namespace_config :: namespace_config where
  "empty_namespace_config = \<lparr>nc_keycloak_url = '''', nc_keycloak_realm = '''', nc_platform_client_ids = '''', nc_token_url = '''',
     nc_issuer = '''', nc_expected_audience = '''', nc_target_audience = '''', nc_target_scopes = '''',
     nc_default_outbound_policy = '''', nc_client_auth_type = '''', nc_spiffe_idp_alias = '''', nc_jwt_audience = '''',
     nc_authproxy_routes_yaml = '''', nc_authbridge_runtime_yaml = ''''\<rparr>"

definition resolve_config :: "yaml_api \<Rightarrow> platform_config option \<Rightarrow> namespace_config option \<Rightarrow> resolved_config" where
  "resolve_config y platform nso =
     (let pf = (case platform of Some c \<Rightarrow> c | None \<Rightarrow> CompiledDefaults);
          ns = (case nso of Some n \<Rightarrow> n | None \<Rightarrow> empty_namespace_config);
          doc = nc_authbridge_runtime_yaml ns;
          bridge = extract_field (y_tls_bridge y) doc
      in \<lparr>rc_platform = pf, rc_keycloak_url = nc_keycloak_url ns, rc_keycloak_realm = nc_keycloak_realm ns,
          rc_admin_credentials_secret_name = ''keycloak-admin-secret'',
          rc_spiffe_trust_domain = sp_trust_domain (pc_spiffe pf), rc_platform_client_ids = nc_platform_client_ids ns,
          rc_token_url = nc_token_url ns, rc_issuer = nc_issuer ns, rc_expected_audience = nc_expected_audience ns,
          rc_target_audience = nc_target_audience ns, rc_target_scopes = nc_target_scopes ns,
          rc_default_outbound_policy = nc_default_outbound_policy ns, rc_client_auth_type = nc_client_auth_type ns,
          rc_spiffe_idp_alias = nc_spiffe_idp_alias ns, rc_authproxy_routes_yaml = nc_authproxy_routes_yaml ns,
          rc_authbridge_runtime_yaml = doc, rc_auth_bridge_mode = extract_field (y_mode y) doc,
          rc_mtls_mode = extract_field (y_mtls y) doc,
          rc_tls_bridge_mode = (if bridge \<noteq> '''' then bridge else ''disabled'')\<rparr>)"

definition new_resolved_container_builder :: "resolved_config \<Rightarrow> container_builder" where
  "new_resolved_container_builder r = \<lparr>cb_cfg = rc_platform r, cb_resolved = Some r\<rparr>"

section \<open>The Envoy template\<close>

record envoy_template_data =
  et_admin_port :: int
  et_outbound_port :: int
  et_inbound_port :: int
  et_ext_proc_port :: int
  et_spire_enabled :: bool
  et_tls_port :: int
  et_mtls_enabled :: bool
  et_mtls_permissive :: bool
  et_mtls_strict :: bool

definition MTLSModeDisabled :: string where "MTLSModeDisabled = ''disabled''"
definition MTLSModePermissive :: string where "MTLSModePermissive = ''permissive''"
definition MTLSModeStrict :: string where "MTLSModeStrict = ''strict''"

text \<open>The data of \<^verbatim>\<open>RenderEnvoyConfig\<close>.\<close>
definition envoy_data :: "resolved_config \<Rightarrow> envoy_template_data" where
  "envoy_data r =
     (let mode = (if rc_mtls_mode r = '''' then MTLSModePermissive else rc_mtls_mode r); px = pc_proxy (rc_platform r) in
      \<lparr>et_admin_port = px_admin_port px, et_outbound_port = px_port px, et_inbound_port = px_inbound_proxy_port px,
       et_ext_proc_port = 9090, et_spire_enabled = False, et_tls_port = 0, et_mtls_enabled = (mode \<noteq> MTLSModeDisabled),
       et_mtls_permissive = (mode = MTLSModePermissive), et_mtls_strict = (mode = MTLSModeStrict)\<rparr>)"

section \<open>The per-agent configuration\<close>

definition opt_field :: "string \<Rightarrow> string \<Rightarrow> (string \<times> json) list" where
  "opt_field k v = (if v \<noteq> '''' then [(k, JStr v)] else [])"

definition synthesize_pipeline :: "namespace_config \<Rightarrow> json" where
  "synthesize_pipeline ns =
     (let kc = opt_field ''keycloak_url'' (nc_keycloak_url ns) @ opt_field ''keycloak_realm'' (nc_keycloak_realm ns);
          jwt_cfg = opt_field ''issuer'' (nc_issuer ns) @ kc;
          identity = (if nc_client_auth_type ns = '''' then []
            else [(''identity'', JObj
              (if nc_client_auth_type ns = ''federated-jwt''
               then (''type'', JStr ''spiffe'') # opt_field ''jwt_audience'' (nc_jwt_audience ns)
               else [(''type'', JStr (nc_client_auth_type ns))]))]);
          token_cfg = kc @ opt_field ''default_policy'' (nc_default_outbound_policy ns) @ identity;
          stage = (\<lambda>name cfg. JObj [(''plugins'', JArr [JObj [(''name'', JStr name), (''config'', JObj cfg)]])])
      in JObj [(''inbound'', stage ''jwt-validation'' jwt_cfg), (''outbound'', stage ''token-exchange'' token_cfg)])"

definition as_object :: "json option \<Rightarrow> (string, json) gomap" where
  "as_object j = (case j of Some (JObj m) \<Rightarrow> m | _ \<Rightarrow> [])"

text \<open>The part of \<^verbatim>\<open>ensurePerAgentConfigMap\<close> that changes the decoded map.\<close>
definition per_agent_config ::
  "platform_config \<Rightarrow> string \<Rightarrow> namespace_config option \<Rightarrow> (string, string) gomap \<Rightarrow> string \<Rightarrow> string \<Rightarrow> bool \<Rightarrow>
   (string, json) gomap \<Rightarrow> (string, json) gomap" where
  "per_agent_config platform mode nso overrides mtls bridge spire cfg0 =
     (let cfg1 = (case nso of
            Some ns \<Rightarrow> if gm_get_or JNull cfg0 ''pipeline'' = JNull
                       then gm_put ''pipeline'' (synthesize_pipeline ns) cfg0 else cfg0
          | None \<Rightarrow> cfg0);
          cfg2 = gm_put ''mode'' (JStr mode) cfg1;
          cfg3 = (if overrides = [] then cfg2
                  else gm_put ''listener'' (JObj (fold (\<lambda>(k, v). gm_put k (JStr v)) overrides
                         (as_object (gm_get cfg2 ''listener'')))) cfg2);
          cfg4 = (if mtls \<noteq> '''' \<and> mtls \<noteq> MTLSModeDisabled then gm_put ''mtls'' (JObj [(''mode'', JStr mtls)]) cfg3
                  else gm_del ''mtls'' cfg3);
          cfg5 = (if bridge = ''enabled''
                  then gm_put ''tls_bridge'' (JObj [(''mode'', JStr ''enabled''), (''ca_dir'', JStr TLSBridgeCAMountPath)]) cfg4
                  else gm_del ''tls_bridge'' cfg4)
      in if spire then gm_put ''spiffe'' (JObj [(''socket'', JStr (sp_socket_path (pc_spiffe platform)))]) cfg5
         else gm_del ''spiffe'' cfg5)"

definition build_owner_reference :: "kube_api \<Rightarrow> string \<Rightarrow> string \<Rightarrow> owner_reference option" where
  "build_owner_reference api ns cr =
     (case ka_get_workload api ''Deployment'' ns cr of
        Some (n, u) \<Rightarrow> Some \<lparr>ow_api_version = ''apps/v1'', ow_kind = ''Deployment'', ow_name = n, ow_uid = u\<rparr>
      | None \<Rightarrow>
          (case ka_get_workload api ''StatefulSet'' ns cr of
             Some (n, u) \<Rightarrow> Some \<lparr>ow_api_version = ''apps/v1'', ow_kind = ''StatefulSet'', ow_name = n, ow_uid = u\<rparr>
           | None \<Rightarrow>
               (case ka_get_workload api ''Sandbox'' ns cr of
                  Some (n, u) \<Rightarrow> Some \<lparr>ow_api_version = ''agents.x-k8s.io/v1alpha1'', ow_kind = ''Sandbox'', ow_name = n, ow_uid = u\<rparr>
                | None \<Rightarrow> None)))"

datatype inject_error =
    ServiceAccountFailed string
  | NoFreePort int
  | MarshalFailed
  | ApplyFailed string
  | RenderFailed
  | MutatorPanic

definition apply_config_map ::
  "kube_api \<Rightarrow> string \<Rightarrow> string \<Rightarrow> string \<Rightarrow> string \<Rightarrow> string \<Rightarrow> (inject_error + string) \<times> effect list" where
  "apply_config_map api ns cr name key text =
     (let cm = \<lparr>am_namespace = ns, am_name = name, am_data = [(key, text)], am_owner = build_owner_reference api ns cr\<rparr>
      in case ka_apply api cm of
           Some e \<Rightarrow> (Inl (ApplyFailed e), [])
         | None \<Rightarrow> (Inr name, [AppliedConfigMap cm]))"

text \<open>A null document decodes to a nil map, and writing to it panics.\<close>
definition ensure_per_agent_config_map ::
  "kube_api \<Rightarrow> yaml_api \<Rightarrow> platform_config \<Rightarrow> string \<Rightarrow> string \<Rightarrow> string \<Rightarrow> namespace_config \<Rightarrow> (string, string) gomap \<Rightarrow>
   string \<Rightarrow> string \<Rightarrow> bool \<Rightarrow> (inject_error + string) \<times> effect list" where
  "ensure_per_agent_config_map api y platform ns cr mode nsc overrides mtls bridge spire =
     (let doc = nc_authbridge_runtime_yaml nsc;
          base = (if doc = '''' then Some [] else case y_map y doc of None \<Rightarrow> Some [] | Some m \<Rightarrow> m)
      in case base of
           None \<Rightarrow> (Inl MutatorPanic, [])
         | Some cfg0 \<Rightarrow>
             (case y_marshal y (per_agent_config platform mode (Some nsc) overrides mtls bridge spire cfg0) of
                None \<Rightarrow> (Inl MarshalFailed, [])
              | Some text \<Rightarrow> apply_config_map api ns cr (''authbridge-config-'' @ cr) ''config.yaml'' text))"

definition ensure_per_agent_envoy_config_map ::
  "kube_api \<Rightarrow> (envoy_template_data \<Rightarrow> string option) \<Rightarrow> string \<Rightarrow> string \<Rightarrow> resolved_config \<Rightarrow>
   (inject_error + string) \<times> effect list" where
  "ensure_per_agent_envoy_config_map api render ns cr r =
     (case render (envoy_data r) of
        None \<Rightarrow> (Inl RenderFailed, [])
      | Some text \<Rightarrow> apply_config_map api ns cr (''envoy-config-'' @ cr) ''envoy.yaml'' text)"

section \<open>Service accounts\<close>

definition ensure_service_account :: "kube_api \<Rightarrow> string \<Rightarrow> string \<Rightarrow> string option \<times> effect list" where
  "ensure_service_account api ns name =
     (case ka_create_service_account api ns name of
        Created \<Rightarrow> (None, [CreatedServiceAccount ns name])
      | AlreadyExists \<Rightarrow>
          (case ka_get_service_account api ns name of
             None \<Rightarrow> (Some ''failed to fetch existing ServiceAccount'', [])
           | Some _ \<Rightarrow> (None, []))
      | CreateError e \<Rightarrow> (Some e, []))"

text \<open>The step that gives a SPIRE workload its own account.\<close>
definition use_service_account ::
  "kube_api \<Rightarrow> string \<Rightarrow> string \<Rightarrow> bool \<Rightarrow> pod_spec \<Rightarrow> (inject_error + pod_spec) \<times> effect list" where
  "use_service_account api ns cr spire p =
     (if spire \<and> (ps_service_account_name p = '''' \<or> ps_service_account_name p = ''default'')
      then (case ensure_service_account api ns cr of
              (Some e, es) \<Rightarrow> (Inl (ServiceAccountFailed e), es)
            | (None, es) \<Rightarrow> (Inr (p\<lparr>ps_service_account_name := cr\<rparr>), es))
      else (Inr p, []))"

section \<open>Resolution of the modes\<close>

definition resolve_mtls :: "string \<Rightarrow> string" where
  "resolve_mtls m =
     (let mode = (if m = '''' then MTLSModePermissive else m)
      in if mode \<in> {MTLSModeDisabled, MTLSModePermissive, MTLSModeStrict} then mode else MTLSModePermissive)"

text \<open>None is the panic on an empty list of allowed values.\<close>
definition resolve_egress :: "string list \<Rightarrow> string \<Rightarrow> string option" where
  "resolve_egress allowed e =
     (let e1 = (if e = '''' then EgressEnforcementEnforceRedirect else e);
          e2 = (if e1 \<in> {EgressEnforcementEnforceRedirect, EgressEnforcementNone} then e1 else EgressEnforcementEnforceRedirect)
      in if e2 \<in> set allowed then Some e2 else case allowed of [] \<Rightarrow> None | a # _ \<Rightarrow> Some a)"

definition resolve_tls_bridge :: "string \<Rightarrow> string" where
  "resolve_tls_bridge m =
     (let mode = (if m = '''' then ''disabled'' else m) in if mode \<in> {''disabled'', ''enabled''} then mode else ''disabled'')"

definition ModeEnvoySidecar :: string where "ModeEnvoySidecar = ''envoy-sidecar''"
definition ModeProxySidecar :: string where "ModeProxySidecar = ''proxy-sidecar''"
definition ModeLite :: string where "ModeLite = ''lite''"
definition ModeWaypoint :: string where "ModeWaypoint = ''waypoint''"

definition resolve_mode :: "string \<Rightarrow> string \<Rightarrow> string" where
  "resolve_mode m annotation =
     (let mode = (if m \<noteq> '''' then m else if annotation \<noteq> '''' then annotation else ModeProxySidecar)
      in if mode \<in> {ModeProxySidecar, ModeEnvoySidecar, ModeLite, ModeWaypoint} then mode else ModeProxySidecar)"

section \<open>Ports\<close>

definition wrap32 :: "int \<Rightarrow> int" where
  "wrap32 n = (n + 2 ^ 31) mod 2 ^ 32 - 2 ^ 31"

definition used_ports :: "container list \<Rightarrow> int list" where
  "used_ports cs = concat (map (\<lambda>c. map cp_container_port (co_ports c)) cs)"

text \<open>The index of the first application container with a port.\<close>
fun agent_index_from :: "nat \<Rightarrow> container list \<Rightarrow> nat option" where
  "agent_index_from i [] = None"
| "agent_index_from i (c # cs) =
     (if co_name c \<noteq> AuthBridgeProxyContainerName \<and> co_ports c \<noteq> [] then Some i else agent_index_from (Suc i) cs)"

function find_free_port :: "int list \<Rightarrow> int \<Rightarrow> int option" where
  "find_free_port used p =
     (if p \<in> set used \<and> p \<le> 65535 then find_free_port used (p + 1) else if p > 65535 then None else Some p)"
  by pat_completeness auto
termination by (relation "measure (\<lambda>(used, p). nat (65536 - p))") auto

text \<open>The original port of the agent, its new port and the forward proxy port.\<close>
definition assign_ports :: "container list \<Rightarrow> inject_error + (int \<times> int \<times> int)" where
  "assign_ports cs =
     (let p0 = (case agent_index_from 0 cs of Some i \<Rightarrow> cp_container_port (hd (co_ports (cs ! i))) | None \<Rightarrow> 0);
          original = (if p0 = 0 then 8000 else p0);
          used = original # used_ports cs
      in case find_free_port used (wrap32 (original + 1)) of
           None \<Rightarrow> Inl (NoFreePort (wrap32 (original + 1)))
         | Some new_port \<Rightarrow>
             (case find_free_port (new_port # used) 8081 of
                None \<Rightarrow> Inl (NoFreePort 8081)
              | Some forward_port \<Rightarrow> Inr (original, new_port, forward_port)))"

definition relocate :: "int \<Rightarrow> container \<Rightarrow> container" where
  "relocate port c = set_or_add_env ''PORT'' (fmt_int port)
     (c\<lparr>co_ports := (hd (co_ports c))\<lparr>cp_container_port := port\<rparr> # tl (co_ports c)\<rparr>)"

definition relocate_agent :: "int \<Rightarrow> container list \<Rightarrow> container list" where
  "relocate_agent port cs = (case agent_index_from 0 cs of Some i \<Rightarrow> cs[i := relocate port (cs ! i)] | None \<Rightarrow> cs)"

text \<open>Set a variable of the first container with a name.\<close>
fun set_env_first :: "string \<Rightarrow> string \<Rightarrow> string \<Rightarrow> container list \<Rightarrow> container list" where
  "set_env_first cname k v [] = []"
| "set_env_first cname k v (c # cs) =
     (if co_name c = cname then set_or_add_env k v c # cs else c # set_env_first cname k v cs)"

definition add_container :: "container \<Rightarrow> container list \<Rightarrow> container list" where
  "add_container c cs = (if container_exists cs (co_name c) then cs else cs @ [c])"

section \<open>The mutator\<close>

datatype inject_result = Mutated bool | InjectFailed inject_error

text \<open>The checks before the precedence chain.\<close>
definition skip_injection :: "feature_gates \<Rightarrow> (string, string) gomap \<Rightarrow> bool" where
  "skip_injection gates labels =
     (let t = gm_get labels ''kagenti.io/type'' in
      (t \<noteq> Some ''agent'' \<and> t \<noteq> Some ''tool'') \<or> \<not> fg_global_enabled gates \<or>
      (t = Some ''tool'' \<and> \<not> fg_inject_tools gates) \<or>
      gm_get_or '''' labels ''kagenti.io/inject'' = ''disabled'')"

definition listener_overrides :: "int \<Rightarrow> int \<Rightarrow> int \<Rightarrow> (string, string) gomap" where
  "listener_overrides original new_port forward_port =
     [(''reverse_proxy_addr'', '':'' @ fmt_int original), (''reverse_proxy_backend'', ''http://127.0.0.1:'' @ fmt_int new_port),
      (''forward_proxy_addr'', '':'' @ fmt_int forward_port)]"

text \<open>The containers of a pod in the proxy-sidecar shapes.\<close>
definition proxy_sidecar_containers ::
  "container_builder \<Rightarrow> bool \<Rightarrow> string \<Rightarrow> string \<Rightarrow> int \<Rightarrow> int \<Rightarrow> int \<Rightarrow> container list \<Rightarrow> container list" where
  "proxy_sidecar_containers b spire img mtls original new_port forward_port cs =
     map (\<lambda>c. if co_name c = AuthBridgeProxyContainerName then c else inject_http_proxy_env forward_port c)
       (set_env_first AuthBridgeProxyContainerName ''MTLS_MODE'' mtls
         (add_container (build_proxy_sidecar_container_with_ports b spire img original new_port forward_port)
           (relocate_agent new_port cs)))"

text \<open>The steps after the containers are built: volumes, client credentials, the
  certificate authority of the bridge, and the group of shared files.\<close>
definition finish_pod :: "(string, string) gomap \<Rightarrow> string \<Rightarrow> bool \<Rightarrow> bool \<Rightarrow> volume list \<Rightarrow> pod_spec \<Rightarrow> pod_spec" where
  "finish_pod annotations cr bridge spire vs p =
     (let p1 = apply_keycloak_client_credentials_secret_volumes annotations (add_volumes vs p);
          p2 = (if bridge then apply_tls_bridge_mounts cr p1 else p1)
      in if spire then ensure_fs_group p2 else p2)"

definition inject_proxy_sidecar ::
  "kube_api \<Rightarrow> yaml_api \<Rightarrow> platform_config \<Rightarrow> container_builder \<Rightarrow> string \<Rightarrow> string \<Rightarrow> (string, string) gomap \<Rightarrow> namespace_config \<Rightarrow>
   string \<Rightarrow> string \<Rightarrow> string \<Rightarrow> string \<Rightarrow> bool \<Rightarrow> volume list \<Rightarrow> pod_spec \<Rightarrow> inject_result \<times> pod_spec \<times> effect list" where
  "inject_proxy_sidecar api y platform b ns cr annotations nsc mode mtls bridge egress spire volumes p =
     (let img = (if mode = ModeLite then im_auth_bridge_lite (pc_images (cb_cfg b)) else im_auth_bridge (pc_images (cb_cfg b)))
      in case assign_ports (ps_containers p) of
           Inl e \<Rightarrow> (InjectFailed e, p, [])
         | Inr (original, new_port, forward_port) \<Rightarrow>
             (case ensure_per_agent_config_map api y platform ns cr ModeProxySidecar nsc
                     (listener_overrides original new_port forward_port) mtls bridge spire of
                (Inl e, es) \<Rightarrow> (InjectFailed e, p\<lparr>ps_containers := relocate_agent new_port (ps_containers p)\<rparr>, es)
              | (Inr cm, es) \<Rightarrow>
                  (Mutated True,
                   finish_pod annotations cr (bridge = ''enabled'') spire (override_auth_bridge_config_map_in_volumes volumes cm)
                     (p\<lparr>ps_containers := proxy_sidecar_containers b spire img mtls original new_port forward_port (ps_containers p),
                        ps_init_containers := (if egress = EgressEnforcementEnforceRedirect
                          then add_container (build_proxy_init_container b ProxyInitModeEnforceRedirect '''' '''') (ps_init_containers p)
                          else ps_init_containers p)\<rparr>),
                   es)))"

definition inject_envoy_sidecar ::
  "kube_api \<Rightarrow> yaml_api \<Rightarrow> (envoy_template_data \<Rightarrow> string option) \<Rightarrow> platform_config \<Rightarrow> container_builder \<Rightarrow> string \<Rightarrow> string \<Rightarrow>
   (string, string) gomap \<Rightarrow> namespace_config \<Rightarrow> injection_decision \<Rightarrow> string \<Rightarrow> bool \<Rightarrow> volume list \<Rightarrow> pod_spec \<Rightarrow>
   inject_result \<times> pod_spec \<times> effect list" where
  "inject_envoy_sidecar api y render platform b ns cr annotations nsc decision mtls spire volumes p =
     (case ensure_per_agent_config_map api y platform ns cr ModeEnvoySidecar nsc [] mtls '''' spire of
        (Inl e, es) \<Rightarrow> (InjectFailed e, p, es)
      | (Inr cm, es) \<Rightarrow>
          (case ensure_per_agent_envoy_config_map api render ns cr
                  ((resolve_config y (Some platform) (Some nsc))\<lparr>rc_mtls_mode := mtls\<rparr>) of
             (Inl e, es1) \<Rightarrow> (InjectFailed e, p, es @ es1)
           | (Inr ecm, es1) \<Rightarrow>
               (let vs = override_envoy_config_map_in_volumes (override_auth_bridge_config_map_in_volumes volumes cm) ecm;
                    cs1 = (if sd_inject (dc_envoy_proxy decision)
                           then add_container (build_envoy_proxy_container_with_spire_option b spire) (ps_containers p)
                           else ps_containers p);
                    p1 = p\<lparr>ps_containers := set_env_first EnvoyProxyContainerName ''MTLS_MODE'' mtls cs1\<rparr>;
                    p2 = (if sd_inject (dc_proxy_init decision)
                          then p1\<lparr>ps_init_containers := add_container (build_proxy_init_container b ProxyInitModeRedirect
                                 (gm_get_or '''' annotations ''kagenti.io/outbound-ports-exclude'')
                                 (gm_get_or '''' annotations ''kagenti.io/inbound-ports-exclude'')) (ps_init_containers p1)\<rparr>
                          else p1)
                in (Mutated True, finish_pod annotations cr False spire vs p2, es @ es1))))"

text \<open>\<^verbatim>\<open>InjectAuthBridge\<close> after the service account steps.\<close>
definition inject_resolved ::
  "kube_api \<Rightarrow> yaml_api \<Rightarrow> (envoy_template_data \<Rightarrow> string option) \<Rightarrow> platform_config \<Rightarrow> feature_gates \<Rightarrow> string \<Rightarrow> string \<Rightarrow>
   (string, string) gomap \<Rightarrow> namespace_config \<Rightarrow> injection_decision \<Rightarrow> string \<Rightarrow> bool \<Rightarrow> pod_spec \<Rightarrow>
   inject_result \<times> pod_spec \<times> effect list" where
  "inject_resolved api y render platform gates ns cr annotations nsc decision mtls spire p =
     (let doc = nc_authbridge_runtime_yaml nsc in
      case resolve_egress (px_allowed_egress_enforcement (pc_proxy platform)) (extract_field (y_egress y) doc) of
        None \<Rightarrow> (InjectFailed MutatorPanic, p, [])
      | Some egress \<Rightarrow>
          (let bridge = resolve_tls_bridge (extract_field (y_tls_bridge y) doc);
               (b, volumes) = (if fg_per_workload_config_resolution gates
                 then (new_resolved_container_builder (resolve_config y (Some platform) (Some nsc)), build_resolved_volumes spire '''')
                 else (new_container_builder (Some platform),
                       if spire then build_required_volumes else build_required_volumes_no_spire));
               mode = resolve_mode (extract_field (y_mode y) doc) (gm_get_or '''' annotations ''kagenti.io/authbridge-mode'')
           in if mode = ModeWaypoint then (Mutated False, p, [])
              else if mode = ModeProxySidecar \<or> mode = ModeLite
              then inject_proxy_sidecar api y platform b ns cr annotations nsc mode mtls bridge egress spire volumes p
              else inject_envoy_sidecar api y render platform b ns cr annotations nsc decision mtls spire volumes p))"

definition inject_auth_bridge ::
  "kube_api \<Rightarrow> yaml_api \<Rightarrow> (envoy_template_data \<Rightarrow> string option) \<Rightarrow> platform_config \<Rightarrow> feature_gates \<Rightarrow> string \<Rightarrow> string \<Rightarrow>
   (string, string) gomap \<Rightarrow> (string, string) gomap \<Rightarrow> pod_spec \<Rightarrow> inject_result \<times> pod_spec \<times> effect list" where
  "inject_auth_bridge api y render platform gates ns cr labels annotations p =
     (if skip_injection gates labels then (Mutated False, p, [])
      else let decision = evaluate gates labels; spire = sd_inject (dc_spiffe_helper decision) in
        if \<not> any_injected decision then (Mutated False, p, [])
        else case use_service_account api ns cr spire p of
            (Inl e, es) \<Rightarrow> (InjectFailed e, p, es)
          | (Inr p1, es1) \<Rightarrow>
              (let nsc = read_namespace_config api ns;
                   mtls = resolve_mtls (extract_field (y_mtls y) (nc_authbridge_runtime_yaml nsc));
                   auto_spire = (mtls \<noteq> MTLSModeDisabled \<and> \<not> spire)
               in case use_service_account api ns cr auto_spire p1 of
                    (Inl e, es2) \<Rightarrow> (InjectFailed e, p1, es1 @ es2)
                  | (Inr p2, es2) \<Rightarrow>
                      (case inject_resolved api y render platform gates ns cr annotations nsc decision mtls (spire \<or> auto_spire) p2 of
                         (r, p3, es3) \<Rightarrow> (r, p3, es1 @ es2 @ es3))))"

section \<open>Specification and sample inputs\<close>

text \<open>The original port is the first one of the agent, unless that is absent or zero.\<close>
definition agent_port :: "container list \<Rightarrow> int" where
  "agent_port cs =
     (let p = (case agent_index_from 0 cs of Some i \<Rightarrow> cp_container_port (hd (co_ports (cs ! i))) | None \<Rightarrow> 0)
      in if p = 0 then 8000 else p)"

text \<open>An API server with one runtime document, a YAML decoder that reads it, and a pod with an agent.\<close>
definition sample_yaml :: yaml_api where
  "sample_yaml = \<lparr>y_mode = (\<lambda>_. None), y_egress = (\<lambda>_. None), y_mtls = (\<lambda>_. None), y_tls_bridge = (\<lambda>_. Some ''enabled''),
     y_map = (\<lambda>_. Some (Some [])), y_marshal = (\<lambda>_. Some ''text'')\<rparr>"

definition sample_api :: kube_api where
  "sample_api = \<lparr>ka_get_config_map = (\<lambda>_ n. if n = AuthBridgeRuntimeConfigMapName then Some [(''config.yaml'', ''bridge'')] else None),
     ka_create_service_account = (\<lambda>_ _. Created), ka_get_service_account = (\<lambda>_ _. None),
     ka_get_workload = (\<lambda>_ _ _. None), ka_apply = (\<lambda>_. None)\<rparr>"

definition sample_container :: "string \<Rightarrow> int list \<Rightarrow> container" where
  "sample_container n ps = \<lparr>co_name = n, co_image = n, co_image_pull_policy = '''', co_args = [], co_resources = cpu_memory '''' '''' '''' '''',
     co_ports = map (tcp_port ''http'') ps, co_env = [], co_security_context = None, co_volume_mounts = []\<rparr>"

definition sample_pod_spec :: pod_spec where
  "sample_pod_spec = \<lparr>ps_service_account_name = '''', ps_containers = [sample_container ''agent'' [8080], sample_container ''aux'' [8081, 9000]],
     ps_init_containers = [], ps_volumes = [], ps_security_context = None\<rparr>"

definition sample_injection :: "inject_result \<times> pod_spec \<times> effect list" where
  "sample_injection = inject_proxy_sidecar sample_api sample_yaml CompiledDefaults (new_container_builder (Some CompiledDefaults))
     ''team'' ''agent'' [] (read_namespace_config sample_api ''team'') ModeProxySidecar MTLSModePermissive ''enabled''
     EgressEnforcementNone True build_required_volumes sample_pod_spec"

section \<open>Lemmas\<close>

subsection \<open>Ports\<close>

declare find_free_port.simps [simp del]

lemma find_free_port_Some:
  "find_free_port used p = Some q \<Longrightarrow> p \<le> q \<and> q \<le> 65535 \<and> q \<notin> set used \<and> (\<forall>r. p \<le> r \<and> r < q \<longrightarrow> r \<in> set used)"
proof (induction used p rule: find_free_port.induct)
  case (1 used p)
  show ?case
  proof (cases "p \<in> set used \<and> p \<le> 65535")
    case True
    then have "p + 1 \<le> q \<and> q \<le> 65535 \<and> q \<notin> set used \<and> (\<forall>r. p + 1 \<le> r \<and> r < q \<longrightarrow> r \<in> set used)"
      using 1 by (simp add: find_free_port.simps[of used p])
    then show ?thesis using True by (metis add1_zle_eq less_le order.order_iff_strict zle_add1_eq_le)
  next
    case False
    then show ?thesis using 1(2) by (auto simp: find_free_port.simps[of used p] split: if_splits)
  qed
qed

lemma find_free_port_None:
  "find_free_port used p = None \<Longrightarrow> p \<le> r \<Longrightarrow> r \<le> 65535 \<Longrightarrow> r \<in> set used"
proof (induction used p rule: find_free_port.induct)
  case (1 used p)
  then show ?case
    by (cases "p \<in> set used \<and> p \<le> 65535"; cases "r = p") (auto simp: find_free_port.simps[of used p] split: if_splits)
qed

lemma agent_index_from_Some:
  "agent_index_from k cs = Some i \<Longrightarrow> \<exists>j. i = k + j \<and> j < length cs \<and>
     co_name (cs ! j) \<noteq> AuthBridgeProxyContainerName \<and> co_ports (cs ! j) \<noteq> []"
proof (induction k cs rule: agent_index_from.induct)
  case (2 k c cs)
  show ?case
  proof (cases "co_name c \<noteq> AuthBridgeProxyContainerName \<and> co_ports c \<noteq> []")
    case True
    then show ?thesis using 2(2) by (intro exI[of _ 0]) auto
  next
    case False
    then obtain j where "i = Suc k + j" "j < length cs" "co_name (cs ! j) \<noteq> AuthBridgeProxyContainerName" "co_ports (cs ! j) \<noteq> []"
      using 2 by auto
    then show ?thesis by (intro exI[of _ "Suc j"]) auto
  qed
qed simp

lemma agent_index_Some:
  assumes "agent_index_from 0 cs = Some i"
  shows "i < length cs" "co_name (cs ! i) \<noteq> AuthBridgeProxyContainerName" "co_ports (cs ! i) \<noteq> []"
  using agent_index_from_Some[OF assms] by auto

lemma used_ports_simps [simp]:
  "used_ports [] = []" "used_ports (c # cs) = map cp_container_port (co_ports c) @ used_ports cs"
  "used_ports (cs @ ds) = used_ports cs @ used_ports ds"
  by (simp_all add: used_ports_def)

lemma assign_ports_Inr:
  assumes "assign_ports cs = Inr (original, new_port, forward_port)"
  shows "original = agent_port cs"
    and "wrap32 (original + 1) \<le> new_port" "new_port \<le> 65535" "new_port \<noteq> original" "new_port \<notin> set (used_ports cs)"
    and "\<And>r. wrap32 (original + 1) \<le> r \<Longrightarrow> r < new_port \<Longrightarrow> r = original \<or> r \<in> set (used_ports cs)"
    and "8081 \<le> forward_port" "forward_port \<le> 65535" "forward_port \<noteq> original" "forward_port \<noteq> new_port"
    and "forward_port \<notin> set (used_ports cs)"
    and "\<And>r. 8081 \<le> r \<Longrightarrow> r < forward_port \<Longrightarrow> r = original \<or> r = new_port \<or> r \<in> set (used_ports cs)"
proof -
  have a: "original = agent_port cs"
    "find_free_port (original # used_ports cs) (wrap32 (original + 1)) = Some new_port"
    "find_free_port (new_port # original # used_ports cs) 8081 = Some forward_port"
    using assms by (auto simp: assign_ports_def agent_port_def Let_def split: option.splits)
  show "original = agent_port cs" by (rule a)
  show "wrap32 (original + 1) \<le> new_port" "new_port \<le> 65535" "new_port \<noteq> original" "new_port \<notin> set (used_ports cs)"
    "\<And>r. wrap32 (original + 1) \<le> r \<Longrightarrow> r < new_port \<Longrightarrow> r = original \<or> r \<in> set (used_ports cs)"
    using find_free_port_Some[OF a(2)] by auto
  show "8081 \<le> forward_port" "forward_port \<le> 65535" "forward_port \<noteq> original" "forward_port \<noteq> new_port"
    "forward_port \<notin> set (used_ports cs)"
    "\<And>r. 8081 \<le> r \<Longrightarrow> r < forward_port \<Longrightarrow> r = original \<or> r = new_port \<or> r \<in> set (used_ports cs)"
    using find_free_port_Some[OF a(3)] by auto
qed

lemma wrap32_id: "- (2 ^ 31) \<le> n \<Longrightarrow> n < 2 ^ 31 \<Longrightarrow> wrap32 n = n"
  by (simp add: wrap32_def)

lemma find_free_port_exists:
  assumes "int (length used) < 65536 - p"
  shows "\<exists>q. find_free_port used p = Some q"
proof (rule ccontr)
  assume "\<not> ?thesis"
  then have "{p..65535} \<subseteq> set used" using find_free_port_None[of used p] by auto
  then have "card {p..65535} \<le> length used" by (meson List.finite_set card_length card_mono le_trans)
  then show False using assms by simp
qed

lemma assign_ports_exists:
  assumes "0 < agent_port cs" "int (length (used_ports cs)) < 65534 - max 8081 (agent_port cs)"
  shows "\<exists>n f. assign_ports cs = Inr (agent_port cs, n, f)"
proof -
  have w: "wrap32 (agent_port cs + 1) = agent_port cs + 1" using assms by (intro wrap32_id) auto
  obtain n where n: "find_free_port (agent_port cs # used_ports cs) (agent_port cs + 1) = Some n"
    using find_free_port_exists[of "agent_port cs # used_ports cs" "agent_port cs + 1"] assms by fastforce
  obtain f where "find_free_port (n # agent_port cs # used_ports cs) 8081 = Some f"
    using find_free_port_exists[of "n # agent_port cs # used_ports cs" 8081] assms by fastforce
  then show ?thesis using n w by (simp add: assign_ports_def agent_port_def Let_def)
qed

lemma set_or_add_env_simps [simp]:
  "co_ports (set_or_add_env k v c) = co_ports c" "co_name (set_or_add_env k v c) = co_name c"
  "co_volume_mounts (set_or_add_env k v c) = co_volume_mounts c"
  by (simp_all add: set_or_add_env_def)

lemma add_env_if_missing_simps [simp]:
  "co_ports (add_env_if_missing e c) = co_ports c" "co_name (add_env_if_missing e c) = co_name c"
  "co_volume_mounts (add_env_if_missing e c) = co_volume_mounts c"
  by (simp_all add: add_env_if_missing_def)

lemma inject_http_proxy_env_simps [simp]:
  "co_ports (inject_http_proxy_env p c) = co_ports c" "co_name (inject_http_proxy_env p c) = co_name c"
  "co_volume_mounts (inject_http_proxy_env p c) = co_volume_mounts c"
  by (simp_all add: inject_http_proxy_env_def Let_def)

lemma relocate_simps [simp]:
  "co_name (relocate p c) = co_name c" "co_volume_mounts (relocate p c) = co_volume_mounts c"
  "co_ports (relocate p c) = (hd (co_ports c))\<lparr>cp_container_port := p\<rparr> # tl (co_ports c)"
  by (simp_all add: relocate_def)

lemma set_env_first_map [simp]:
  "map co_ports (set_env_first n k v cs) = map co_ports cs"
  "map co_name (set_env_first n k v cs) = map co_name cs"
  "map co_volume_mounts (set_env_first n k v cs) = map co_volume_mounts cs"
  by (induction n k v cs rule: set_env_first.induct) auto

lemma used_ports_map: "used_ports cs = concat (map (map cp_container_port) (map co_ports cs))"
  by (simp add: used_ports_def comp_def)

lemma relocate_agent_names [simp]: "map co_name (relocate_agent p cs) = map co_name cs"
proof (cases "agent_index_from 0 cs")
  case (Some i)
  then show ?thesis by (simp add: relocate_agent_def map_update) (metis list_update_id nth_map agent_index_Some(1))
qed (simp add: relocate_agent_def)

lemma relocate_agent_mounts [simp]: "map co_volume_mounts (relocate_agent p cs) = map co_volume_mounts cs"
proof (cases "agent_index_from 0 cs")
  case (Some i)
  then show ?thesis by (simp add: relocate_agent_def map_update) (metis list_update_id nth_map agent_index_Some(1))
qed (simp add: relocate_agent_def)

text \<open>Relocation replaces the first occurrence of the port in the agent.\<close>
lemma relocate_agent_ports:
  assumes "agent_index_from 0 cs = Some i"
  shows "\<exists>us vs q. used_ports cs = us @ q # vs \<and> used_ports (relocate_agent p cs) = us @ p # vs \<and>
    q = cp_container_port (hd (co_ports (cs ! i)))"
proof -
  note i = agent_index_Some[OF assms]
  let ?us = "used_ports (take i cs)" and ?vs = "map cp_container_port (tl (co_ports (cs ! i))) @ used_ports (drop (Suc i) cs)"
  have "cs = take i cs @ cs ! i # drop (Suc i) cs" using i(1) by (rule id_take_nth_drop)
  then have "used_ports cs = used_ports (take i cs @ cs ! i # drop (Suc i) cs)" by simp
  then have "used_ports cs = ?us @ cp_container_port (hd (co_ports (cs ! i))) # ?vs"
    using i(3) by (cases "co_ports (cs ! i)") auto
  moreover have "used_ports (relocate_agent p cs) = ?us @ p # ?vs"
    using i(1) assms by (simp add: relocate_agent_def upd_conv_take_nth_drop)
  ultimately show ?thesis by blast
qed

lemma proxy_container_simps [simp]:
  "co_name (build_proxy_sidecar_container_with_ports b spire img o_port n_port f_port) = AuthBridgeProxyContainerName"
  "co_ports (build_proxy_sidecar_container_with_ports b spire img o_port n_port f_port) =
     [tcp_port ''reverse-proxy'' o_port, tcp_port ''forward-proxy'' f_port]"
  "co_volume_mounts (build_proxy_sidecar_container_with_ports b spire img o_port n_port f_port) =
     [mount ''shared-data'' ''/shared'' False, mount ''authbridge-runtime-config'' ''/etc/authbridge'' True,
      mount AuthproxyRoutesConfigMapName ''/etc/authproxy'' True] @ (if spire then spire_mounts (cb_cfg b) else [])"
  by (simp_all add: build_proxy_sidecar_container_with_ports_def Let_def)

lemma proxy_env_map [simp]:
  "map co_ports (map (\<lambda>c. if P c then c else inject_http_proxy_env f c) cs) = map co_ports cs"
  "map co_name (map (\<lambda>c. if P c then c else inject_http_proxy_env f c) cs) = map co_name cs"
  "map co_volume_mounts (map (\<lambda>c. if P c then c else inject_http_proxy_env f c) cs) = map co_volume_mounts cs"
  by simp_all

lemma container_exists_names: "container_exists cs n \<longleftrightarrow> n \<in> set (map co_name cs)"
  by (auto simp: container_exists_def)

text \<open>What the proxy-sidecar shape makes of the containers, seen through names, ports
  and mounts.\<close>
lemma proxy_sidecar_containers_map:
  fixes b img mtls o_port n_port f_port cs spire
  assumes "\<not> container_exists cs AuthBridgeProxyContainerName"
  defines "cs' \<equiv> proxy_sidecar_containers b spire img mtls o_port n_port f_port cs"
    and "c \<equiv> build_proxy_sidecar_container_with_ports b spire img o_port n_port f_port"
  shows "map co_name cs' = map co_name cs @ [AuthBridgeProxyContainerName]"
    and "map co_ports cs' = map co_ports (relocate_agent n_port cs) @ [co_ports c]"
    and "map co_volume_mounts cs' = map co_volume_mounts cs @ [co_volume_mounts c]"
proof -
  have "\<not> container_exists (relocate_agent n_port cs) AuthBridgeProxyContainerName"
    using assms(1) by (simp only: container_exists_names relocate_agent_names not_False_eq_True)
  then have a: "add_container c (relocate_agent n_port cs) = relocate_agent n_port cs @ [c]"
    by (simp add: add_container_def c_def)
  show "map co_name cs' = map co_name cs @ [AuthBridgeProxyContainerName]"
    unfolding cs'_def proxy_sidecar_containers_def c_def[symmetric] proxy_env_map set_env_first_map a
    by (simp add: c_def del: map_map)
  show "map co_ports cs' = map co_ports (relocate_agent n_port cs) @ [co_ports c]"
    unfolding cs'_def proxy_sidecar_containers_def c_def[symmetric] proxy_env_map set_env_first_map a by simp
  show "map co_volume_mounts cs' = map co_volume_mounts cs @ [co_volume_mounts c]"
    unfolding cs'_def proxy_sidecar_containers_def c_def[symmetric] proxy_env_map set_env_first_map a by simp
qed

lemma proxy_sidecar_ports:
  assumes "\<not> container_exists cs AuthBridgeProxyContainerName"
  shows "used_ports (proxy_sidecar_containers b spire img mtls o_port n_port f_port cs) =
    used_ports (relocate_agent n_port cs) @ [o_port, f_port]"
  using proxy_sidecar_containers_map(2)[OF assms] by (simp add: used_ports_map tcp_port_def del: map_map)

subsection \<open>What the later steps leave alone\<close>

lemma add_volume_simps [simp]:
  "ps_containers (add_volume v p) = ps_containers p" "ps_init_containers (add_volume v p) = ps_init_containers p"
  "ps_security_context (add_volume v p) = ps_security_context p"
  "ps_service_account_name (add_volume v p) = ps_service_account_name p"
  by (simp_all add: add_volume_def)

lemma add_volumes_simps [simp]:
  "ps_containers (add_volumes vs p) = ps_containers p" "ps_init_containers (add_volumes vs p) = ps_init_containers p"
  "ps_security_context (add_volumes vs p) = ps_security_context p"
  "ps_service_account_name (add_volumes vs p) = ps_service_account_name p"
  unfolding add_volumes_def by (induction vs arbitrary: p) auto

lemma volume_exists_add: "volume_exists (ps_volumes (add_volume v p)) n \<longleftrightarrow> vo_name v = n \<or> volume_exists (ps_volumes p) n"
  by (auto simp: add_volume_def volume_exists_def)

lemma volume_exists_adds: "volume_exists (ps_volumes (add_volumes vs p)) n \<longleftrightarrow> n \<in> vo_name ` set vs \<or> volume_exists (ps_volumes p) n"
  unfolding add_volumes_def by (induction vs arbitrary: p) (auto simp: volume_exists_add)

lemma ensure_fs_group_simps [simp]:
  "ps_containers (ensure_fs_group p) = ps_containers p" "ps_init_containers (ensure_fs_group p) = ps_init_containers p"
  "ps_volumes (ensure_fs_group p) = ps_volumes p" "ps_service_account_name (ensure_fs_group p) = ps_service_account_name p"
  by (auto simp: ensure_fs_group_def split: option.splits)

lemma append_sub_path_mount_simps [simp]:
  "co_ports (append_sub_path_mount v s p c) = co_ports c" "co_name (append_sub_path_mount v s p c) = co_name c"
  "co_env (append_sub_path_mount v s p c) = co_env c"
  by (simp_all add: append_sub_path_mount_def)

lemma credentials_container_simps [simp]:
  "co_ports (credentials_container v c) = co_ports c" "co_name (credentials_container v c) = co_name c"
  by (simp_all add: credentials_container_def)

lemma add_volume_mount_if_missing_simps [simp]:
  "co_ports (add_volume_mount_if_missing m c) = co_ports c" "co_name (add_volume_mount_if_missing m c) = co_name c"
  by (simp_all add: add_volume_mount_if_missing_def)

lemma fold_set_env_simps [simp]:
  "co_ports (fold (\<lambda>e. set_or_add_env e v) es c) = co_ports c" "co_name (fold (\<lambda>e. set_or_add_env e v) es c) = co_name c"
  "co_volume_mounts (fold (\<lambda>e. set_or_add_env e v) es c) = co_volume_mounts c"
  by (induction es arbitrary: c) auto

lemma tls_bridge_container_simps [simp]:
  "co_ports (tls_bridge_container c) = co_ports c" "co_name (tls_bridge_container c) = co_name c"
  by (simp_all add: tls_bridge_container_def)

lemma apply_tls_bridge_mounts_simps [simp]:
  "ps_containers (apply_tls_bridge_mounts w p) = map tls_bridge_container (ps_containers p)"
  "ps_init_containers (apply_tls_bridge_mounts w p) = ps_init_containers p"
  by (simp_all add: apply_tls_bridge_mounts_def Let_def)

lemma apply_credentials_simps [simp]:
  "map co_ports (ps_containers (apply_keycloak_client_credentials_secret_volumes an p)) = map co_ports (ps_containers p)"
  "map co_name (ps_containers (apply_keycloak_client_credentials_secret_volumes an p)) = map co_name (ps_containers p)"
  "ps_init_containers (apply_keycloak_client_credentials_secret_volumes an p) = ps_init_containers p"
  by (simp_all add: apply_keycloak_client_credentials_secret_volumes_def Let_def)

lemma finish_pod_simps [simp]:
  "map co_ports (ps_containers (finish_pod an cr br sp vs p)) = map co_ports (ps_containers p)"
  "map co_name (ps_containers (finish_pod an cr br sp vs p)) = map co_name (ps_containers p)"
  "ps_init_containers (finish_pod an cr br sp vs p) = ps_init_containers p"
proof -
  have m: "map f (map g xs) = map f xs" if "\<And>x. f (g x) = f x" for f :: "container \<Rightarrow> 'a" and g xs
    using that by simp
  show "map co_ports (ps_containers (finish_pod an cr br sp vs p)) = map co_ports (ps_containers p)"
    "map co_name (ps_containers (finish_pod an cr br sp vs p)) = map co_name (ps_containers p)"
    "ps_init_containers (finish_pod an cr br sp vs p) = ps_init_containers p"
    by (simp_all add: finish_pod_def Let_def m del: map_map)
qed

lemma inject_proxy_sidecar_Mutated:
  assumes "inject_proxy_sidecar api y platform b ns cr annotations nsc mode mtls bridge egress spire volumes p = (Mutated m, p', es)"
  shows "m \<and> (\<exists>img o_port n_port f_port cm inits. assign_ports (ps_containers p) = Inr (o_port, n_port, f_port) \<and>
    ensure_per_agent_config_map api y platform ns cr ModeProxySidecar nsc (listener_overrides o_port n_port f_port)
      mtls bridge spire = (Inr cm, es) \<and>
    p' = finish_pod annotations cr (bridge = ''enabled'') spire (override_auth_bridge_config_map_in_volumes volumes cm)
      (p\<lparr>ps_containers := proxy_sidecar_containers b spire img mtls o_port n_port f_port (ps_containers p),
         ps_init_containers := inits\<rparr>))"
  using assms by (auto simp: inject_proxy_sidecar_def Let_def split: sum.splits prod.splits)

lemma use_service_account_Inr:
  assumes "use_service_account api ns cr spire p = (Inr p1, es)"
  shows "ps_containers p1 = ps_containers p \<and> ps_volumes p1 = ps_volumes p"
  using assms by (auto simp: use_service_account_def split: if_splits prod.splits option.splits)

lemma inject_envoy_sidecar_Mutated:
  assumes "inject_envoy_sidecar api y render platform b ns cr annotations nsc decision mtls spire volumes p = (Mutated m, p', es)"
  shows "m \<and> (\<exists>vs p0. p' = finish_pod annotations cr False spire vs p0 \<and> ps_volumes p0 = ps_volumes p \<and>
    ps_containers p0 = set_env_first EnvoyProxyContainerName ''MTLS_MODE'' mtls
      (if sd_inject (dc_envoy_proxy decision)
       then add_container (build_envoy_proxy_container_with_spire_option b spire) (ps_containers p) else ps_containers p))"
proof -
  obtain cm es0 ecm es1 where
    "ensure_per_agent_config_map api y platform ns cr ModeEnvoySidecar nsc [] mtls '''' spire = (Inr cm, es0)"
    "ensure_per_agent_envoy_config_map api render ns cr
                  ((resolve_config y (Some platform) (Some nsc))\<lparr>rc_mtls_mode := mtls\<rparr>) = (Inr ecm, es1)"
    using assms unfolding inject_envoy_sidecar_def by (auto split: sum.splits prod.splits)
  then show ?thesis
    using assms unfolding inject_envoy_sidecar_def Let_def
    by (cases "sd_inject (dc_proxy_init decision)") (fastforce simp del: append_Cons append_Nil)+
qed

lemma inject_auth_bridge_Mutated:
  assumes "inject_auth_bridge api y render platform gates ns cr labels annotations p = (Mutated True, p', es)"
  shows "\<exists>bridge spire vs p0. p' = finish_pod annotations cr bridge spire vs p0 \<and> ps_volumes p0 = ps_volumes p \<and>
    ((\<exists>b img mtls o_port n_port f_port. ps_containers p0 =
        proxy_sidecar_containers b spire img mtls o_port n_port f_port (ps_containers p)) \<or>
     (\<exists>b mtls. ps_containers p0 = set_env_first EnvoyProxyContainerName ''MTLS_MODE'' mtls
        (if sd_inject (dc_envoy_proxy (evaluate gates labels))
         then add_container (build_envoy_proxy_container_with_spire_option b spire) (ps_containers p) else ps_containers p)))"
proof -
  obtain nsc mtls spire p2 es3 where p2: "ps_containers p2 = ps_containers p" "ps_volumes p2 = ps_volumes p"
    and r: "inject_resolved api y render platform gates ns cr annotations nsc (evaluate gates labels) mtls spire p2
      = (Mutated True, p', es3)"
    using assms unfolding inject_auth_bridge_def Let_def
    by (auto split: if_splits sum.splits prod.splits dest!: use_service_account_Inr)
  then obtain b mode bridge egress volumes where
    "inject_proxy_sidecar api y platform b ns cr annotations nsc mode mtls bridge egress spire volumes p2 = (Mutated True, p', es3) \<or>
     inject_envoy_sidecar api y render platform b ns cr annotations nsc (evaluate gates labels) mtls spire volumes p2 = (Mutated True, p', es3)"
    unfolding inject_resolved_def Let_def by (auto split: if_splits option.splits prod.splits) blast+
  then show ?thesis
  proof
    assume "inject_proxy_sidecar api y platform b ns cr annotations nsc mode mtls bridge egress spire volumes p2 = (Mutated True, p', es3)"
    from inject_proxy_sidecar_Mutated [OF this] show ?thesis using p2 by fastforce
  next
    assume "inject_envoy_sidecar api y render platform b ns cr annotations nsc (evaluate gates labels) mtls spire volumes p2 = (Mutated True, p', es3)"
    from inject_envoy_sidecar_Mutated [OF this] show ?thesis unfolding p2 by blast
  qed
qed

subsection \<open>Mounts\<close>

lemma mount_exists_append [simp]:
  "container_volume_mount_exists (xs @ ys) n \<longleftrightarrow> container_volume_mount_exists xs n \<or> container_volume_mount_exists ys n"
  "container_volume_mount_exists (m # ys) n \<longleftrightarrow> vm_name m = n \<or> container_volume_mount_exists ys n"
  "\<not> container_volume_mount_exists [] n"
  by (auto simp: container_volume_mount_exists_def)

lemma has_credentials_mount_exists: "has_credentials_mount c v p \<Longrightarrow> container_volume_mount_exists (co_volume_mounts c) v"
  by (auto simp: has_credentials_mount_def container_volume_mount_exists_def)

lemma mounts_credentials_container:
  "container_volume_mount_exists (co_volume_mounts (credentials_container v c)) n \<longleftrightarrow>
     container_volume_mount_exists (co_volume_mounts c) n \<or>
     n = v \<and> container_volume_mount_exists (co_volume_mounts c) ''shared-data''"
  by (auto simp: credentials_container_def append_sub_path_mount_def dest: has_credentials_mount_exists)

lemma mounts_tls_bridge_container:
  "container_volume_mount_exists (co_volume_mounts (tls_bridge_container c)) TLSBridgeCAVolumeName \<longleftrightarrow>
     container_volume_mount_exists (co_volume_mounts c) TLSBridgeCAVolumeName \<or> co_name c = AuthBridgeProxyContainerName"
  by (auto simp: tls_bridge_container_def add_volume_mount_if_missing_def mount_def TLSBridgeCAVolumeName_def
      TLSBridgeCACertVolumeName_def)

lemma has_credentials_mount_credentials:
  assumes "container_volume_mount_exists (co_volume_mounts c) ''shared-data''"
  shows "has_credentials_mount (credentials_container v c) v ''/shared/client-secret.txt''"
    and "has_credentials_mount (credentials_container v c) v ''/shared/client-id.txt''"
  using assms by (auto simp: credentials_container_def append_sub_path_mount_def has_credentials_mount_def)

lemma has_credentials_mount_mono:
  "set (co_volume_mounts c) \<subseteq> set (co_volume_mounts d) \<Longrightarrow> has_credentials_mount c v p \<Longrightarrow> has_credentials_mount d v p"
  by (auto simp: has_credentials_mount_def)

lemma tls_bridge_container_mounts:
  "set (co_volume_mounts c) \<subseteq> set (co_volume_mounts (tls_bridge_container c))"
  "container_volume_mount_exists (co_volume_mounts (tls_bridge_container c)) ''shared-data'' \<longleftrightarrow>
     container_volume_mount_exists (co_volume_mounts c) ''shared-data''"
  by (auto simp: tls_bridge_container_def add_volume_mount_if_missing_def mount_def TLSBridgeCAVolumeName_def
      TLSBridgeCACertVolumeName_def)

lemma apply_credentials_volumes:
  "trim_space (gm_get_or '''' an AnnotationKeycloakClientSecretName) \<noteq> '''' \<Longrightarrow>
   volume_exists (ps_volumes (apply_keycloak_client_credentials_secret_volumes an p))
     (keycloak_client_credentials_volume_name (trim_space (gm_get_or '''' an AnnotationKeycloakClientSecretName)))"
  by (auto simp: apply_keycloak_client_credentials_secret_volumes_def Let_def volume_exists_add vol_def)

text \<open>A pod whose credentials were applied, and then extended by mounts that are not shared data, needs no patch.\<close>
lemma apply_credentials_needs_no_patch:
  assumes cs: "ps_containers q = map g (ps_containers (apply_keycloak_client_credentials_secret_volumes an p))"
    and vs: "\<And>n. volume_exists (ps_volumes (apply_keycloak_client_credentials_secret_volumes an p)) n \<Longrightarrow> volume_exists (ps_volumes q) n"
    and g: "\<And>c. set (co_volume_mounts c) \<subseteq> set (co_volume_mounts (g c))"
    and sd: "\<And>c. container_volume_mount_exists (co_volume_mounts (g c)) ''shared-data'' \<longleftrightarrow>
      container_volume_mount_exists (co_volume_mounts c) ''shared-data''"
  shows "\<not> needs_keycloak_client_credentials_volume_patch q an"
proof (cases "trim_space (gm_get_or '''' an AnnotationKeycloakClientSecretName) = ''''")
  case False
  let ?v = "keycloak_client_credentials_volume_name (trim_space (gm_get_or '''' an AnnotationKeycloakClientSecretName))"
  have "has_credentials_mount c ?v ''/shared/client-secret.txt'' \<and> has_credentials_mount c ?v ''/shared/client-id.txt''"
    if c: "c \<in> set (ps_containers q)" and s: "container_volume_mount_exists (co_volume_mounts c) ''shared-data''" for c
  proof -
    obtain d where d: "c = g (credentials_container ?v d)"
      using c False unfolding cs by (auto simp: apply_keycloak_client_credentials_secret_volumes_def Let_def)
    then have "container_volume_mount_exists (co_volume_mounts d) ''shared-data''"
      using s sd by (auto simp: mounts_credentials_container)
    then show ?thesis
      unfolding d using has_credentials_mount_credentials has_credentials_mount_mono [OF g] by blast
  qed
  moreover have "volume_exists (ps_volumes q) ?v"
    using vs apply_credentials_volumes False by blast
  ultimately show ?thesis
    by (auto simp: needs_keycloak_client_credentials_volume_patch_def Let_def)
qed (simp add: needs_keycloak_client_credentials_volume_patch_def)

lemma finish_pod_containers:
  "\<exists>g. ps_containers (finish_pod an cr br sp vs p) =
     map g (ps_containers (apply_keycloak_client_credentials_secret_volumes an (add_volumes vs p))) \<and>
     g = (if br then tls_bridge_container else id)"
  by (auto simp: finish_pod_def Let_def apply_tls_bridge_mounts_def)

lemma finish_pod_volumes:
  "volume_exists (ps_volumes (apply_keycloak_client_credentials_secret_volumes an (add_volumes vs p))) n \<Longrightarrow>
   volume_exists (ps_volumes (finish_pod an cr br sp vs p)) n"
  by (auto simp: finish_pod_def Let_def apply_tls_bridge_mounts_def volume_exists_adds)

lemma finish_pod_needs_no_patch:
  "\<not> needs_keycloak_client_credentials_volume_patch (finish_pod an cr br sp vs p) an"
proof -
  obtain g where g: "ps_containers (finish_pod an cr br sp vs p) =
     map g (ps_containers (apply_keycloak_client_credentials_secret_volumes an (add_volumes vs p)))"
     "g = (if br then tls_bridge_container else id)"
    using finish_pod_containers by blast
  show ?thesis
    by (rule apply_credentials_needs_no_patch [OF g(1) finish_pod_volumes])
      (use tls_bridge_container_mounts in \<open>auto simp: g(2)\<close>)
qed

lemma apply_credentials_containers:
  "ps_containers (apply_keycloak_client_credentials_secret_volumes an p) =
     map (if trim_space (gm_get_or '''' an AnnotationKeycloakClientSecretName) = '''' then id
          else credentials_container (trim_space (gm_get_or '''' an AnnotationKeycloakClientSecretName))) (ps_containers p)"
  by (simp add: apply_keycloak_client_credentials_secret_volumes_def Let_def keycloak_client_credentials_volume_name_def)

lemma finish_pod_key_mount:
  assumes "c \<in> set (ps_containers (finish_pod an cr br sp vs p))"
    and "container_volume_mount_exists (co_volume_mounts c) TLSBridgeCAVolumeName"
    and "trim_space (gm_get_or '''' an AnnotationKeycloakClientSecretName) \<noteq> TLSBridgeCAVolumeName"
  shows "co_name c = AuthBridgeProxyContainerName \<or>
    (\<exists>d \<in> set (ps_containers p). co_name d = co_name c \<and> container_volume_mount_exists (co_volume_mounts d) TLSBridgeCAVolumeName)"
  using assms finish_pod_containers [of an cr br sp vs p]
  by (auto simp: apply_credentials_containers mounts_tls_bridge_container mounts_credentials_container split: if_splits)

text \<open>No container that the webhook builds mounts the bridge key by itself.\<close>
lemma built_mounts_no_key:
  "\<not> container_volume_mount_exists (co_volume_mounts (build_proxy_sidecar_container_with_ports b spire img i j k)) TLSBridgeCAVolumeName"
  "\<not> container_volume_mount_exists (co_volume_mounts (build_envoy_proxy_container_with_spire_option b spire)) TLSBridgeCAVolumeName"
  by (simp_all add: build_envoy_proxy_container_with_spire_option_def Let_def spire_mounts_def mount_def
      TLSBridgeCAVolumeName_def AuthproxyRoutesConfigMapName_def)

lemma build_envoy_name [simp]: "co_name (build_envoy_proxy_container_with_spire_option b spire) = EnvoyProxyContainerName"
  by (simp add: build_envoy_proxy_container_with_spire_option_def Let_def)

lemma injected_key_mount:
  assumes r: "inject_auth_bridge api y render platform gates ns cr labels an p = (Mutated True, p', es)"
    and n: "\<not> container_exists (ps_containers p) AuthBridgeProxyContainerName"
    and m: "\<forall>c \<in> set (ps_containers p). \<not> container_volume_mount_exists (co_volume_mounts c) TLSBridgeCAVolumeName"
    and a: "trim_space (gm_get_or '''' an AnnotationKeycloakClientSecretName) \<noteq> TLSBridgeCAVolumeName"
    and c: "c \<in> set (ps_containers p')" "container_volume_mount_exists (co_volume_mounts c) TLSBridgeCAVolumeName"
  shows "co_name c = AuthBridgeProxyContainerName"
proof (rule ccontr)
  let ?no = "\<lambda>ms. \<not> container_volume_mount_exists ms TLSBridgeCAVolumeName"
  assume x: "co_name c \<noteq> AuthBridgeProxyContainerName"
  obtain bridge spire vs p0 where p': "p' = finish_pod an cr bridge spire vs p0"
    and cs: "(\<exists>b img mtls o_port n_port f_port. ps_containers p0 =
        proxy_sidecar_containers b spire img mtls o_port n_port f_port (ps_containers p)) \<or>
     (\<exists>b mtls. ps_containers p0 = set_env_first EnvoyProxyContainerName ''MTLS_MODE'' mtls
        (if sd_inject (dc_envoy_proxy (evaluate gates labels))
         then add_container (build_envoy_proxy_container_with_spire_option b spire) (ps_containers p) else ps_containers p))"
    using inject_auth_bridge_Mutated [OF r] by blast
  have m': "\<forall>ms \<in> set (map co_volume_mounts (ps_containers p)). ?no ms" using m by simp
  have "\<forall>ms \<in> set (map co_volume_mounts (ps_containers p0)). ?no ms"
    using cs
  proof (elim disjE exE)
    fix b img mtls i j k
    assume "ps_containers p0 = proxy_sidecar_containers b spire img mtls i j k (ps_containers p)"
    then show ?thesis
      using m' built_mounts_no_key(1) proxy_sidecar_containers_map(3) [OF n, of b spire img mtls i j k] by simp
  next
    fix b mtls
    assume "ps_containers p0 = set_env_first EnvoyProxyContainerName ''MTLS_MODE'' mtls
        (if sd_inject (dc_envoy_proxy (evaluate gates labels))
         then add_container (build_envoy_proxy_container_with_spire_option b spire) (ps_containers p) else ps_containers p)"
    then have e: "map co_volume_mounts (ps_containers p0) = map co_volume_mounts (if sd_inject (dc_envoy_proxy (evaluate gates labels))
         then add_container (build_envoy_proxy_container_with_spire_option b spire) (ps_containers p) else ps_containers p)"
      by (simp only: set_env_first_map)
    show ?thesis unfolding e using m' built_mounts_no_key(2) by (auto simp: add_container_def)
  qed
  then show False
    using finish_pod_key_mount [OF c [unfolded p'] a] x by auto
qed

lemma injected_names:
  assumes r: "inject_auth_bridge api y render platform gates ns cr labels an p = (Mutated True, p', es)"
    and n: "\<not> container_exists (ps_containers p) AuthBridgeProxyContainerName"
    and d: "sd_inject (dc_envoy_proxy (evaluate gates labels))"
  shows "container_exists (ps_containers p') AuthBridgeProxyContainerName \<or> container_exists (ps_containers p') EnvoyProxyContainerName"
proof -
  obtain bridge spire vs p0 where p': "p' = finish_pod an cr bridge spire vs p0"
    and cs: "(\<exists>b img mtls o_port n_port f_port. ps_containers p0 =
        proxy_sidecar_containers b spire img mtls o_port n_port f_port (ps_containers p)) \<or>
     (\<exists>b mtls. ps_containers p0 = set_env_first EnvoyProxyContainerName ''MTLS_MODE'' mtls
        (add_container (build_envoy_proxy_container_with_spire_option b spire) (ps_containers p)))"
    using inject_auth_bridge_Mutated [OF r] unfolding if_P [OF d] by blast
  show ?thesis
    unfolding p' container_exists_names finish_pod_simps using cs
    by (elim disjE exE) (simp_all only: proxy_sidecar_containers_map(1) [OF n] set_env_first_map,
      auto simp: add_container_def container_exists_names)
qed

lemma injected_needs_no_patch:
  assumes "inject_auth_bridge api y render platform gates ns cr labels an p = (Mutated True, p', es)"
  shows "\<not> needs_keycloak_client_credentials_volume_patch p' an"
  using inject_auth_bridge_Mutated [OF assms] finish_pod_needs_no_patch by blast

lemma agent_index_None:
  "agent_index_from k cs = None \<Longrightarrow> \<not> container_exists cs AuthBridgeProxyContainerName \<Longrightarrow> used_ports cs = []"
  by (induction k cs rule: agent_index_from.induct) (auto simp: container_exists_def split: if_splits)

text \<open>The ports of the pod after the sidecar took the place of the agent.\<close>
lemma stolen_ports:
  assumes "\<not> container_exists cs AuthBridgeProxyContainerName" "\<forall>q \<in> set (used_ports cs). q \<noteq> 0"
  shows "\<exists>us vs. set us \<union> set vs \<subseteq> set (used_ports cs) \<and> (used_ports cs = us @ agent_port cs # vs \<and>
      used_ports (relocate_agent n cs) = us @ n # vs \<or> used_ports cs = [] \<and> used_ports (relocate_agent n cs) = [])"
proof (cases "agent_index_from 0 cs")
  case None
  then show ?thesis using agent_index_None [OF None assms(1)] by (simp add: relocate_agent_def)
next
  case (Some i)
  then obtain us vs q where q: "used_ports cs = us @ q # vs" "used_ports (relocate_agent n cs) = us @ n # vs"
    "q = cp_container_port (hd (co_ports (cs ! i)))" using relocate_agent_ports by blast
  then have "agent_port cs = q" using assms(2) Some by (auto simp: agent_port_def)
  then show ?thesis using q by auto
qed

lemma agent_port_range:
  assumes "\<not> container_exists cs AuthBridgeProxyContainerName" "\<forall>q \<in> set (used_ports cs). 1 \<le> q \<and> q \<le> 65535"
  shows "1 \<le> agent_port cs \<and> agent_port cs \<le> 65535"
proof -
  have nz: "\<forall>q \<in> set (used_ports cs). q \<noteq> 0" using assms(2) by fastforce
  consider i us vs where "agent_index_from 0 cs = Some i" "used_ports cs = us @ agent_port cs # vs" | "agent_index_from 0 cs = None"
    | i where "agent_index_from 0 cs = Some i" "used_ports cs = []"
    using stolen_ports [OF assms(1) nz] by (cases "agent_index_from 0 cs") blast+
  then show ?thesis
  proof cases
    case 1 then show ?thesis using assms(2) by auto
  next
    case 2 then show ?thesis by (simp add: agent_port_def)
  next
    case 3 then show ?thesis using relocate_agent_ports [OF 3(1)] by simp
  qed
qed


lemma inject_proxy_sidecar_Mutates:
  assumes "assign_ports (ps_containers p) = Inr (i, j, k)"
    and "\<And>ov. \<exists>cm es. ensure_per_agent_config_map api y platform ns cr ModeProxySidecar nsc ov mtls bridge spire = (Inr cm, es)"
  shows "\<exists>p' es. inject_proxy_sidecar api y platform b ns cr an nsc mode mtls bridge egress spire vols p = (Mutated True, p', es)"
  using assms(2) [of "listener_overrides i j k"] by (auto simp: inject_proxy_sidecar_def Let_def assms(1))

lemma ensure_per_agent_config_map_ok:
  assumes "\<And>cfg. \<exists>t. y_marshal y cfg = Some t" "\<And>cm. ka_apply api cm = None" "\<And>d. y_map y d \<noteq> Some None"
  shows "\<exists>cm es. ensure_per_agent_config_map api y platform ns cr mode nsc ov mtls bridge spire = (Inr cm, es)"
proof -
  obtain cfg0 where "(if nc_authbridge_runtime_yaml nsc = '''' then Some [] else
      case y_map y (nc_authbridge_runtime_yaml nsc) of None \<Rightarrow> Some [] | Some m \<Rightarrow> m) = Some cfg0"
    using assms(3) [of "nc_authbridge_runtime_yaml nsc"]
    by (cases "y_map y (nc_authbridge_runtime_yaml nsc)"; cases "nc_authbridge_runtime_yaml nsc = []") auto
  moreover obtain t where "y_marshal y (per_agent_config platform mode (Some nsc) ov mtls bridge spire cfg0) = Some t"
    using assms(1) by blast
  ultimately show ?thesis
    by (simp add: ensure_per_agent_config_map_def apply_config_map_def assms(2))
qed

lemma sample_pod_spec_simps:
  "\<not> container_exists (ps_containers sample_pod_spec) AuthBridgeProxyContainerName"
  "used_ports (ps_containers sample_pod_spec) = [8080, 8081, 9000]"
  "agent_port (ps_containers sample_pod_spec) = 8080"
  by (simp_all add: sample_pod_spec_def sample_container_def container_exists_def AuthBridgeProxyContainerName_def
      used_ports_def tcp_port_def agent_port_def)

lemma sample_injection_ok: "\<exists>p' es. sample_injection = (Mutated True, p', es)"
proof -
  obtain n f where "assign_ports (ps_containers sample_pod_spec) = Inr (8080, n, f)"
    using assign_ports_exists [of "ps_containers sample_pod_spec"] by (auto simp: sample_pod_spec_simps)
  then show ?thesis
    unfolding sample_injection_def
    by (rule inject_proxy_sidecar_Mutates) (rule ensure_per_agent_config_map_ok; simp add: sample_yaml_def sample_api_def)
qed


end
