(* ===== verification/Admission.thy ===== *)
theory Admission
  imports Pod_Mutator Sha256
begin

text \<open>
  The admission webhooks of the operator: the mutation of pods
  (\<^verbatim>\<open>internal/webhook/v1alpha1/authbridge_webhook.go\<close>) with the resolution of the
  owner of a pod (\<^verbatim>\<open>internal/workload/owner.go\<close>) and the names of the client
  registration (\<^verbatim>\<open>internal/clientreg/names.go\<close>), and the validation of
  AgentRuntime and AgentCard resources.
\<close>

section \<open>Owners of pods\<close>

record pod_owner_reference =
  po_kind :: string
  po_name :: string
  po_controller :: "bool option"

record pod =
  pd_name :: string
  pd_generate_name :: string
  pd_uid :: string
  pd_owner_references :: "pod_owner_reference list"
  pd_labels :: "(string, string) gomap"
  pd_annotations :: "(string, string) gomap"
  pd_spec :: pod_spec

record owner_info =
  oi_name :: string
  oi_kind :: string

definition deployment_name_from_replica_set :: "string \<Rightarrow> (string, string) gomap \<Rightarrow> string" where
  "deployment_name_from_replica_set rs labels =
     (let hash = gm_get_or '''' labels ''pod-template-hash'' in
      if hash \<noteq> '''' \<and> has_suffix rs (''-'' @ hash) then trim_suffix rs (''-'' @ hash) else '''')"

fun owner_from_refs :: "(string, string) gomap \<Rightarrow> pod_owner_reference list \<Rightarrow> owner_info option" where
  "owner_from_refs labels [] = None"
| "owner_from_refs labels (r # rs) =
     (if po_controller r \<noteq> Some True then owner_from_refs labels rs
      else if po_kind r = ''StatefulSet'' then Some \<lparr>oi_name = po_name r, oi_kind = ''StatefulSet''\<rparr>
      else if po_kind r = ''Sandbox'' then Some \<lparr>oi_name = po_name r, oi_kind = ''Sandbox''\<rparr>
      else if po_kind r = ''ReplicaSet'' then
        (let name = deployment_name_from_replica_set (po_name r) labels in
         Some (if name \<noteq> '''' then \<lparr>oi_name = name, oi_kind = ''Deployment''\<rparr> else \<lparr>oi_name = po_name r, oi_kind = ''''\<rparr>))
      else owner_from_refs labels rs)"

definition trim_right_dash :: "string \<Rightarrow> string" where
  "trim_right_dash s = rev (dropWhile (\<lambda>c. c = CHR ''-'') (rev s))"

definition resolve_owner :: "pod \<Rightarrow> owner_info" where
  "resolve_owner p =
     (case owner_from_refs (pd_labels p) (pd_owner_references p) of
        Some i \<Rightarrow> i
      | None \<Rightarrow>
          if pd_generate_name p \<noteq> '''' then
            (let rs = trim_right_dash (pd_generate_name p); name = deployment_name_from_replica_set rs (pd_labels p)
             in if name \<noteq> '''' then \<lparr>oi_name = name, oi_kind = ''Deployment''\<rparr> else \<lparr>oi_name = rs, oi_kind = ''''\<rparr>)
          else \<lparr>oi_name = pd_name p, oi_kind = ''''\<rparr>)"

definition is_pod_owned_by :: "pod \<Rightarrow> string \<Rightarrow> bool" where
  "is_pod_owned_by p workload =
     (\<exists>r \<in> set (pd_owner_references p). po_controller r = Some True \<and>
        (if po_kind r = ''ReplicaSet''
         then (case last_index_byte (CHR ''-'') (po_name r) of
                 Some i \<Rightarrow> i > 0 \<and> take i (po_name r) = workload | None \<Rightarrow> False)
         else (po_kind r = ''StatefulSet'' \<or> po_kind r = ''Sandbox'') \<and> po_name r = workload))"

definition derive_workload_info :: "pod \<Rightarrow> string \<times> string" where
  "derive_workload_info p =
     (let i = resolve_owner p in if oi_name i \<noteq> '''' then (oi_name i, oi_kind i) else (pd_uid p, ''''))"

section \<open>Client registration\<close>

definition keycloak_client_credentials_secret_name :: "string \<Rightarrow> string \<Rightarrow> string" where
  "keycloak_client_credentials_secret_name ns workload =
     ''kagenti-keycloak-client-credentials-'' @
     hex_encode (take 8 (sha256 (ns @ [CHR 0x00] @ workload @ [CHR 0x00] @ ''kagenti-keycloak-client-credentials'')))"

text \<open>\<^verbatim>\<open>SkipReason\<close>; an absent map of labels is the empty one, which is skipped as well.\<close>
definition skip_reason :: "(string, string) gomap \<Rightarrow> bool \<Rightarrow> string" where
  "skip_reason labels inject_tools =
     (let t = gm_get_or '''' labels ''kagenti.io/type'' in
      if t = ''agent'' then ''''
      else if t = ''tool'' then
        (if \<not> inject_tools then ''kagenti.io/type is tool but cluster injectTools feature gate is disabled'' else '''')
      else if t = '''' then ''kagenti.io/type label is missing or not agent/tool''
      else ''kagenti.io/type='' @ t @ '' is not agent or tool'')"

definition workload_wants_operator_client_reg :: "(string, string) gomap \<Rightarrow> bool \<Rightarrow> bool" where
  "workload_wants_operator_client_reg labels inject_tools = (skip_reason labels inject_tools = '''')"

section \<open>Mutation of pods\<close>

datatype admission_response =
    Allowed string
  | Errored int inject_error
  | DecodeError
  | Patched pod

text \<open>A request: the group and kind of the object, the namespace and the decoded pod.\<close>
record admission_request =
  ar_group :: string
  ar_kind :: string
  ar_namespace :: string
  ar_pod :: "pod option"

definition is_already_injected :: "pod_spec \<Rightarrow> bool" where
  "is_already_injected p =
     ((\<exists>c \<in> set (ps_containers p). co_name c = EnvoyProxyContainerName \<or> co_name c = AuthBridgeProxyContainerName) \<or>
      (\<exists>c \<in> set (ps_init_containers p). co_name c = ProxyInitContainerName))"

definition prepopulate_annotation :: "feature_gates \<Rightarrow> string \<Rightarrow> pod \<Rightarrow> pod" where
  "prepopulate_annotation gates ns p =
     (if gm_get_or '''' (pd_annotations p) AnnotationKeycloakClientSecretName = '''' \<and>
         workload_wants_operator_client_reg (pd_labels p) (fg_inject_tools gates)
      then p\<lparr>pd_annotations := gm_put AnnotationKeycloakClientSecretName
             (keycloak_client_credentials_secret_name ns (fst (derive_workload_info p))) (pd_annotations p)\<rparr>
      else p)"

definition handle ::
  "kube_api \<Rightarrow> yaml_api \<Rightarrow> (envoy_template_data \<Rightarrow> string option) \<Rightarrow> platform_config \<Rightarrow> feature_gates \<Rightarrow> admission_request \<Rightarrow>
   admission_response \<times> effect list" where
  "handle api y render platform gates req =
     (if ar_kind req \<noteq> ''Pod'' \<or> ar_group req \<noteq> '''' then (Allowed ''not a Pod'', [])
      else case ar_pod req of
          None \<Rightarrow> (DecodeError, [])
        | Some p0 \<Rightarrow>
            (let name = fst (derive_workload_info p0); p = prepopulate_annotation gates (ar_namespace req) p0 in
             if is_already_injected (pd_spec p) then
               (if needs_keycloak_client_credentials_volume_patch (pd_spec p) (pd_annotations p)
                then (Patched (p\<lparr>pd_spec := apply_keycloak_client_credentials_secret_volumes (pd_annotations p) (pd_spec p)\<rparr>), [])
                else (Allowed ''already injected'', []))
             else case inject_auth_bridge api y render platform gates (ar_namespace req) name (pd_labels p) (pd_annotations p) (pd_spec p) of
                 (InjectFailed e, _, es) \<Rightarrow> (Errored 500 e, es)
               | (Mutated False, _, es) \<Rightarrow> (Allowed ''injection not enabled'', es)
               | (Mutated True, ps, es) \<Rightarrow> (Patched (p\<lparr>pd_spec := ps\<rparr>), es)))"

section \<open>Validation of custom resources\<close>

record target_ref =
  tg_api_version :: string
  tg_kind :: string
  tg_name :: string

record agent_runtime =
  ru_name :: string
  ru_target_ref :: target_ref
  ru_auth_bridge_mode :: string
  ru_tls_bridge_mode :: string

record agent_card =
  ag_name :: string
  ag_target_ref :: "target_ref option"

datatype validation_error =
    DuplicateTarget string
  | BridgeUnsupported string
  | TargetRefRequired

definition check_tls_bridge_compatible_with_mode :: "agent_runtime \<Rightarrow> validation_error option" where
  "check_tls_bridge_compatible_with_mode rt =
     (if ru_tls_bridge_mode rt \<noteq> ''enabled'' then None
      else if ru_auth_bridge_mode rt \<in> {'''', ''proxy-sidecar'', ''lite''} then None
      else Some (BridgeUnsupported (ru_auth_bridge_mode rt)))"

text \<open>The listing is None when it failed, and then nothing is rejected.\<close>
definition runtime_duplicate :: "agent_runtime list option \<Rightarrow> agent_runtime \<Rightarrow> validation_error option" where
  "runtime_duplicate listing rt =
     (case listing of
        None \<Rightarrow> None
      | Some rts \<Rightarrow> map_option (\<lambda>e. DuplicateTarget (ru_name e))
          (find (\<lambda>e. ru_name e \<noteq> ru_name rt \<and> ru_target_ref e = ru_target_ref rt) rts))"

definition validate_runtime :: "agent_runtime list option \<Rightarrow> agent_runtime \<Rightarrow> validation_error option" where
  "validate_runtime listing rt =
     (case runtime_duplicate listing rt of
        Some e \<Rightarrow> Some e
      | None \<Rightarrow> check_tls_bridge_compatible_with_mode rt)"

definition card_duplicate :: "agent_card list option \<Rightarrow> agent_card \<Rightarrow> validation_error option" where
  "card_duplicate listing ac =
     (case ag_target_ref ac of
        None \<Rightarrow> None
      | Some ref \<Rightarrow>
          (case listing of
             None \<Rightarrow> None
           | Some cards \<Rightarrow> map_option (\<lambda>e. DuplicateTarget (ag_name e))
               (find (\<lambda>e. ag_name e \<noteq> ag_name ac \<and> ag_target_ref e = Some ref) cards)))"

definition validate_agent_card :: "agent_card list option \<Rightarrow> agent_card \<Rightarrow> validation_error option" where
  "validate_agent_card listing ac =
     (if ag_target_ref ac = None then Some TargetRefRequired else card_duplicate listing ac)"

section \<open>Specification and sample inputs\<close>

definition sample_pod :: pod where
  "sample_pod = \<lparr>pd_name = '''', pd_generate_name = ''agent-'', pd_uid = ''u1'', pd_owner_references = [],
     pd_labels = [(''kagenti.io/type'', ''agent'')],
     pd_annotations = [(AnnotationKeycloakClientSecretName, ''creds'')], pd_spec = sample_pod_spec\<rparr>"

definition sample_request :: admission_request where
  "sample_request = \<lparr>ar_group = '''', ar_kind = ''Pod'', ar_namespace = ''team'', ar_pod = Some sample_pod\<rparr>"

section \<open>Lemmas\<close>

lemma prepopulate_simps [simp]:
  "pd_spec (prepopulate_annotation gates ns p) = pd_spec p" "pd_labels (prepopulate_annotation gates ns p) = pd_labels p"
  "derive_workload_info (p\<lparr>pd_annotations := an\<rparr>) = derive_workload_info p"
  "derive_workload_info (p\<lparr>pd_spec := s\<rparr>) = derive_workload_info p"
  by (simp_all add: prepopulate_annotation_def derive_workload_info_def resolve_owner_def Let_def cong: option.case_cong)

lemma keycloak_secret_name_nonempty [simp]: "keycloak_client_credentials_secret_name ns w \<noteq> ''''"
  by (simp add: keycloak_client_credentials_secret_name_def)

lemma prepopulate_idempotent:
  "prepopulate_annotation gates ns ((prepopulate_annotation gates ns p)\<lparr>pd_spec := s\<rparr>) = (prepopulate_annotation gates ns p)\<lparr>pd_spec := s\<rparr>"
  by (auto simp: prepopulate_annotation_def gm_get_or_def)

lemma handle_PatchedE:
  assumes "handle api y render platform gates req = (Patched q, es)"
  obtains p0 p where "ar_kind req = ''Pod''" "ar_group req = ''''" "ar_pod req = Some p0" "p = prepopulate_annotation gates (ar_namespace req) p0"
    "q = p\<lparr>pd_spec := pd_spec q\<rparr>"
    "is_already_injected (pd_spec p0) \<and> es = [] \<and> pd_spec q = apply_keycloak_client_credentials_secret_volumes (pd_annotations p) (pd_spec p0)
     \<or> \<not> is_already_injected (pd_spec p0) \<and>
       inject_auth_bridge api y render platform gates (ar_namespace req) (fst (derive_workload_info p0)) (pd_labels p0) (pd_annotations p)
         (pd_spec p0) = (Mutated True, pd_spec q, es)"
  using assms unfolding handle_def Let_def
  by (auto split: if_splits option.splits prod.splits inject_result.splits bool.splits)

lemma is_already_injected_names:
  "is_already_injected s \<longleftrightarrow> EnvoyProxyContainerName \<in> set (map co_name (ps_containers s)) \<or>
     AuthBridgeProxyContainerName \<in> set (map co_name (ps_containers s)) \<or>
     ProxyInitContainerName \<in> set (map co_name (ps_init_containers s))"
  by (simp add: is_already_injected_def image_iff) metis

lemma not_injected_names:
  "\<not> is_already_injected s \<Longrightarrow> \<not> container_exists (ps_containers s) AuthBridgeProxyContainerName"
  by (auto simp: is_already_injected_def container_exists_def)

lemma injected_names_already:
  "container_exists (ps_containers s) AuthBridgeProxyContainerName \<or> container_exists (ps_containers s) EnvoyProxyContainerName \<Longrightarrow>
   is_already_injected s"
  by (auto simp: is_already_injected_def container_exists_def)


text \<open>Claim C20. Reinvocation is stable: when the pod webhook patched a pod and its labels and gates inject the Envoy
  sidecar, then submitting the patched pod again is allowed as already injected, without any change or side effect.\<close>
theorem reinvocation_stable:
  assumes "handle api y render platform gates req = (Patched q, es)"
    and "sd_inject (dc_envoy_proxy (evaluate gates (pd_labels q)))"
  shows "handle api y render platform gates (req\<lparr>ar_pod := Some q\<rparr>) = (Allowed ''already injected'', [])"
proof -
  obtain p0 p where p: "ar_kind req = ''Pod''" "ar_group req = ''''" "p = prepopulate_annotation gates (ar_namespace req) p0"
    "q = p\<lparr>pd_spec := pd_spec q\<rparr>"
    and i: "is_already_injected (pd_spec p0) \<and> pd_spec q = apply_keycloak_client_credentials_secret_volumes (pd_annotations p) (pd_spec p0)
     \<or> \<not> is_already_injected (pd_spec p0) \<and>
       inject_auth_bridge api y render platform gates (ar_namespace req) (fst (derive_workload_info p0)) (pd_labels p0) (pd_annotations p)
         (pd_spec p0) = (Mutated True, pd_spec q, es)"
    using assms(1) by (rule handle_PatchedE) blast
  have an: "pd_annotations q = pd_annotations p" "pd_labels q = pd_labels p0" by (subst p(4), simp add: p(3))+
  have pre: "prepopulate_annotation gates (ar_namespace req) q = q"
    using prepopulate_idempotent [of gates "ar_namespace req" "pd_spec q" p0] p(3,4) by simp
  have inj: "is_already_injected (pd_spec q)"
    using i
  proof (elim disjE conjE)
    assume "is_already_injected (pd_spec p0)"
      "pd_spec q = apply_keycloak_client_credentials_secret_volumes (pd_annotations p) (pd_spec p0)"
    then show ?thesis by (simp only: is_already_injected_names apply_credentials_simps)
  next
    assume n: "\<not> is_already_injected (pd_spec p0)" and r: "inject_auth_bridge api y render platform gates (ar_namespace req)
      (fst (derive_workload_info p0)) (pd_labels p0) (pd_annotations p) (pd_spec p0) = (Mutated True, pd_spec q, es)"
    then show ?thesis
      using injected_names [OF r not_injected_names [OF n]] assms(2) an(2) injected_names_already by auto
  qed
  have np: "\<not> needs_keycloak_client_credentials_volume_patch (pd_spec q) (pd_annotations q)"
    using i injected_needs_no_patch apply_credentials_needs_no_patch [of "pd_spec q" id "pd_annotations q" "pd_spec p0"]
    unfolding an by auto
  show ?thesis
    using p(1,2) inj np by (simp add: handle_def pre)
qed

lemma sample_resolved:
  assumes "ps_containers p = ps_containers sample_pod_spec"
  shows "\<exists>p' es. inject_resolved sample_api sample_yaml render CompiledDefaults DefaultFeatureGates ns cr [(AnnotationKeycloakClientSecretName, ''creds'')]
    (read_namespace_config sample_api ns) d mtls spire p = (Mutated True, p', es)"
proof -
  obtain n f where a: "assign_ports (ps_containers p) = Inr (8080, n, f)"
    using assign_ports_exists [of "ps_containers p"] by (auto simp: assms sample_pod_spec_simps)
  have e: "resolve_egress (px_allowed_egress_enforcement (pc_proxy CompiledDefaults)) x \<noteq> None" for x
    by (simp add: resolve_egress_def CompiledDefaults_def)
  have "resolve_mode (extract_field (y_mode sample_yaml) doc)
      (gm_get_or '''' [(AnnotationKeycloakClientSecretName, ''creds'')] ''kagenti.io/authbridge-mode'') = ModeProxySidecar" for doc
    by (simp add: resolve_mode_def extract_field_def sample_yaml_def gm_get_or_def AnnotationKeycloakClientSecretName_def
        ModeProxySidecar_def)
  moreover have "ModeProxySidecar \<noteq> ModeWaypoint" by (simp add: ModeProxySidecar_def ModeWaypoint_def)
  moreover have "\<exists>p' es. inject_proxy_sidecar sample_api sample_yaml CompiledDefaults b ns cr an (read_namespace_config sample_api ns)
      mode mtls bridge egress spire vols p = (Mutated True, p', es)" for b an mode bridge egress vols
    using a by (rule inject_proxy_sidecar_Mutates) (rule ensure_per_agent_config_map_ok; simp add: sample_yaml_def sample_api_def)
  ultimately show ?thesis
    using e by (auto simp: inject_resolved_def Let_def split: option.splits prod.splits)
qed

lemma sample_request_patched:
  "\<exists>q es. handle sample_api sample_yaml (\<lambda>_. None) CompiledDefaults DefaultFeatureGates sample_request = (Patched q, es) \<and>
     pd_annotations q = pd_annotations sample_pod \<and> pd_labels q = pd_labels sample_pod"
proof -
  have pre: "prepopulate_annotation DefaultFeatureGates ''team'' sample_pod = sample_pod"
    by (simp add: prepopulate_annotation_def sample_pod_def gm_get_or_def)
  have ini: "\<not> is_already_injected (pd_spec sample_pod)" by code_simp
  have sk: "\<not> skip_injection DefaultFeatureGates (pd_labels sample_pod)"
    "any_injected (evaluate DefaultFeatureGates (pd_labels sample_pod))" by code_simp+
  have usa: "\<exists>p1 es. use_service_account sample_api ns cr sp p = (Inr p1, es)" for ns cr sp p
    by (simp add: use_service_account_def ensure_service_account_def sample_api_def)
  have "\<exists>ps es. inject_auth_bridge sample_api sample_yaml (\<lambda>_. None) CompiledDefaults DefaultFeatureGates ''team''
      (fst (derive_workload_info sample_pod)) (pd_labels sample_pod) (pd_annotations sample_pod) (pd_spec sample_pod) = (Mutated True, ps, es)"
  proof -
    let ?cr = "fst (derive_workload_info sample_pod)" and ?d = "evaluate DefaultFeatureGates (pd_labels sample_pod)"
    let ?nsc = "read_namespace_config sample_api ''team''"
    let ?m = "resolve_mtls (extract_field (y_mtls sample_yaml) (nc_authbridge_runtime_yaml ?nsc))"
    let ?auto = "?m \<noteq> MTLSModeDisabled \<and> \<not> sd_inject (dc_spiffe_helper ?d)"
    obtain p1 es1 where p1: "use_service_account sample_api ''team'' ?cr (sd_inject (dc_spiffe_helper ?d)) (pd_spec sample_pod) = (Inr p1, es1)"
      using usa by blast
    obtain p2 es2 where p2: "use_service_account sample_api ''team'' ?cr ?auto p1 = (Inr p2, es2)" using usa by blast
    have "ps_containers p2 = ps_containers sample_pod_spec"
      using use_service_account_Inr [OF p1] use_service_account_Inr [OF p2] by (simp add: sample_pod_def)
    from sample_resolved [OF this, of "\<lambda>_. None" "''team''" ?cr ?d ?m "sd_inject (dc_spiffe_helper ?d) \<or> ?auto"]
    obtain p3 es3 where "inject_resolved sample_api sample_yaml (\<lambda>_. None) CompiledDefaults DefaultFeatureGates ''team'' ?cr
      (pd_annotations sample_pod) ?nsc ?d ?m (sd_inject (dc_spiffe_helper ?d) \<or> ?auto) p2 = (Mutated True, p3, es3)"
      by (auto simp: sample_pod_def)
    then show ?thesis by (simp add: inject_auth_bridge_def Let_def sk p1 p2)
  qed
  then show ?thesis
    using pre ini by (auto simp: handle_def sample_request_def)
qed


theorem reinvocation_stable_witness:
  "\<exists>q es. handle sample_api sample_yaml (\<lambda>_. None) CompiledDefaults DefaultFeatureGates sample_request = (Patched q, es) \<and>
     handle sample_api sample_yaml (\<lambda>_. None) CompiledDefaults DefaultFeatureGates (sample_request\<lparr>ar_pod := Some q\<rparr>) =
       (Allowed ''already injected'', [])"
proof -
  obtain q es where q: "handle sample_api sample_yaml (\<lambda>_. None) CompiledDefaults DefaultFeatureGates sample_request = (Patched q, es)"
    "pd_labels q = pd_labels sample_pod"
    using sample_request_patched by blast
  have "sd_inject (dc_envoy_proxy (evaluate DefaultFeatureGates (pd_labels sample_pod)))" by code_simp
  then show ?thesis using reinvocation_stable [OF q(1)] q by auto
qed

end
