(* ===== verification/Bridge_Config.thy ===== *)
theory Bridge_Config
  imports Plugin_Registry Host_Match
begin

text \<open>
  The runtime configuration of an AuthBridge process (\<^verbatim>\<open>authlib/config\<close>), the way
  \<^verbatim>\<open>cmd/authbridge-proxy\<close> boots from it, and its hot reload
  (\<^verbatim>\<open>authlib/reloader/reloader.go\<close>).

  The YAML library is a parameter: \<^verbatim>\<open>parse\<close> decodes a document into the
  configuration.  Nodes of a document are modelled where the source walks them
  itself, in the decoder of a plugin entry.
\<close>

section \<open>Configuration\<close>

record listener_config =
  lc_ext_proc_addr :: string
  lc_ext_authz_addr :: string
  lc_forward_proxy_addr :: string
  lc_reverse_proxy_addr :: string
  lc_reverse_proxy_backend :: string
  lc_transparent_proxy_addr :: string
  lc_session_api_addr :: string
  lc_skip_hosts :: "string list"

record tls_bridge_config =
  tb_mode :: string
  tb_ca_dir :: string
  tb_upstream_ca_bundle :: string
  tb_passthrough_hosts :: "string list"
  tb_ports :: "int list"

record spiffe_block =
  sb_socket :: string
  sb_mirror_files :: "bool option"
  sb_mirror_dir :: string

record session_config =
  ss_enabled :: "bool option"
  ss_ttl :: string
  ss_max_events :: int
  ss_max_sessions :: int

record bridge_config =
  bc_mode :: string
  bc_listener :: listener_config
  bc_inbound :: "plugin_entry list"
  bc_outbound :: "plugin_entry list"
  bc_session :: session_config
  bc_stats_address :: string
  bc_mtls :: "string option"
  bc_spiffe :: "spiffe_block option"
  bc_tls_bridge :: "tls_bridge_config option"

datatype config_error =
    ReadFailed string
  | ParseFailed string
  | BadMtlsMode string
  | BadSpiffeSocket string
  | BadBridgeMode string
  | BridgeWithoutCA
  | BadBridgePort int
  | ModeRequired
  | UnknownMode string
  | UnsupportedListener string string
  | BackendRequired
  | WrongBinary string

definition session_enabled :: "session_config \<Rightarrow> bool" where
  "session_enabled s = (case ss_enabled s of None \<Rightarrow> True | Some b \<Rightarrow> b)"

definition mtls_resolved_mode :: "string option \<Rightarrow> string" where
  "mtls_resolved_mode m = (case m of None \<Rightarrow> ''permissive'' | Some v \<Rightarrow> if v = '''' then ''permissive'' else v)"

definition mtls_validate :: "string option \<Rightarrow> config_error option" where
  "mtls_validate m = (case m of None \<Rightarrow> None
     | Some v \<Rightarrow> if v \<in> {'''', ''permissive'', ''strict''} then None else Some (BadMtlsMode v))"

definition spiffe_validate :: "spiffe_block option \<Rightarrow> config_error option" where
  "spiffe_validate s = (case s of None \<Rightarrow> None
     | Some b \<Rightarrow> if has_prefix (sb_socket b) ''unix://'' then None else Some (BadSpiffeSocket (sb_socket b)))"

definition tls_bridge_validate :: "tls_bridge_config \<Rightarrow> config_error option" where
  "tls_bridge_validate b =
     (if tb_mode b \<noteq> '''' \<and> tb_mode b \<noteq> ''disabled'' \<and> tb_mode b \<noteq> ''enabled'' then Some (BadBridgeMode (tb_mode b))
      else if tb_mode b = ''enabled'' \<and> tb_ca_dir b = '''' then Some BridgeWithoutCA
      else map_option BadBridgePort (find (\<lambda>p. p < 1 \<or> p > 65535) (tb_ports b)))"

section \<open>Plugin entries\<close>

datatype yaml_node =
    ScalarNode string string
  | MappingNode "(yaml_node \<times> yaml_node) list"
  | OtherNode

text \<open>The fields of an entry, one key after the other.  \<^verbatim>\<open>str\<close> decodes a node into a
  string, \<^verbatim>\<open>to_json\<close> re-encodes a node.\<close>
fun entry_fields ::
  "(yaml_node \<Rightarrow> string option) \<Rightarrow> (yaml_node \<Rightarrow> bytes option) \<Rightarrow> (yaml_node \<times> yaml_node) list \<Rightarrow> plugin_entry \<Rightarrow>
   plugin_entry option" where
  "entry_fields str to_json [] e = Some e"
| "entry_fields str to_json ((k, v) # rest) e =
     (case k of
        ScalarNode _ key \<Rightarrow>
          if key = ''name'' then Option.bind (str v) (\<lambda>s. entry_fields str to_json rest (e\<lparr>en_name := s\<rparr>))
          else if key = ''id'' then Option.bind (str v) (\<lambda>s. entry_fields str to_json rest e)
          else if key = ''on_error'' then
            Option.bind (str v) (\<lambda>s. if policy_valid s then entry_fields str to_json rest (e\<lparr>en_on_error := s\<rparr>) else None)
          else if key = ''config'' then
            (case v of
               ScalarNode tag _ \<Rightarrow> if tag = ''!!null'' then entry_fields str to_json rest (e\<lparr>en_config := []\<rparr>)
                 else Option.bind (to_json v) (\<lambda>j. entry_fields str to_json rest (e\<lparr>en_config := j\<rparr>))
             | _ \<Rightarrow> Option.bind (to_json v) (\<lambda>j. entry_fields str to_json rest (e\<lparr>en_config := j\<rparr>)))
          else None
      | _ \<Rightarrow> None)"

definition entry_unmarshal ::
  "(yaml_node \<Rightarrow> string option) \<Rightarrow> (yaml_node \<Rightarrow> bytes option) \<Rightarrow> yaml_node \<Rightarrow> plugin_entry option" where
  "entry_unmarshal str to_json n =
     (let e = \<lparr>en_name = '''', en_config = [], en_on_error = ''''\<rparr> in
      case n of
        ScalarNode _ v \<Rightarrow> Some (e\<lparr>en_name := v\<rparr>)
      | MappingNode kvs \<Rightarrow> entry_fields str to_json kvs e
      | OtherNode \<Rightarrow> None)"

section \<open>Loading\<close>

definition is_special_var :: "char \<Rightarrow> bool" where
  "is_special_var c = (c \<in> {CHR ''*'', CHR ''#'', CHR ''$'', CHR ''@'', CHR ''!'', CHR ''?'', CHR ''-''} \<or> is_digit c)"

definition is_alpha_num :: "char \<Rightarrow> bool" where
  "is_alpha_num c = (let n = (of_char c :: nat) in c = CHR ''_'' \<or> is_digit c \<or> (97 \<le> n \<and> n \<le> 122) \<or> (65 \<le> n \<and> n \<le> 90))"

text \<open>The name after a dollar sign and its width, as in \<^verbatim>\<open>os.Expand\<close>.\<close>
definition shell_name :: "string \<Rightarrow> string \<times> nat" where
  "shell_name s =
     (case s of
        [] \<Rightarrow> ('''', 0)
      | c # cs \<Rightarrow>
          if c = CHR ''{'' then
            (if length s > 2 \<and> is_special_var (s ! 1) \<and> s ! 2 = CHR ''}'' then ([s ! 1], 3)
             else case index_byte (CHR ''}'') cs of
                    None \<Rightarrow> ('''', 1)
                  | Some 0 \<Rightarrow> ('''', 2)
                  | Some i \<Rightarrow> (take i cs, i + 2))
          else if is_special_var c then ([c], 1)
          else (takeWhile is_alpha_num s, length (takeWhile is_alpha_num s)))"

function os_expand :: "(string \<Rightarrow> string) \<Rightarrow> string \<Rightarrow> string" where
  "os_expand m [] = []"
| "os_expand m (c # cs) =
     (if c = CHR ''$'' \<and> cs \<noteq> [] then
        (let (name, w) = shell_name cs in
         (if name = '''' \<and> w > 0 then '''' else if name = '''' then [c] else m name) @ os_expand m (drop w cs))
      else c # os_expand m cs)"
  by pat_completeness auto
termination by (relation "measure (\<lambda>(m, s). length s)") auto

definition expand_env :: "(string, string) gomap \<Rightarrow> string \<Rightarrow> string" where
  "expand_env env = os_expand (\<lambda>k. case gm_get env k of Some v \<Rightarrow> v | None \<Rightarrow> ''${'' @ k @ ''}'')"

definition force_localhost :: "string \<Rightarrow> string" where
  "force_localhost addr =
     (if addr = '''' then ''''
      else case split_host_port addr of None \<Rightarrow> addr | Some (_, port) \<Rightarrow> ''127.0.0.1:'' @ port)"

definition spiffe_defaults :: "spiffe_block \<Rightarrow> spiffe_block" where
  "spiffe_defaults b =
     b\<lparr>sb_socket := (if sb_socket b = '''' then ''unix:///spiffe-workload-api/spire-agent.sock'' else sb_socket b),
       sb_mirror_files := (case sb_mirror_files b of None \<Rightarrow> Some True | Some v \<Rightarrow> Some v),
       sb_mirror_dir := (if sb_mirror_dir b = '''' then ''/opt'' else sb_mirror_dir b)\<rparr>"

text \<open>\<^verbatim>\<open>Load\<close> on the outcome of reading the file.\<close>
definition load_config ::
  "(string, string) gomap \<Rightarrow> (string \<Rightarrow> string + bridge_config) \<Rightarrow> string + string \<Rightarrow> config_error + bridge_config" where
  "load_config env parse file =
     (case file of
        Inl e \<Rightarrow> Inl (ReadFailed e)
      | Inr text \<Rightarrow>
          (case parse (expand_env env text) of
             Inl e \<Rightarrow> Inl (ParseFailed e)
           | Inr c0 \<Rightarrow>
               (let c1 = (if bc_stats_address c0 = '''' then c0\<lparr>bc_stats_address := '':9093''\<rparr> else c0) in
                case mtls_validate (bc_mtls c1) of
                  Some e \<Rightarrow> Inl e
                | None \<Rightarrow>
                    (let c2 = c1\<lparr>bc_spiffe := map_option spiffe_defaults (bc_spiffe c1)\<rparr> in
                     case spiffe_validate (bc_spiffe c2) of
                       Some e \<Rightarrow> Inl e
                     | None \<Rightarrow>
                         (case bc_tls_bridge c2 of
                            None \<Rightarrow> Inr c2
                          | Some b \<Rightarrow>
                              (case tls_bridge_validate b of
                                 Some e \<Rightarrow> Inl e
                               | None \<Rightarrow>
                                   if tb_mode b = ''enabled''
                                   then Inr (c2\<lparr>bc_listener := (bc_listener c2)\<lparr>lc_session_api_addr :=
                                          force_localhost (lc_session_api_addr (bc_listener c2))\<rparr>\<rparr>)
                                   else Inr c2))))))"

section \<open>Presets and validation\<close>

definition or_default :: "string \<Rightarrow> string \<Rightarrow> string" where
  "or_default d s = (if s = '''' then d else s)"

definition apply_preset :: "bridge_config \<Rightarrow> bridge_config" where
  "apply_preset c =
     (let l = bc_listener c;
          l1 = (if bc_mode c = ''envoy-sidecar'' then l\<lparr>lc_ext_proc_addr := or_default '':9090'' (lc_ext_proc_addr l)\<rparr>
                else if bc_mode c = ''waypoint''
                then l\<lparr>lc_ext_authz_addr := or_default '':9090'' (lc_ext_authz_addr l),
                       lc_forward_proxy_addr := or_default '':8080'' (lc_forward_proxy_addr l)\<rparr>
                else if bc_mode c = ''proxy-sidecar''
                then l\<lparr>lc_reverse_proxy_addr := or_default '':8080'' (lc_reverse_proxy_addr l),
                       lc_forward_proxy_addr := or_default '':8081'' (lc_forward_proxy_addr l),
                       lc_transparent_proxy_addr := or_default '':8082'' (lc_transparent_proxy_addr l)\<rparr>
                else l)
      in c\<lparr>bc_listener := l1\<lparr>lc_session_api_addr := or_default '':9094'' (lc_session_api_addr l1)\<rparr>\<rparr>)"

definition validate_listeners :: "bridge_config \<Rightarrow> config_error option" where
  "validate_listeners c =
     (let l = bc_listener c; m = bc_mode c in
      if m = ''envoy-sidecar'' then
        (if lc_reverse_proxy_addr l \<noteq> '''' then Some (UnsupportedListener m ''reverse_proxy_addr'')
         else if lc_ext_authz_addr l \<noteq> '''' then Some (UnsupportedListener m ''ext_authz_addr'') else None)
      else if m = ''waypoint'' then
        (if lc_ext_proc_addr l \<noteq> '''' then Some (UnsupportedListener m ''ext_proc_addr'')
         else if lc_reverse_proxy_addr l \<noteq> '''' then Some (UnsupportedListener m ''reverse_proxy_addr'') else None)
      else if m = ''proxy-sidecar'' then
        (if lc_ext_proc_addr l \<noteq> '''' then Some (UnsupportedListener m ''ext_proc_addr'')
         else if lc_ext_authz_addr l \<noteq> '''' then Some (UnsupportedListener m ''ext_authz_addr'')
         else if lc_reverse_proxy_backend l = '''' then Some BackendRequired else None)
      else None)"

definition config_validate :: "bridge_config \<Rightarrow> config_error option" where
  "config_validate c =
     (if bc_mode c \<in> {''envoy-sidecar'', ''waypoint'', ''proxy-sidecar''} then validate_listeners c
      else if bc_mode c = '''' then Some ModeRequired else Some (UnknownMode (bc_mode c)))"

text \<open>The part of \<^verbatim>\<open>buildPipelines\<close> of \<^verbatim>\<open>authbridge-proxy\<close> before the plugins.\<close>
definition proxy_boot_config ::
  "(string, string) gomap \<Rightarrow> (string \<Rightarrow> string + bridge_config) \<Rightarrow> string + string \<Rightarrow> config_error + bridge_config" where
  "proxy_boot_config env parse file =
     (case load_config env parse file of
        Inl e \<Rightarrow> Inl e
      | Inr c \<Rightarrow>
          if bc_mode c \<noteq> '''' \<and> bc_mode c \<noteq> ''proxy-sidecar'' then Inl (WrongBinary (bc_mode c))
          else let c1 = apply_preset (c\<lparr>bc_mode := ''proxy-sidecar''\<rparr>) in
               case config_validate c1 of Some e \<Rightarrow> Inl e | None \<Rightarrow> Inr c1)"

section \<open>Hot reload\<close>

record reload_status =
  rs_last_attempt :: time
  rs_last_success :: time
  rs_last_error :: string
  rs_reloads_ok :: nat
  rs_reloads_failed :: nat
  rs_active_sha :: string

text \<open>A reloader with the two holders it swaps; \<^verbatim>\<open>rl_draining\<close> are the replaced
  pipelines that are not stopped yet.\<close>
record 'w reloader =
  rl_inbound :: "'w holder"
  rl_outbound :: "'w holder"
  rl_status :: reload_status
  rl_active_cfg :: bridge_config
  rl_last_hash :: string
  rl_draining :: "'w pipeline list"

definition record_failure :: "time \<Rightarrow> string \<Rightarrow> 'w reloader \<Rightarrow> 'w reloader" where
  "record_failure attempt err r =
     r\<lparr>rl_status := (rl_status r)\<lparr>rs_last_attempt := attempt, rs_last_error := err,
        rs_reloads_failed := Suc (rs_reloads_failed (rl_status r))\<rparr>\<rparr>"

definition record_success :: "time \<Rightarrow> string \<Rightarrow> 'w reloader \<Rightarrow> 'w reloader" where
  "record_success attempt hash r =
     r\<lparr>rl_status := (rl_status r)\<lparr>rs_last_attempt := attempt, rs_last_success := attempt, rs_last_error := '''',
        rs_reloads_ok := Suc (rs_reloads_ok (rl_status r)), rs_active_sha := hash\<rparr>\<rparr>"

definition validate_reloadable :: "bridge_config \<Rightarrow> bridge_config \<Rightarrow> bool" where
  "validate_reloadable active next = (bc_mode active = bc_mode next \<and> bc_listener active = bc_listener next)"

text \<open>\<^verbatim>\<open>reloadOnce\<close>: \<^verbatim>\<open>built\<close> is what the pipeline builder returns.\<close>
definition reload_once ::
  "time \<Rightarrow> string + bytes \<Rightarrow> string + ('w pipeline \<times> 'w pipeline \<times> bridge_config) \<Rightarrow> 'w reloader \<Rightarrow> 'w \<Rightarrow> 'w reloader \<times> 'w" where
  "reload_once attempt file built r w =
     (case file of
        Inl e \<Rightarrow> (record_failure attempt (''read: '' @ e) r, w)
      | Inr data \<Rightarrow>
          (let hash = hex_encode (sha256 data) in
           if hash = rl_last_hash r then (r, w)
           else case built of
               Inl e \<Rightarrow> (record_failure attempt (''build: '' @ e) r, w)
             | Inr (new_in, new_out, new_cfg) \<Rightarrow>
                 if \<not> validate_reloadable (rl_active_cfg r) new_cfg
                 then (record_failure attempt ''unreloadable field changed, pod restart required'' r, w)
                 else (case start new_in w of
                     (Some (n, e), w1) \<Rightarrow> (record_failure attempt (''inbound Start: '' @ e) r, w1)
                   | (None, w1) \<Rightarrow>
                       (case start new_out w1 of
                          (Some (n, e), w2) \<Rightarrow> (record_failure attempt (''outbound Start: '' @ e) r, stop new_in w2)
                        | (None, w2) \<Rightarrow>
                            (record_success attempt hash
                               (r\<lparr>rl_inbound := holder_store new_in (rl_inbound r), rl_outbound := holder_store new_out (rl_outbound r),
                                  rl_active_cfg := new_cfg, rl_last_hash := hash,
                                  rl_draining := rl_draining r @ [h_pipeline (rl_inbound r), h_pipeline (rl_outbound r)]\<rparr>), w2)))))"

text \<open>The end of a drain window: the next replaced pair is stopped.\<close>
definition drain_once :: "'w reloader \<Rightarrow> 'w \<Rightarrow> 'w reloader \<times> 'w" where
  "drain_once r w =
     (case rl_draining r of
        p # q # ps \<Rightarrow> (r\<lparr>rl_draining := ps\<rparr>, stop q (stop p w))
      | _ \<Rightarrow> (r, w))"

section \<open>Specification and sample inputs\<close>

text \<open>What a booted configuration is: the mode of the binary, an address for every listener it starts and none
  for the others, a backend, and blocks that their own validators accept.\<close>
definition wf_proxy_config :: "bridge_config \<Rightarrow> bool" where
  "wf_proxy_config c \<longleftrightarrow> bc_mode c = ''proxy-sidecar'' \<and> bc_stats_address c \<noteq> '''' \<and>
     lc_ext_proc_addr (bc_listener c) = '''' \<and> lc_ext_authz_addr (bc_listener c) = '''' \<and>
     (\<forall>f \<in> {lc_reverse_proxy_addr, lc_reverse_proxy_backend, lc_forward_proxy_addr, lc_transparent_proxy_addr, lc_session_api_addr}.
        f (bc_listener c) \<noteq> '''') \<and>
     mtls_resolved_mode (bc_mtls c) \<in> {''permissive'', ''strict''} \<and>
     (\<forall>s. bc_spiffe c = Some s \<longrightarrow> has_prefix (sb_socket s) ''unix://'' \<and> sb_mirror_files s \<noteq> None \<and> sb_mirror_dir s \<noteq> '''') \<and>
     (\<forall>b. bc_tls_bridge c = Some b \<longrightarrow> tb_mode b \<in> {'''', ''disabled'', ''enabled''} \<and>
        (tb_mode b = ''enabled'' \<longrightarrow> tb_ca_dir b \<noteq> '''') \<and> (\<forall>p \<in> set (tb_ports b). 1 \<le> p \<and> p \<le> 65535))"

definition sample_parse :: "string \<Rightarrow> string + bridge_config" where
  "sample_parse text = Inr \<lparr>bc_mode = '''', bc_listener = \<lparr>lc_ext_proc_addr = '''', lc_ext_authz_addr = '''', lc_forward_proxy_addr = '''',
       lc_reverse_proxy_addr = '''', lc_reverse_proxy_backend = text, lc_transparent_proxy_addr = '''', lc_session_api_addr = '''',
       lc_skip_hosts = []\<rparr>, bc_inbound = [], bc_outbound = [],
     bc_session = \<lparr>ss_enabled = None, ss_ttl = '''', ss_max_events = 0, ss_max_sessions = 0\<rparr>, bc_stats_address = '''', bc_mtls = None,
     bc_spiffe = None, bc_tls_bridge = Some \<lparr>tb_mode = ''enabled'', tb_ca_dir = ''/ca'', tb_upstream_ca_bundle = '''',
       tb_passthrough_hosts = [], tb_ports = [443]\<rparr>\<rparr>"

text \<open>The live pair of pipelines with its configuration.\<close>
definition live :: "'w reloader \<Rightarrow> 'w pipeline \<times> 'w pipeline \<times> bridge_config" where
  "live r = (h_pipeline (rl_inbound r), h_pipeline (rl_outbound r), rl_active_cfg r)"

text \<open>Runs of a reloader, with the triples that the builder returned during the run and the number of swaps.\<close>
inductive reload_run :: "'w reloader \<Rightarrow> ('w pipeline \<times> 'w pipeline \<times> bridge_config) set \<Rightarrow> 'w reloader \<Rightarrow> bool" for r0 where
  init: "reload_run r0 {live r0} r0"
| reload: "reload_run r0 B r \<Longrightarrow> reload_once attempt file built r w = (r', w') \<Longrightarrow>
    reload_run r0 (case built of Inr b \<Rightarrow> insert b B | Inl _ \<Rightarrow> B) r'"
| drain: "reload_run r0 B r \<Longrightarrow> drain_once r w = (r', w') \<Longrightarrow> reload_run r0 B r'"

text \<open>A run with one swap: the builder gives an outbound pipeline of one plugin.\<close>
definition sample_reloader :: "unit reloader" where
  "sample_reloader = \<lparr>rl_inbound = \<lparr>h_pipeline = chain [] []\<rparr>, rl_outbound = \<lparr>h_pipeline = chain [] []\<rparr>,
     rl_status = \<lparr>rs_last_attempt = 0, rs_last_success = 0, rs_last_error = '''', rs_reloads_ok = 0, rs_reloads_failed = 0, rs_active_sha = ''''\<rparr>,
     rl_active_cfg = projr (sample_parse ''''), rl_last_hash = '''', rl_draining = []\<rparr>"

definition sample_build :: "string + (unit pipeline \<times> unit pipeline \<times> bridge_config)" where
  "sample_build = Inr (chain [] [], chain [pass_plugin ''a''] [], projr (sample_parse ''''))"

definition sample_reloaded :: "unit reloader" where
  "sample_reloaded = fst (reload_once 1 (Inr ''x'') sample_build sample_reloader ())"

section \<open>Lemmas\<close>

subsection \<open>Booting\<close>

lemma mtls_validate_None: "mtls_validate m = None \<longleftrightarrow> mtls_resolved_mode m \<in> {''permissive'', ''strict''}"
  by (auto simp: mtls_validate_def mtls_resolved_mode_def split: option.splits)

lemma tls_bridge_validate_None:
  "tls_bridge_validate b = None \<longleftrightarrow> tb_mode b \<in> {'''', ''disabled'', ''enabled''} \<and>
     (tb_mode b = ''enabled'' \<longrightarrow> tb_ca_dir b \<noteq> '''') \<and> (\<forall>p \<in> set (tb_ports b). 1 \<le> p \<and> p \<le> 65535)"
proof -
  have "find (\<lambda>p. p < 1 \<or> p > 65535) ps = None \<longleftrightarrow> (\<forall>p \<in> set ps. 1 \<le> p \<and> p \<le> (65535 :: int))" for ps
    by (auto simp: find_None_iff not_less)
  then show ?thesis by (auto simp: tls_bridge_validate_def)
qed

lemma load_config_parsed:
  assumes "load_config env parse file = Inr c"
  shows "\<exists>doc c0. file = Inr doc \<and> parse (expand_env env doc) = Inr c0"
  using assms by (auto simp: load_config_def split: sum.splits)

lemma load_config_Inr:
  assumes "load_config env parse (Inr doc) = Inr c" "parse (expand_env env doc) = Inr c0"
  shows "bc_mode c = bc_mode c0" "bc_stats_address c = (if bc_stats_address c0 = '''' then '':9093'' else bc_stats_address c0)"
    "bc_mtls c = bc_mtls c0" "mtls_validate (bc_mtls c0) = None" "bc_spiffe c = map_option spiffe_defaults (bc_spiffe c0)"
    "spiffe_validate (bc_spiffe c) = None" "bc_tls_bridge c = bc_tls_bridge c0"
    "\<And>b. bc_tls_bridge c0 = Some b \<Longrightarrow> tls_bridge_validate b = None"
    "bc_listener c = (if map_option tb_mode (bc_tls_bridge c0) = Some ''enabled''
       then (bc_listener c0)\<lparr>lc_session_api_addr := force_localhost (lc_session_api_addr (bc_listener c0))\<rparr> else bc_listener c0)"
  using assms by (auto simp: load_config_def Let_def split: option.splits if_splits)

lemma apply_preset_simps [simp]:
  "bc_mode (apply_preset c) = bc_mode c" "bc_stats_address (apply_preset c) = bc_stats_address c"
  "bc_mtls (apply_preset c) = bc_mtls c" "bc_spiffe (apply_preset c) = bc_spiffe c"
  "bc_tls_bridge (apply_preset c) = bc_tls_bridge c"
  "lc_session_api_addr (bc_listener (apply_preset c)) = or_default '':9094'' (lc_session_api_addr (bc_listener c))"
  by (simp_all add: apply_preset_def Let_def)

lemma or_default_nonempty [simp]: "d \<noteq> '''' \<Longrightarrow> or_default d s \<noteq> ''''"
  by (simp add: or_default_def)

lemma apply_preset_proxy:
  assumes "bc_mode c = ''proxy-sidecar''"
  shows "bc_listener (apply_preset c) = (bc_listener c)
    \<lparr>lc_reverse_proxy_addr := or_default '':8080'' (lc_reverse_proxy_addr (bc_listener c)),
     lc_forward_proxy_addr := or_default '':8081'' (lc_forward_proxy_addr (bc_listener c)),
     lc_transparent_proxy_addr := or_default '':8082'' (lc_transparent_proxy_addr (bc_listener c)),
     lc_session_api_addr := or_default '':9094'' (lc_session_api_addr (bc_listener c))\<rparr>"
  using assms by (simp add: apply_preset_def Let_def)

lemma proxy_boot_config_Inr:
  assumes "proxy_boot_config env parse file = Inr c"
  obtains c1 where "load_config env parse file = Inr c1" "c = apply_preset (c1\<lparr>bc_mode := ''proxy-sidecar''\<rparr>)"
    "config_validate c = None" "bc_mode c1 \<in> {'''', ''proxy-sidecar''}"
  using assms unfolding proxy_boot_config_def Let_def by (auto split: sum.splits option.splits if_splits)

text \<open>Claim C35. A configuration that the proxy boots from is well formed whatever the file held: the mode is the
  one of the binary, every listener it starts has an address and the Envoy listeners have none, the backend is set,
  the mTLS mode is permissive or strict, the SPIFFE socket is a Unix socket with its mirror settings filled in, and an
  enabled TLS bridge has a CA directory and ports in 1..65535.\<close>
theorem booted_config_wf:
  assumes "proxy_boot_config env parse file = Inr c"
  shows "wf_proxy_config c"
proof -
  obtain c1 where c1: "load_config env parse file = Inr c1" "c = apply_preset (c1\<lparr>bc_mode := ''proxy-sidecar''\<rparr>)" "config_validate c = None"
    using assms by (rule proxy_boot_config_Inr)
  obtain doc c0 where d: "file = Inr doc" "parse (expand_env env doc) = Inr c0"
    using load_config_parsed [OF c1(1)] by blast
  note c0 = load_config_Inr [OF c1(1) [unfolded d(1)] d(2)]
  have v: "validate_listeners c = None" "bc_mode c = ''proxy-sidecar''"
    using c1(3) by (simp_all add: config_validate_def c1(2))
  have l: "lc_ext_proc_addr (bc_listener c) = ''''" "lc_ext_authz_addr (bc_listener c) = ''''" "lc_reverse_proxy_backend (bc_listener c) \<noteq> ''''"
    using v by (auto simp: validate_listeners_def Let_def split: if_splits)
  have a: "lc_reverse_proxy_addr (bc_listener c) \<noteq> ''''" "lc_forward_proxy_addr (bc_listener c) \<noteq> ''''"
    "lc_transparent_proxy_addr (bc_listener c) \<noteq> ''''" "lc_session_api_addr (bc_listener c) \<noteq> ''''"
    by (simp_all add: c1(2) apply_preset_proxy)
  have s: "has_prefix (sb_socket s) ''unix://'' \<and> sb_mirror_files s \<noteq> None \<and> sb_mirror_dir s \<noteq> ''''" if "bc_spiffe c1 = Some s" for s
    using that c0(5,6) by (auto simp: spiffe_validate_def spiffe_defaults_def split: option.splits if_splits)
  show ?thesis
    unfolding wf_proxy_config_def using v(2) l a s c0 mtls_validate_None tls_bridge_validate_None
    by (simp add: c1(2))
qed

text \<open>The samples boot.\<close>
lemma sample_boot: "\<exists>c. proxy_boot_config [] sample_parse (Inr ''http://127.0.0.1:9000'') = Inr c"
proof -
  have "expand_env [] ''http://127.0.0.1:9000'' = ''http://127.0.0.1:9000''" by code_simp
  then show ?thesis
    by (simp add: proxy_boot_config_def load_config_def sample_parse_def mtls_validate_def spiffe_validate_def tls_bridge_validate_def
        force_localhost_def Let_def apply_preset_def config_validate_def validate_listeners_def)
qed

theorem booted_config_wf_witness:
  "\<exists>c. proxy_boot_config [] sample_parse (Inr ''http://127.0.0.1:9000'') = Inr c \<and> wf_proxy_config c"
  using booted_config_wf [of "[]" sample_parse "Inr ''http://127.0.0.1:9000''"] sample_boot by blast

text \<open>Claim C37. The rule that a process with an enabled TLS bridge binds its session API to the loopback interface
  does not cover the default address: a configured address is rewritten to 127.0.0.1, but when none is configured
  the preset, which runs after the rewriting, leaves the API on port 9094 of every interface.\<close>
theorem bridged_session_api_address:
  assumes "proxy_boot_config env parse (Inr text) = Inr c" "parse (expand_env env text) = Inr c0"
    and "bc_tls_bridge c0 = Some b" "tb_mode b = ''enabled''"
  shows "lc_session_api_addr (bc_listener c) =
    (if lc_session_api_addr (bc_listener c0) = '''' then '':9094''
     else case split_host_port (lc_session_api_addr (bc_listener c0)) of
       None \<Rightarrow> lc_session_api_addr (bc_listener c0) | Some (_, port) \<Rightarrow> ''127.0.0.1:'' @ port)"
proof -
  obtain c1 where c1: "load_config env parse (Inr text) = Inr c1" "c = apply_preset (c1\<lparr>bc_mode := ''proxy-sidecar''\<rparr>)"
    using assms(1) by (rule proxy_boot_config_Inr)
  have "bc_listener c1 = (bc_listener c0)\<lparr>lc_session_api_addr := force_localhost (lc_session_api_addr (bc_listener c0))\<rparr>"
    using load_config_Inr(9) [OF c1(1) assms(2)] assms(3,4) by simp
  then show ?thesis
    by (auto simp: c1(2) or_default_def force_localhost_def split: option.splits)
qed

theorem bridged_session_api_address_witness:
  "\<exists>c. proxy_boot_config [] sample_parse (Inr ''http://127.0.0.1:9000'') = Inr c \<and> lc_session_api_addr (bc_listener c) = '':9094''"
  using sample_boot bridged_session_api_address [of "[]" sample_parse "''http://127.0.0.1:9000''"]
  by (fastforce simp: sample_parse_def)

subsection \<open>Reloading\<close>

lemma reload_once_cases:
  assumes "reload_once attempt file built r w = (r', w')"
  obtains (kept) "live r' = live r" "rl_draining r' = rl_draining r" "rs_reloads_ok (rl_status r') = rs_reloads_ok (rl_status r)"
  | (swapped) new_in new_out cfg where "built = Inr (new_in, new_out, cfg)" "validate_reloadable (rl_active_cfg r) cfg"
      "live r' = (new_in, new_out, cfg)" "rs_reloads_ok (rl_status r') = Suc (rs_reloads_ok (rl_status r))"
      "rl_draining r' = rl_draining r @ [h_pipeline (rl_inbound r), h_pipeline (rl_outbound r)]"
  using assms unfolding reload_once_def Let_def record_failure_def record_success_def
  by (auto simp: live_def holder_store_def split: sum.splits prod.splits option.splits if_splits)

lemma drain_once_fields:
  assumes "drain_once r w = (r', w')"
  shows "live r' = live r" "rl_status r' = rl_status r" "rl_last_hash r' = rl_last_hash r"
    "length (rl_draining r) = Suc (Suc n) \<Longrightarrow> length (rl_draining r') = n"
    "even (length (rl_draining r)) \<Longrightarrow> even (length (rl_draining r'))"
  using assms by (auto simp: drain_once_def live_def split: list.splits)


lemma reload_once_draining:
  assumes "reload_once attempt f built r w = (r', w')"
  shows "even (length (rl_draining r')) = even (length (rl_draining r))"
  using assms by (cases rule: reload_once_cases) auto

lemma drain_all:
  "length (rl_draining r) = 2 * n \<Longrightarrow>
   ((\<lambda>(r, w). drain_once r w) ^^ n) (r, w) = (r\<lparr>rl_draining := []\<rparr>, fold stop (rl_draining r) w)"
proof (induction n arbitrary: r w)
  case (Suc n)
  then obtain p q ps where ps: "rl_draining r = p # q # ps"
    by (cases "rl_draining r"; cases "tl (rl_draining r)") auto
  then have "drain_once r w = (r\<lparr>rl_draining := ps\<rparr>, stop q (stop p w))" by (simp add: drain_once_def)
  then show ?case using Suc.IH [of "r\<lparr>rl_draining := ps\<rparr>" "stop q (stop p w)"] Suc.prems ps
    by (simp add: funpow_swap1)
qed simp


lemma sample_reload:
  "reload_run sample_reloader {(chain [] [], chain [pass_plugin ''a''] [], projr (sample_parse '''')), live sample_reloader} sample_reloaded"
proof -
  have "reload_once 1 (Inr ''x'') sample_build sample_reloader () = (sample_reloaded, ())"
    by (simp add: sample_reloaded_def prod_eq_iff)
  from reload_run.reload [OF reload_run.init this] show ?thesis by (simp add: sample_build_def)
qed



end
