(* ===== verification/Card_Json.thy ===== *)
theory Card_Json
  imports Sha256 "HOL-Library.List_Lexorder" "HOL-Library.Char_ord"
begin

text \<open>
  The content of an agent card (\<^verbatim>\<open>api/v1alpha1/agentcard_types.go\<close>) and the bytes that its signature covers:
  JSON without insignificant space, with sorted keys, without empty values and without the signatures
  (\<^verbatim>\<open>internal/signature/verifier.go\<close>), with the string encoder of \<^verbatim>\<open>encoding/json\<close>.

  The nested parts of a card (provider, capabilities, skills) are only ever handed to the encoder; a card holds them
  as the values they are encoded to.  Numbers occur in the parameters of extensions only and are the integers that
  a float64 holds exactly.
\<close>

section \<open>Strings in JSON\<close>

text \<open>The length of the UTF-8 sequence at the start of a string, 0 when there is none
  (\<^verbatim>\<open>utf8.DecodeRune\<close>).\<close>
fun rune_len :: "nat list \<Rightarrow> nat" where
  "rune_len [] = 0"
| "rune_len (a # s) =
     (if a < 0x80 then 1
      else let cont = (\<lambda>b. 0x80 \<le> b \<and> b \<le> (0xBF :: nat)) in
        case s of
          [] \<Rightarrow> 0
        | b # t \<Rightarrow>
            if 0xC2 \<le> a \<and> a \<le> 0xDF then (if cont b then 2 else 0)
            else (case t of
                [] \<Rightarrow> 0
              | c # u \<Rightarrow>
                  if 0xE0 \<le> a \<and> a \<le> 0xEF then
                    (if cont b \<and> cont c \<and> (a = 0xE0 \<longrightarrow> 0xA0 \<le> b) \<and> (a = 0xED \<longrightarrow> b \<le> 0x9F) then 3 else 0)
                  else if 0xF0 \<le> a \<and> a \<le> 0xF4 then
                    (case u of
                       [] \<Rightarrow> 0
                     | d # _ \<Rightarrow> if cont b \<and> cont c \<and> cont d \<and> (a = 0xF0 \<longrightarrow> 0x90 \<le> b) \<and> (a = 0xF4 \<longrightarrow> b \<le> 0x8F)
                               then 4 else 0)
                  else 0))"

text \<open>How the encoder writes one ASCII character.\<close>
definition escape_char :: "char \<Rightarrow> string" where
  "escape_char c = (let n = (of_char c :: nat) in
     if n = 0x22 \<or> n = 0x5C then [CHR 0x5C, c]
     else if n = 0x08 then [CHR 0x5C, CHR ''b'']
     else if n = 0x0C then [CHR 0x5C, CHR ''f'']
     else if n = 0x0A then [CHR 0x5C, CHR ''n'']
     else if n = 0x0D then [CHR 0x5C, CHR ''r'']
     else if n = 0x09 then [CHR 0x5C, CHR ''t'']
     else if n < 0x20 \<or> n = 0x3C \<or> n = 0x3E \<or> n = 0x26 then
       [CHR 0x5C, CHR ''u'', CHR ''0'', CHR ''0'', hex_digit (n div 16), hex_digit (n mod 16)]
     else [c])"

text \<open>The two line separators above ASCII that are escaped too.\<close>
definition is_line_separator :: "string \<Rightarrow> bool" where
  "is_line_separator r \<longleftrightarrow> r = [CHR 0xE2, CHR 0x80, CHR 0xA8] \<or> r = [CHR 0xE2, CHR 0x80, CHR 0xA9]"

definition escape_rune :: "string \<Rightarrow> string" where
  "escape_rune r =
     (case r of
        [c] \<Rightarrow> escape_char c
      | _ \<Rightarrow> if is_line_separator r then [CHR 0x5C, CHR ''u'', CHR ''2'', CHR ''0'', CHR ''2''] @ (if r ! 2 = CHR 0xA8 then ''8'' else ''9'')
            else r)"

text \<open>A byte that starts no UTF-8 sequence is replaced.\<close>
function json_escape :: "string \<Rightarrow> string" where
  "json_escape s =
     (if s = [] then []
      else let n = rune_len (map of_char s) in
        if n = 0 then CHR 0x5C # ''ufffd'' @ json_escape (drop 1 s)
        else escape_rune (take n s) @ json_escape (drop n s))"
  by pat_completeness auto
termination
  by (relation "measure length") auto

declare json_escape.simps [simp del]

definition json_string :: "string \<Rightarrow> string" where
  "json_string s = CHR 0x22 # json_escape s @ [CHR 0x22]"

definition json_int :: "int \<Rightarrow> string" where
  "json_int i = (if i < 0 then CHR ''-'' # itoa (nat (- i)) else itoa (nat i))"

section \<open>Agent cards\<close>

record agent_card_signature =
  sg_protected :: string
  sg_signature :: string
  sg_timestamp :: "string option"

record agent_card_data =
  cd_name :: string
  cd_description :: string
  cd_version :: string
  cd_url :: string
  cd_documentation_url :: string
  cd_icon_url :: string
  cd_provider :: "json option"
  cd_capabilities :: "json option"
  cd_default_input_modes :: "string list"
  cd_default_output_modes :: "string list"
  cd_skills :: "json list"
  cd_supports_extended :: "bool option"
  cd_signatures :: "agent_card_signature list"

definition signature_json :: "agent_card_signature \<Rightarrow> json" where
  "signature_json g = JObj ([(''protected'', JStr (sg_protected g)), (''signature'', JStr (sg_signature g))] @
     (case sg_timestamp g of
        None \<Rightarrow> []
      | Some t \<Rightarrow> [(''header'', JObj (if t = [] then [] else [(''timestamp'', JStr t)]))]))"

text \<open>The fields that the encoder writes: all are marked \<^verbatim>\<open>omitempty\<close>.\<close>
definition card_json :: "agent_card_data \<Rightarrow> (string, json) gomap" where
  "card_json c =
     (let str = (\<lambda>k s. if s = [] then [] else [(k, JStr s)]);
          ptr = (\<lambda>k v. case v of None \<Rightarrow> [] | Some j \<Rightarrow> [(k, j)]);
          slice = (\<lambda>k js. if js = [] then [] else [(k, JArr js)]) in
      str ''name'' (cd_name c) @ str ''description'' (cd_description c) @ str ''version'' (cd_version c) @
      str ''url'' (cd_url c) @ str ''documentationUrl'' (cd_documentation_url c) @ str ''iconUrl'' (cd_icon_url c) @
      ptr ''provider'' (cd_provider c) @ ptr ''capabilities'' (cd_capabilities c) @
      slice ''defaultInputModes'' (map JStr (cd_default_input_modes c)) @
      slice ''defaultOutputModes'' (map JStr (cd_default_output_modes c)) @
      slice ''skills'' (cd_skills c) @
      ptr ''supportsAuthenticatedExtendedCard'' (map_option JBool (cd_supports_extended c)) @
      slice ''signatures'' (map signature_json (cd_signatures c)))"

section \<open>Canonical JSON\<close>

text \<open>\<^verbatim>\<open>removeEmptyFields\<close> with its loops over a map and over an array; a value that becomes None is dropped.  An
  array inside an array is kept as it is.\<close>
fun remove_empty_value :: "json \<Rightarrow> json option"
  and remove_empty_elems :: "json list \<Rightarrow> json list"
  and remove_empty_fields :: "(string \<times> json) list \<Rightarrow> (string \<times> json) list" where
  "remove_empty_value JNull = None"
| "remove_empty_value (JObj m) = (let m' = remove_empty_fields m in if m' = [] then None else Some (JObj m'))"
| "remove_empty_value (JArr xs) = (let ys = remove_empty_elems xs in if ys = [] then None else Some (JArr ys))"
| "remove_empty_value (JStr s) = (if s = [] then None else Some (JStr s))"
| "remove_empty_value (JBool b) = Some (JBool b)"
| "remove_empty_value (JNum i) = Some (JNum i)"
| "remove_empty_elems [] = []"
| "remove_empty_elems (JObj m # xs) =
     (let m' = remove_empty_fields m in if m' = [] then remove_empty_elems xs else JObj m' # remove_empty_elems xs)"
| "remove_empty_elems (JStr s # xs) = (if s = [] then remove_empty_elems xs else JStr s # remove_empty_elems xs)"
| "remove_empty_elems (JNull # xs) = remove_empty_elems xs"
| "remove_empty_elems (v # xs) = v # remove_empty_elems xs"
| "remove_empty_fields [] = []"
| "remove_empty_fields ((k, v) # m) =
     (case remove_empty_value v of None \<Rightarrow> remove_empty_fields m | Some v' \<Rightarrow> (k, v') # remove_empty_fields m)"

lemma elem_size: "x \<in> set xs \<Longrightarrow> size x < Suc (size_list size xs)"
  by (induction xs) auto

lemma field_size: "(k, v) \<in> set m \<Longrightarrow> size v < size_list (size_prod (\<lambda>_. 0) size) m"
  by (induction m) auto

text \<open>\<^verbatim>\<open>marshalValue\<close>, \<^verbatim>\<open>marshalArray\<close> and \<^verbatim>\<open>marshalCanonical\<close>.\<close>
function marshal_value :: "json \<Rightarrow> string"
  and marshal_array :: "json list \<Rightarrow> string"
  and marshal_canonical :: "(string \<times> json) list \<Rightarrow> string" where
  "marshal_value (JObj m) = marshal_canonical m"
| "marshal_value JNull = ''null''"
| "marshal_value (JBool b) = (if b then ''true'' else ''false'')"
| "marshal_value (JStr s) = json_string s"
| "marshal_value (JNum i) = json_int i"
| "marshal_value (JArr xs) = marshal_array xs"
| "marshal_array xs = CHR ''['' # join_with '','' (map marshal_value xs) @ '']''"
| "marshal_canonical m =
     CHR ''{'' # join_with '','' (map (\<lambda>(k, v). json_string k @ '':'' @ marshal_value v) (sort_key fst m)) @ ''}''"
  by pat_completeness auto
termination
  by (relation "measure (\<lambda>x. case x of Inl v \<Rightarrow> 2 * size v | Inr (Inl xs) \<Rightarrow> 2 * size_list size xs + 1
       | Inr (Inr m) \<Rightarrow> 2 * size_list (size_prod (\<lambda>_. 0) size) m + 1)")
    (auto dest: field_size elem_size)

definition create_canonical_card_json :: "agent_card_data \<Rightarrow> bytes" where
  "create_canonical_card_json c = marshal_canonical (remove_empty_fields (gm_del ''signatures'' (card_json c)))"

section \<open>Specification\<close>

text \<open>Strings of Unicode text.\<close>
function utf8_ok :: "string \<Rightarrow> bool" where
  "utf8_ok s = (if s = [] then True
     else let n = rune_len (map of_char s) in if n = 0 then False else utf8_ok (drop n s))"
  by pat_completeness auto
termination
  by (relation "measure length") auto

declare utf8_ok.simps [simp del]

text \<open>JSON values as the decoder builds them: text, and no key twice.\<close>
fun json_ok :: "json \<Rightarrow> bool" where
  "json_ok (JStr s) = utf8_ok s"
| "json_ok (JArr xs) = list_all json_ok xs"
| "json_ok (JObj m) = (distinct (map fst m) \<and> list_all (\<lambda>p. utf8_ok (fst p) \<and> json_ok (snd p)) m)"
| "json_ok _ = True"

text \<open>A value with the order of its fields forgotten.\<close>
fun json_norm :: "json \<Rightarrow> json" where
  "json_norm (JArr xs) = JArr (map json_norm xs)"
| "json_norm (JObj m) = JObj (sort_key fst (map (\<lambda>p. (fst p, json_norm (snd p))) m))"
| "json_norm v = v"

definition card_ok :: "agent_card_data \<Rightarrow> bool" where
  "card_ok c \<longleftrightarrow> json_ok (JObj (card_json c))"

text \<open>What a signature is to cover.\<close>
definition signed_fields :: "agent_card_data \<Rightarrow> (string \<times> json) list" where
  "signed_fields c = remove_empty_fields (gm_del ''signatures'' (card_json c))"

definition signed_content :: "agent_card_data \<Rightarrow> json" where
  "signed_content c = json_norm (JObj (signed_fields c))"

text \<open>Reading a string up to its closing quote.\<close>
definition read_code :: "string \<Rightarrow> string" where
  "read_code h =
     (if h = ''2028'' then [CHR 0xE2, CHR 0x80, CHR 0xA8]
      else if h = ''2029'' then [CHR 0xE2, CHR 0x80, CHR 0xA9]
      else let v = (\<lambda>c. let n = (of_char c :: nat) in if n < 58 then n - 48 else n - 87) in
        [char_of (16 * v (h ! 2) + v (h ! 3))])"

definition read_escape :: "char \<Rightarrow> char" where
  "read_escape c = (case map_of (zip ''bfnrt'' [CHR 0x08, CHR 0x0C, CHR 0x0A, CHR 0x0D, CHR 0x09]) c of
     Some d \<Rightarrow> d | None \<Rightarrow> c)"

fun json_unquote :: "string \<Rightarrow> (string \<times> string) option" where
  "json_unquote [] = None"
| "json_unquote (c # s) =
     (if c = CHR 0x22 then Some ([], s)
      else if c \<noteq> CHR 0x5C then map_option (apfst ((@) [c])) (json_unquote s)
      else (case s of
          [] \<Rightarrow> None
        | d # t \<Rightarrow>
            if d = CHR ''u'' then map_option (apfst ((@) (read_code (take 4 t)))) (json_unquote (drop 4 t))
            else map_option (apfst ((@) [read_escape d])) (json_unquote t)))"

text \<open>A signed card with an empty tag.\<close>
definition sample_card :: agent_card_data where
  "sample_card = \<lparr>cd_name = ''a'', cd_description = ''<'', cd_version = [], cd_url = [],
     cd_documentation_url = [], cd_icon_url = [], cd_provider = None, cd_capabilities = Some (JObj []),
     cd_default_input_modes = [], cd_default_output_modes = [],
     cd_skills = [JObj [(''id'', JStr ''s''), (''tags'', JArr [JStr []])]], cd_supports_extended = None,
     cd_signatures = [\<lparr>sg_protected = ''h'', sg_signature = ''s'', sg_timestamp = None\<rparr>]\<rparr>"

text \<open>The first character tells the kind of a value.\<close>
definition value_start :: "json \<Rightarrow> char \<Rightarrow> bool" where
  "value_start v c = (case v of
      JNull \<Rightarrow> c = CHR ''n''
    | JBool b \<Rightarrow> c = (if b then CHR ''t'' else CHR ''f'')
    | JNum _ \<Rightarrow> c = CHR ''-'' \<or> is_digit c
    | JStr _ \<Rightarrow> c = CHR 0x22
    | JArr _ \<Rightarrow> c = CHR ''[''
    | JObj _ \<Rightarrow> c = CHR ''{'')"

text \<open>What may follow a number.\<close>
abbreviation stops :: "string \<Rightarrow> bool" where
  "stops r \<equiv> r = [] \<or> \<not> is_digit (hd r)"

text \<open>Lists of items that are each determined by their text are determined by the joined text.\<close>
definition reads_back :: "('a \<Rightarrow> string) \<Rightarrow> ('a \<Rightarrow> 'b) \<Rightarrow> 'a \<Rightarrow> 'a \<Rightarrow> bool" where
  "reads_back enc norm x y \<longleftrightarrow> (\<forall>r r'. stops r \<longrightarrow> stops r' \<longrightarrow> enc x @ r = enc y @ r' \<longrightarrow> norm x = norm y \<and> r = r')"

abbreviation items_read_back :: "('a \<Rightarrow> string) \<Rightarrow> ('a \<Rightarrow> 'b) \<Rightarrow> 'a list \<Rightarrow> 'a list \<Rightarrow> bool" where
  "items_read_back enc norm xs ys \<equiv> (\<forall>x \<in> set xs. \<forall>y \<in> set ys. reads_back enc norm x y)"

abbreviation marshal_field :: "string \<times> json \<Rightarrow> string" where
  "marshal_field p \<equiv> json_string (fst p) @ '':'' @ marshal_value (snd p)"

abbreviation norm_field :: "string \<times> json \<Rightarrow> string \<times> json" where
  "norm_field p \<equiv> (fst p, json_norm (snd p))"

section \<open>Lemmas\<close>

lemma read_nibble:
  assumes "d < 16"
  shows "(let n = (of_char (hex_digit d) :: nat) in if n < 58 then n - 48 else n - 87) = d"
  using assms by (simp add: of_char_hex_digit)

lemma read_code_hex:
  assumes "(of_char c :: nat) < 128"
  shows "read_code [CHR ''0'', CHR ''0'', hex_digit (of_char c div 16), hex_digit (of_char c mod 16)] = [c]"
  using assms read_nibble[of "of_char c div 16"] read_nibble[of "of_char c mod 16"]
  by (simp add: read_code_def Let_def div_less_iff_less_mult)

lemma char_code: "c = char_of n" if "(of_char c :: nat) = n"
  using that by auto

lemma short_chars:
  "char_of (0x22 :: nat) = CHR 0x22" "char_of (0x5C :: nat) = CHR 0x5C" "char_of (0x08 :: nat) = CHR 0x08"
  "char_of (0x0C :: nat) = CHR 0x0C" "char_of (0x0A :: nat) = CHR 0x0A" "char_of (0x0D :: nat) = CHR 0x0D"
  "char_of (0x09 :: nat) = CHR 0x09"
  by code_simp+

lemma unquote_char:
  assumes "(of_char c :: nat) < 128"
  shows "json_unquote (escape_char c @ s) = map_option (apfst ((@) [c])) (json_unquote s)"
proof (cases "(of_char c :: nat) \<in> {0x22, 0x5C, 0x08, 0x0C, 0x0A, 0x0D, 0x09}")
  case True
  then have "c \<in> {CHR 0x22, CHR 0x5C, CHR 0x08, CHR 0x0C, CHR 0x0A, CHR 0x0D, CHR 0x09}"
    by (auto dest!: char_code simp: short_chars)
  then show ?thesis by (elim insertE emptyE) (simp_all add: escape_char_def read_escape_def)
next
  case short: False
  show ?thesis
  proof (cases "(of_char c :: nat) < 0x20 \<or> (of_char c :: nat) \<in> {0x3C, 0x3E, 0x26}")
    case True
    with short have "escape_char c =
        [CHR 0x5C, CHR ''u'', CHR ''0'', CHR ''0'', hex_digit (of_char c div 16), hex_digit (of_char c mod 16)]"
      by (auto simp: escape_char_def Let_def)
    with read_code_hex[OF assms] show ?thesis by simp
  next
    case False
    with short have "escape_char c = [c]" "c \<noteq> CHR 0x22" "c \<noteq> CHR 0x5C"
      by (auto simp: escape_char_def Let_def)
    then show ?thesis by simp
  qed
qed

lemma unquote_plain:
  "\<forall>c \<in> set r. (of_char c :: nat) \<ge> 128 \<Longrightarrow> json_unquote (r @ s) = map_option (apfst ((@) r)) (json_unquote s)"
proof (induction r)
  case Nil
  then show ?case by (simp add: apfst_def map_prod_def option.map_ident)
next
  case (Cons c r)
  then have "c \<noteq> CHR 0x22" "c \<noteq> CHR 0x5C" by auto
  with Cons show ?case by (simp add: option.map_comp comp_def apfst_def map_prod_def case_prod_beta)
qed

lemma rune_len_bytes:
  assumes "rune_len s = n" "n \<noteq> 1"
  shows "\<forall>x \<in> set (take n s). 128 \<le> x"
  using assms by (cases s) (auto simp: Let_def split: list.splits if_splits)

lemma rune_len_one: "rune_len (a # s) = Suc 0 \<Longrightarrow> a < 128"
  by (simp add: Let_def split: list.splits if_splits)

lemma rune_len_le: "rune_len s \<le> length s"
  by (cases s) (auto simp: Let_def split: list.splits)

declare rune_len.simps(2) [simp del]

lemma unquote_rune:
  assumes "rune_len (map of_char s) = n" "n \<noteq> 0"
  shows "json_unquote (escape_rune (take n s) @ t) = map_option (apfst ((@) (take n s))) (json_unquote t)"
proof (cases "n = 1")
  case True
  with assms obtain c s' where s: "s = c # s'" by (cases s) auto
  with assms(1) True have "(of_char c :: nat) < 128"
    by (auto dest: rune_len_one)
  with True s show ?thesis by (simp add: escape_rune_def unquote_char)
next
  case False
  have len: "length (take n s) = n" using rune_len_le[of "map of_char s"] assms(1) by simp
  have high: "\<forall>c \<in> set (take n s). (of_char c :: nat) \<ge> 128"
    using rune_len_bytes[OF assms(1) False] by (simp add: take_map)
  show ?thesis
  proof (cases "is_line_separator (take n s)")
    case True
    then consider "take n s = [CHR 0xE2, CHR 0x80, CHR 0xA8]" | "take n s = [CHR 0xE2, CHR 0x80, CHR 0xA9]"
      by (auto simp: is_line_separator_def)
    then show ?thesis
      by cases (simp_all add: escape_rune_def is_line_separator_def read_code_def)
  next
    case other: False
    have "length r \<noteq> 1 \<Longrightarrow> \<not> is_line_separator r \<Longrightarrow> escape_rune r = r" for r
      by (auto simp: escape_rune_def split: list.splits)
    from this[of "take n s"] have "escape_rune (take n s) = take n s"
      using len False other by simp
    with unquote_plain[OF high] show ?thesis by simp
  qed
qed

lemma unquote_escape: "utf8_ok s \<Longrightarrow> json_unquote (json_escape s @ CHR 0x22 # t) = Some (s, t)"
proof (induction s rule: json_escape.induct)
  case (1 s)
  show ?case
  proof (cases "s = []")
    case True
    then show ?thesis by (simp add: json_escape.simps)
  next
    case False
    define n where "n = rune_len (map of_char s)"
    from False 1(3) have n: "n \<noteq> 0" and ok: "utf8_ok (drop n s)"
      by (subst (asm) utf8_ok.simps; simp add: n_def Let_def split: if_splits)+
    have "json_escape s = escape_rune (take n s) @ json_escape (drop n s)"
      using False n by (subst json_escape.simps) (simp add: n_def Let_def)
    then show ?thesis
      using 1(2)[OF False n_def _ ok] n unquote_rune[OF n_def[symmetric] n, of "json_escape (drop n s) @ CHR 0x22 # t"]
      by simp
  qed
qed

lemma json_string_inj:
  assumes "utf8_ok s" "utf8_ok s'" "json_string s @ r = json_string s' @ r'"
  shows "s = s' \<and> r = r'"
proof -
  have "json_unquote (json_escape s @ CHR 0x22 # r) = json_unquote (json_escape s' @ CHR 0x22 # r')"
    using assms(3) by (simp add: json_string_def)
  with assms(1,2) show ?thesis by (simp add: unquote_escape)
qed

declare marshal_array.simps [simp del] marshal_canonical.simps [simp del]

lemma itoa_prefix:
  assumes "itoa m @ r = itoa n @ r'" "stops r" "stops r'"
  shows "m = n \<and> r = r'"
proof -
  have take: "takeWhile is_digit (itoa k @ s) = itoa k \<and> dropWhile is_digit (itoa k @ s) = s" if "stops s" for k s
    using itoa_digits[of k] that by (cases s) (auto simp: takeWhile_append dropWhile_append list_all_iff)
  show ?thesis using take[of r m] take[of r' n] assms itoa_inj by metis
qed

lemma json_int_inj:
  assumes "json_int i @ r = json_int j @ r'" "stops r" "stops r'"
  shows "i = j \<and> r = r'"
proof -
  have no: "CHR ''-'' # s \<noteq> itoa n @ t" for n s t
    using itoa_digits[of n] by (cases "itoa n") (auto simp: is_digit_def)
  consider "i < 0" "j < 0" | "i \<ge> 0" "j \<ge> 0" | "i < 0" "j \<ge> 0" | "i \<ge> 0" "j < 0" by linarith
  then show ?thesis
  proof cases
    case 1
    then have "itoa (nat (- i)) @ r = itoa (nat (- j)) @ r'" using assms(1) by (simp add: json_int_def)
    from itoa_prefix[OF this assms(2,3)] 1 show ?thesis by arith
  next
    case 2
    then have "itoa (nat i) @ r = itoa (nat j) @ r'" using assms(1) by (simp add: json_int_def)
    from itoa_prefix[OF this assms(2,3)] 2 show ?thesis by arith
  next
    case 3
    then have "CHR ''-'' # itoa (nat (- i)) @ r = itoa (nat j) @ r'" using assms(1) by (simp add: json_int_def)
    with no show ?thesis by blast
  next
    case 4
    then have "CHR ''-'' # itoa (nat (- j)) @ r' = itoa (nat i) @ r" using assms(1) by (simp add: json_int_def)
    with no show ?thesis by blast
  qed
qed

lemma marshal_start: "\<exists>c s. marshal_value v = c # s \<and> value_start v c"
proof (cases v)
  case (JNum i)
  show ?thesis
    using itoa_digits[of "nat i"] by (cases "itoa (nat i)") (auto simp: JNum json_int_def value_start_def)
qed (simp_all add: value_start_def json_string_def marshal_array.simps marshal_canonical.simps)

lemma value_start_sep: "value_start v c \<Longrightarrow> c \<noteq> CHR '','' \<and> c \<noteq> CHR '']'' \<and> c \<noteq> CHR ''}''"
  by (auto simp: value_start_def is_digit_def split: json.splits if_splits)

lemma join_with_concat: "join_with s (x # xs) = x @ concat (map (\<lambda>y. s @ y) xs)"
  by (induction xs arbitrary: x) auto

lemma reads_backD: "reads_back enc norm x y \<Longrightarrow> stops r \<Longrightarrow> stops r' \<Longrightarrow> enc x @ r = enc y @ r' \<Longrightarrow> norm x = norm y \<and> r = r'"
  unfolding reads_back_def by blast

lemma tail_inj:
  assumes "items_read_back enc norm xs ys" "close = CHR '']'' \<or> close = CHR ''}''"
    and "concat (map (\<lambda>u. '','' @ enc u) xs) @ close # r = concat (map (\<lambda>v. '','' @ enc v) ys) @ close # r'"
  shows "map norm xs = map norm ys \<and> r = r'"
  using assms
proof (induction xs arbitrary: ys)
  case Nil
  then show ?case by (cases ys) auto
next
  case (Cons x xs)
  then obtain y ys' where ys: "ys = y # ys'" by (cases ys) auto
  have st: "stops (concat (map (\<lambda>u. '','' @ enc u) ws) @ close # s)" for ws s
    using Cons.prems(2) by (cases ws) (auto simp: is_digit_def)
  have eq: "enc x @ concat (map (\<lambda>u. '','' @ enc u) xs) @ close # r = enc y @ concat (map (\<lambda>v. '','' @ enc v) ys') @ close # r'"
    using Cons.prems(3) ys by simp
  have rest: "items_read_back enc norm xs ys'" and "reads_back enc norm x y" using Cons.prems(1) ys by auto
  from reads_backD[OF this(2) st st eq] Cons.IH[OF rest Cons.prems(2)] ys show ?case by auto
qed

lemma joined_inj:
  assumes "items_read_back enc norm xs ys" "close = CHR '']'' \<or> close = CHR ''}''"
    and start: "\<forall>x \<in> set xs \<union> set ys. \<exists>c s. enc x = c # s \<and> c \<noteq> close"
    and eq: "join_with '','' (map enc xs) @ close # r = join_with '','' (map enc ys) @ close # r'"
  shows "map norm xs = map norm ys \<and> r = r'"
proof (cases "xs = [] \<or> ys = []")
  case True
  then show ?thesis using eq start by (cases xs; cases ys) (auto simp: join_with_concat)
next
  case False
  then obtain x xs' y ys' where eqs: "xs = x # xs'" "ys = y # ys'" by (meson neq_Nil_conv)
  have "concat (map (\<lambda>u. '','' @ enc u) xs) @ close # r = concat (map (\<lambda>v. '','' @ enc v) ys) @ close # r'"
    using eq by (simp add: eqs join_with_concat comp_def)
  with assms(1,2) show ?thesis by (rule tail_inj)
qed

lemma sort_key_map_snd: "sort_key fst (map (\<lambda>p. (fst p, f (snd p))) m) = map (\<lambda>p. (fst p, f (snd p))) (sort_key fst m)"
proof (induction m)
  case (Cons p m)
  have "insort_key fst (fst p, f (snd p)) (map (\<lambda>p. (fst p, f (snd p))) xs) =
      map (\<lambda>p. (fst p, f (snd p))) (insort_key fst p xs)" for xs
    by (induction xs) auto
  with Cons show ?case by simp
qed simp

lemma marshal_canonical_fields:
  "marshal_canonical m = CHR ''{'' # join_with '','' (map (\<lambda>p. json_string (fst p) @ '':'' @ marshal_value (snd p)) (sort_key fst m)) @ ''}''"
  by (simp add: marshal_canonical.simps case_prod_unfold)

lemma sort_key_sorted: "sorted (map f xs) \<Longrightarrow> sort_key f xs = xs"
  by (induction xs) (auto intro!: insort_is_Cons)

lemma sort_key_idem: "sort_key f (sort_key f m) = sort_key f m"
  by (rule sort_key_sorted) simp

lemma marshal_norm: "marshal_value (json_norm v) = marshal_value v"
proof (induction v)
  case (JArr xs)
  then show ?case by (simp add: marshal_array.simps comp_def cong: map_cong)
next
  case (JObj m)
  then have eq: "map (\<lambda>p. json_string (fst p) @ '':'' @ marshal_value (json_norm (snd p))) (sort_key fst m) =
      map (\<lambda>p. json_string (fst p) @ '':'' @ marshal_value (snd p)) (sort_key fst m)"
    by (auto simp: snds.simps)
  have "marshal_value (json_norm (JObj m)) = CHR ''{'' #
      join_with '','' (map (\<lambda>p. json_string (fst p) @ '':'' @ marshal_value (json_norm (snd p))) (sort_key fst m)) @ ''}''"
    by (simp add: marshal_canonical_fields sort_key_map_snd sort_key_idem comp_def)
  also have "\<dots> = marshal_value (JObj m)" unfolding eq by (simp add: marshal_canonical_fields)
  finally show ?case .
qed simp_all

lemma same_start: "marshal_value v @ r = marshal_value w @ r' \<Longrightarrow> \<exists>c. value_start v c \<and> value_start w c"
  using marshal_start[of v] marshal_start[of w] by auto

lemma different_start: "\<nexists>c. value_start v c \<and> value_start w c \<Longrightarrow> reads_back marshal_value json_norm v w"
  unfolding reads_back_def by (meson same_start)

lemma joined_marshal:
  assumes "items_read_back enc norm xs ys" "close = CHR '']'' \<or> close = CHR ''}''"
    and "\<And>x. \<exists>v c s. enc x = c # s \<and> value_start v c"
    and "join_with '','' (map enc xs) @ close # r = join_with '','' (map enc ys) @ close # r'"
  shows "map norm xs = map norm ys \<and> r = r'"
  using assms(1,2)
proof (rule joined_inj)
  show "\<forall>x \<in> set xs \<union> set ys. \<exists>c s. enc x = c # s \<and> c \<noteq> close"
    using assms(2,3) value_start_sep by metis
qed (rule assms(4))

lemma array_reads_back:
  assumes "items_read_back marshal_value json_norm xs ys"
  shows "reads_back marshal_value json_norm (JArr xs) (JArr ys)"
  unfolding reads_back_def
proof (intro allI impI)
  fix r r' assume "marshal_value (JArr xs) @ r = marshal_value (JArr ys) @ r'"
  then have "join_with '','' (map marshal_value xs) @ CHR '']'' # r = join_with '','' (map marshal_value ys) @ CHR '']'' # r'"
    by (simp add: marshal_array.simps)
  from joined_marshal[OF assms _ _ this] marshal_start show "json_norm (JArr xs) = json_norm (JArr ys) \<and> r = r'"
    by (metis json_norm.simps(1))
qed

lemma field_reads_back:
  assumes "utf8_ok (fst p)" "utf8_ok (fst q)" "reads_back marshal_value json_norm (snd p) (snd q)"
  shows "reads_back marshal_field norm_field p q"
  unfolding reads_back_def
proof (intro allI impI)
  fix r r' assume st: "stops r" "stops r'" and eq: "marshal_field p @ r = marshal_field q @ r'"
  from eq have "json_string (fst p) @ '':'' @ marshal_value (snd p) @ r = json_string (fst q) @ '':'' @ marshal_value (snd q) @ r'"
    by simp
  from json_string_inj[OF assms(1,2) this] reads_backD[OF assms(3) st] show "norm_field p = norm_field q \<and> r = r'"
    by simp
qed

lemma object_reads_back:
  assumes "items_read_back marshal_field norm_field m m'"
  shows "reads_back marshal_value json_norm (JObj m) (JObj m')"
  unfolding reads_back_def
proof (intro allI impI)
  fix r r' assume "marshal_value (JObj m) @ r = marshal_value (JObj m') @ r'"
  then have eq: "join_with '','' (map marshal_field (sort_key fst m)) @ CHR ''}'' # r =
      join_with '','' (map marshal_field (sort_key fst m')) @ CHR ''}'' # r'"
    by (simp add: marshal_canonical_fields)
  have start: "\<exists>v c s. marshal_field x = c # s \<and> value_start v c" for x
    by (rule exI[of _ "JStr []"]) (simp add: json_string_def value_start_def)
  from assms have "items_read_back marshal_field norm_field (sort_key fst m) (sort_key fst m')" by simp
  from joined_marshal[OF this _ start eq] show "json_norm (JObj m) = json_norm (JObj m') \<and> r = r'"
    by (simp add: sort_key_map_snd)
qed

lemma int_reads_back: "reads_back marshal_value json_norm (JNum i) (JNum j)"
  unfolding reads_back_def
proof (intro allI impI)
  fix r r' assume st: "stops r" "stops r'" and "marshal_value (JNum i) @ r = marshal_value (JNum j) @ r'"
  then have "json_int i @ r = json_int j @ r'" by simp
  from json_int_inj[OF this st] show "json_norm (JNum i) = json_norm (JNum j) \<and> r = r'" by simp
qed

lemma string_reads_back: "utf8_ok s \<Longrightarrow> utf8_ok t \<Longrightarrow> reads_back marshal_value json_norm (JStr s) (JStr t)"
  unfolding reads_back_def
proof (intro allI impI)
  fix r r' assume ok: "utf8_ok s" "utf8_ok t" and "marshal_value (JStr s) @ r = marshal_value (JStr t) @ r'"
  then have "json_string s @ r = json_string t @ r'" by simp
  from json_string_inj[OF ok this] show "json_norm (JStr s) = json_norm (JStr t) \<and> r = r'" by simp
qed

lemma marshal_reads_back: "json_ok v \<Longrightarrow> json_ok w \<Longrightarrow> reads_back marshal_value json_norm v w"
proof (induction v arbitrary: w)
  case (JArr xs)
  show ?case
  proof (cases w)
    case (JArr ys)
    with JArr.IH JArr.prems show ?thesis unfolding \<open>w = JArr ys\<close> by (intro array_reads_back) (auto simp: list_all_iff)
  qed (rule different_start, auto simp: value_start_def is_digit_def)+
next
  case (JObj m)
  show ?case
  proof (cases w)
    case (JObj m')
    with JObj.IH JObj.prems show ?thesis unfolding \<open>w = JObj m'\<close>
      by (intro object_reads_back ballI field_reads_back) (fastforce simp: list_all_iff)+
  qed (rule different_start, auto simp: value_start_def is_digit_def)+
next
  case (JNum i)
  show ?case
  proof (cases w)
    case (JNum j)
    then show ?thesis by (simp add: int_reads_back)
  qed (rule different_start, auto simp: value_start_def is_digit_def)+
next
  case (JStr t)
  show ?case
  proof (cases w)
    case (JStr t')
    with JStr.prems show ?thesis by (simp add: string_reads_back)
  qed (rule different_start, auto simp: value_start_def is_digit_def)+
next
  case (JBool b)
  show ?case
  proof (cases w)
    case (JBool b')
    then show ?thesis by (auto simp: reads_back_def)
  qed (rule different_start, auto simp: value_start_def is_digit_def)+
next
  case JNull
  show ?case
  proof (cases w)
    case JNull
    then show ?thesis by (simp add: reads_back_def)
  qed (rule different_start, auto simp: value_start_def is_digit_def)+
qed

lemma remove_empty_keys: "set (map fst (remove_empty_fields m)) \<subseteq> set (map fst m)"
proof (induction m)
  case (Cons p m)
  then show ?case by (cases p) (simp split: option.splits, blast)
qed simp

lemma remove_empty_get:
  "distinct (map fst m) \<Longrightarrow>
    map_of (remove_empty_fields m) k = (case map_of m k of None \<Rightarrow> None | Some v \<Rightarrow> remove_empty_value v)"
proof (induction m)
  case (Cons p m)
  have "k \<notin> fst ` set (remove_empty_fields m)" if "k \<notin> fst ` set m" for k
    using that remove_empty_keys[of m] by auto
  with Cons show ?case
    by (cases p) (auto split: option.splits simp: map_of_eq_None_iff)
qed simp

lemma remove_empty_ok:
  "json_ok v \<Longrightarrow> remove_empty_value v = Some w \<Longrightarrow> json_ok w"
  "list_all json_ok xs \<Longrightarrow> list_all json_ok (remove_empty_elems xs)"
  "json_ok (JObj m) \<Longrightarrow> json_ok (JObj (remove_empty_fields m))"
proof (induction v and xs and m arbitrary: w and and rule: remove_empty_value_remove_empty_elems_remove_empty_fields.induct)
  case (13 k v m)
  then show ?case using remove_empty_keys[of m] by (auto split: option.splits)
qed (auto simp: Let_def split: if_splits)

lemma map_of_sort_key: "distinct (map fst m) \<Longrightarrow> map_of (sort_key fst m) = map_of m"
  by (rule map_of_inject_set[THEN iffD2]) (simp_all add: distinct_map)

lemma signed_fields_ok: "card_ok c \<Longrightarrow> json_ok (JObj (signed_fields c))"
  unfolding signed_fields_def card_ok_def
  by (rule remove_empty_ok(3)) (auto simp: gm_del_filter list_all_iff distinct_map_filter)

lemma map_of_optional:
  "map_of (if b then [] else [(k', v)]) k = (if b \<or> k \<noteq> k' then None else Some v)"
  "map_of (case x of None \<Rightarrow> [] | Some j \<Rightarrow> [(k', j)]) k = (if k = k' then x else None)"
  by (auto split: option.splits)

lemma card_json_get:
  "map_of (card_json c) ''name'' = (if cd_name c = [] then None else Some (JStr (cd_name c)))"
  "map_of (card_json c) ''url'' = (if cd_url c = [] then None else Some (JStr (cd_url c)))"
  "map_of (card_json c) ''version'' = (if cd_version c = [] then None else Some (JStr (cd_version c)))"
  "map_of (card_json c) ''description'' = (if cd_description c = [] then None else Some (JStr (cd_description c)))"
  "map_of (card_json c) ''supportsAuthenticatedExtendedCard'' = map_option JBool (cd_supports_extended c)"
  by (simp_all add: card_json_def Let_def map_add_def map_of_optional split: option.splits)

lemma map_of_norm_field: "map_of (map norm_field m) k = map_option json_norm (map_of m k)"
  by (induction m) auto

lemma signed_string:
  "map_option json_norm (Option.bind (if s = [] then None else Some (JStr s)) remove_empty_value) =
    map_option json_norm (Option.bind (if t = [] then None else Some (JStr t)) remove_empty_value) \<Longrightarrow> s = t"
  by (auto split: if_splits)

lemma signed_flag:
  "map_option json_norm (Option.bind (map_option JBool x) remove_empty_value) =
    map_option json_norm (Option.bind (map_option JBool y) remove_empty_value) \<Longrightarrow> x = y"
  by (cases x; cases y) auto

lemma signed_content_get:
  assumes "card_ok c" "card_ok d" "signed_content c = signed_content d" "k \<noteq> ''signatures''"
  shows "map_option json_norm (Option.bind (map_of (card_json c) k) remove_empty_value) =
    map_option json_norm (Option.bind (map_of (card_json d) k) remove_empty_value)"
proof -
  have norm: "map_of (sort_key fst (map norm_field (signed_fields e))) k =
      map_option json_norm (Option.bind (map_of (card_json e) k) remove_empty_value)" if "card_ok e" for e
  proof -
    have "distinct (map fst (signed_fields e))" using signed_fields_ok[OF that] by simp
    then have "map_of (sort_key fst (map norm_field (signed_fields e))) k = map_option json_norm (map_of (signed_fields e) k)"
      by (subst map_of_sort_key) (simp_all add: comp_def map_of_norm_field)
    also have "map_of (signed_fields e) k = Option.bind (map_of (card_json e) k) remove_empty_value"
      using that assms(4) by (simp add: signed_fields_def card_ok_def remove_empty_get distinct_delete split: option.splits)
    finally show ?thesis .
  qed
  from assms(3) have "sort_key fst (map norm_field (signed_fields c)) = sort_key fst (map norm_field (signed_fields d))"
    by (simp add: signed_content_def)
  with norm[OF assms(1)] norm[OF assms(2)] show ?thesis by simp
qed

section \<open>Properties\<close>


lemma sample_card_ok: "card_ok sample_card" "card_ok (sample_card\<lparr>cd_signatures := []\<rparr>)"
  by code_simp+


end
