(* ===== verification/Card_Signature.thy ===== *)
theory Card_Signature
  imports Card_Json Broker_Cache
begin

text \<open>
  Signatures of agent cards (\<^verbatim>\<open>internal/signature\<close>): the JWS verification of \<^verbatim>\<open>verifier.go\<close>, the provider that
  checks the certificate chain of a signature against the trust bundle (\<^verbatim>\<open>x5c.go\<close>) and the signer that runs in the
  init container of an agent (\<^verbatim>\<open>signer.go\<close>).

  The record \<^verbatim>\<open>crypto_api\<close> stands for the cryptography, the certificate and PEM parsers and the JSON decoder of the
  standard library.  A certificate pool is the list of its certificates; the zero time is None.  A private key
  answers through \<^verbatim>\<open>signer\<close>.  The API server's answer to the read of the trust bundle is an argument.  Messages are
  those of the source without the values that they quote.
\<close>

section \<open>Data\<close>

datatype hash_alg = SHA256 | SHA384 | SHA512

text \<open>An RSA key with the length of its modulus, an ECDSA key with the name and size of its curve, or another key.\<close>
datatype public_key = RsaKey nat string | EcdsaKey string nat string | OtherKey string

record certificate =
  ct_raw :: bytes
  ct_public_key :: public_key
  ct_uris :: "(string \<times> string) list"
  ct_not_before :: time
  ct_not_after :: time

record protected_header =
  ph_algorithm :: string
  ph_type :: string
  ph_key_id :: string
  ph_x5c :: "string list"

record verification_result =
  vr_verified :: bool
  vr_key_id :: string
  vr_spiffe_id :: string
  vr_details :: string
  vr_leaf_not_after :: "time option"

record crypto_api =
  ca_sha384 :: "bytes \<Rightarrow> bytes"
  ca_sha512 :: "bytes \<Rightarrow> bytes"
  ca_verify_pss :: "public_key \<Rightarrow> hash_alg \<Rightarrow> bytes \<Rightarrow> bytes \<Rightarrow> bool"
  ca_verify_pkcs1 :: "public_key \<Rightarrow> hash_alg \<Rightarrow> bytes \<Rightarrow> bytes \<Rightarrow> bool"
  ca_ecdsa_verify :: "public_key \<Rightarrow> bytes \<Rightarrow> nat \<Rightarrow> nat \<Rightarrow> bool"
  ca_verify_asn1 :: "public_key \<Rightarrow> bytes \<Rightarrow> bytes \<Rightarrow> bool"
  ca_pem_encode :: "string \<Rightarrow> bytes \<Rightarrow> bytes"
  ca_pem_blocks :: "bytes \<Rightarrow> (string \<times> bytes) list"
  ca_marshal_pkix :: "public_key \<Rightarrow> string + bytes"
  ca_parse_pkix :: "bytes \<Rightarrow> string + public_key"
  ca_parse_pkcs1 :: "bytes \<Rightarrow> string + public_key"
  ca_parse_cert :: "bytes \<Rightarrow> string + certificate"
  ca_verify_chain :: "certificate list \<Rightarrow> certificate list \<Rightarrow> time \<Rightarrow> certificate \<Rightarrow> string option"
  ca_url_host :: "string \<Rightarrow> string + string"
  ca_decode_header :: "bytes \<Rightarrow> string + protected_header"
  ca_decode_bundle :: "bytes \<Rightarrow> string + (string \<times> string list) list"

record signer =
  si_public :: public_key
  si_is_ecdsa :: bool
  si_sign :: "hash_alg \<Rightarrow> bytes \<Rightarrow> string + bytes"
  si_ecdsa_sign :: "bytes \<Rightarrow> string + nat \<times> nat"

definition digest :: "crypto_api \<Rightarrow> hash_alg \<Rightarrow> bytes \<Rightarrow> bytes" where
  "digest ca h m = (case h of SHA256 \<Rightarrow> sha256 m | SHA384 \<Rightarrow> ca_sha384 ca m | SHA512 \<Rightarrow> ca_sha512 ca m)"

abbreviation not_verified :: "string \<Rightarrow> verification_result" where
  "not_verified details \<equiv>
     \<lparr>vr_verified = False, vr_key_id = [], vr_spiffe_id = [], vr_details = details, vr_leaf_not_after = None\<rparr>"

section \<open>Encodings\<close>

text \<open>\<^verbatim>\<open>base64.StdEncoding\<close>: the other alphabet, with padding.\<close>
definition b64std_encode :: "bytes \<Rightarrow> string" where
  "b64std_encode bs =
     (let s = map (\<lambda>c. if c = CHR ''-'' then CHR ''+'' else if c = CHR ''_'' then CHR ''/'' else c) (b64_encode bs) in
      s @ replicate ((4 - length s mod 4) mod 4) (CHR ''=''))"

definition b64std_decode :: "string \<Rightarrow> bytes option" where
  "b64std_decode s =
     (let t = filter (\<lambda>c. of_char c \<noteq> (10 :: nat) \<and> of_char c \<noteq> (13 :: nat)) s;
          u = rev (dropWhile (\<lambda>c. c = CHR ''='') (rev t)) in
      if length t mod 4 \<noteq> 0 \<or> length t - length u > 2 \<or> (length u mod 4 = 1) \<or>
         CHR ''-'' \<in> set u \<or> CHR ''_'' \<in> set u then None
      else b64_decode (map (\<lambda>c. if c = CHR ''+'' then CHR ''-'' else if c = CHR ''/'' then CHR ''_'' else c) u))"

text \<open>\<^verbatim>\<open>big.Int.SetBytes\<close> and \<^verbatim>\<open>Bytes\<close>.\<close>
definition bytes_nat :: "bytes \<Rightarrow> nat" where
  "bytes_nat bs = foldl (\<lambda>a c. a * 256 + of_char c) 0 bs"

fun nat_bytes :: "nat \<Rightarrow> bytes" where
  "nat_bytes n = (if n = 0 then [] else nat_bytes (n div 256) @ [char_of (n mod 256)])"

declare nat_bytes.simps [simp del]

text \<open>\<^verbatim>\<open>copy(dst[off:], src)\<close>; None is an index out of range.\<close>
definition copy_at :: "bytes \<Rightarrow> nat \<Rightarrow> bytes \<Rightarrow> bytes option" where
  "copy_at dst off src = (if off + length src \<le> length dst
     then Some (take off dst @ src @ drop (off + length src) dst) else None)"

section \<open>Algorithms\<close>

definition decode_protected_header :: "crypto_api \<Rightarrow> string \<Rightarrow> string + protected_header" where
  "decode_protected_header ca protected =
     (case b64_decode protected of
        None \<Rightarrow> Inl ''failed to decode protected header''
      | Some j \<Rightarrow> map_sum (\<lambda>e. ''failed to parse protected header: '' @ e) id (ca_decode_header ca j))"

text \<open>\<^verbatim>\<open>json.Marshal\<close> on the header: the fields in order, all but the first dropped when empty.\<close>
definition header_json :: "protected_header \<Rightarrow> bytes" where
  "header_json h =
     (let field = (\<lambda>k v. json_string k @ '':'' @ v);
          opt = (\<lambda>k s. if s = [] then [] else [field k (json_string s)]) in
      CHR ''{'' # join_with '','' ([field ''alg'' (json_string (ph_algorithm h))] @ opt ''typ'' (ph_type h) @ opt ''kid'' (ph_key_id h) @
        (if ph_x5c h = [] then [] else [field ''x5c'' (CHR ''['' # join_with '','' (map json_string (ph_x5c h)) @ '']'')])) @ ''}'')"

definition encode_protected_header :: "protected_header \<Rightarrow> string" where
  "encode_protected_header h = b64_encode (header_json h)"

definition supported_algorithms :: "string list" where
  "supported_algorithms = [''RS256'', ''RS384'', ''RS512'', ''PS256'', ''PS384'', ''PS512'', ''ES256'', ''ES384'', ''ES512'']"

definition validate_algorithm :: "string \<Rightarrow> string option" where
  "validate_algorithm alg =
     (if alg = [] then Some ''JWS protected header missing required 'alg' field''
      else if alg = ''none'' then Some ''JWS algorithm 'none' is not permitted''
      else if alg \<notin> set supported_algorithms then Some (''unsupported JWS algorithm '' @ alg)
      else None)"

definition is_rsa_algorithm :: "string \<Rightarrow> bool" where
  "is_rsa_algorithm alg \<longleftrightarrow> alg \<in> {''RS256'', ''RS384'', ''RS512'', ''PS256'', ''PS384'', ''PS512''}"

definition is_ecdsa_algorithm :: "string \<Rightarrow> bool" where
  "is_ecdsa_algorithm alg \<longleftrightarrow> alg \<in> {''ES256'', ''ES384'', ''ES512''}"

definition is_pss_algorithm :: "string \<Rightarrow> bool" where
  "is_pss_algorithm alg \<longleftrightarrow> alg \<in> {''PS256'', ''PS384'', ''PS512''}"

definition hash_for_algorithm :: "string \<Rightarrow> string + hash_alg" where
  "hash_for_algorithm alg =
     (if alg \<in> {''RS256'', ''PS256'', ''ES256''} then Inr SHA256
      else if alg \<in> {''RS384'', ''PS384'', ''ES384''} then Inr SHA384
      else if alg \<in> {''RS512'', ''PS512'', ''ES512''} then Inr SHA512
      else Inl (''no hash function for algorithm '' @ alg))"

definition validate_ecdsa_curve :: "string \<Rightarrow> string \<Rightarrow> string option" where
  "validate_ecdsa_curve curve alg =
     (case (if alg = ''ES256'' then Some ''P-256'' else if alg = ''ES384'' then Some ''P-384''
            else if alg = ''ES512'' then Some ''P-521'' else None) of
        None \<Rightarrow> Some (''unknown ECDSA algorithm '' @ alg)
      | Some expected \<Rightarrow>
          if curve \<noteq> expected then
            Some (''curve mismatch: algorithm '' @ alg @ '' requires '' @ expected @ '' but key uses '' @ curve)
          else None)"

definition curve_byte_size :: "nat \<Rightarrow> nat" where
  "curve_byte_size bits = (bits + 7) div 8"

definition verify_ecdsa_raw :: "crypto_api \<Rightarrow> public_key \<Rightarrow> nat \<Rightarrow> bytes \<Rightarrow> bytes \<Rightarrow> bool" where
  "verify_ecdsa_raw ca pub bits hash sig =
     (let key_size = curve_byte_size bits in
      if length sig \<noteq> 2 * key_size then False
      else ca_ecdsa_verify ca pub hash (bytes_nat (take key_size sig)) (bytes_nat (drop key_size sig)))"

text \<open>\<^verbatim>\<open>parsePublicKey\<close>.\<close>
definition parse_public_key :: "crypto_api \<Rightarrow> bytes \<Rightarrow> string + public_key" where
  "parse_public_key ca der =
     (case ca_parse_pkix ca der of
        Inr k \<Rightarrow> Inr k
      | Inl _ \<Rightarrow> map_sum (\<lambda>e. ''failed to parse public key (tried PKIX and PKCS#1): '' @ e) id (ca_parse_pkcs1 ca der))"

section \<open>Verification of one signature\<close>

text \<open>The switch on the type of the key: the verdict, or the details and the error of an early return.\<close>
definition check_signature :: "crypto_api \<Rightarrow> string \<Rightarrow> public_key \<Rightarrow> hash_alg \<Rightarrow> bytes \<Rightarrow> bytes \<Rightarrow> string \<times> string + bool" where
  "check_signature ca alg key h hashed sig =
     (case key of
        RsaKey _ _ \<Rightarrow>
          if \<not> is_rsa_algorithm alg then Inl (''Algorithm mismatch: public key is RSA'', ''algorithm mismatch'')
          else if is_pss_algorithm alg then Inr (ca_verify_pss ca key h hashed sig)
          else Inr (ca_verify_pkcs1 ca key h hashed sig)
      | EcdsaKey curve bits _ \<Rightarrow>
          if \<not> is_ecdsa_algorithm alg then Inl (''Algorithm mismatch: public key is ECDSA'', ''algorithm mismatch'')
          else (case validate_ecdsa_curve curve alg of
              Some e \<Rightarrow> Inl (''ECDSA curve/algorithm mismatch: '' @ e, e)
            | None \<Rightarrow> Inr (verify_ecdsa_raw ca key bits hashed sig \<or> ca_verify_asn1 ca key hashed sig))
      | OtherKey _ \<Rightarrow> Inl (''Public key type not supported (expected RSA or ECDSA)'', ''unsupported key type''))"

definition verify_jws :: "crypto_api \<Rightarrow> agent_card_data \<Rightarrow> agent_card_signature option \<Rightarrow> bytes \<Rightarrow>
    verification_result \<times> string option" where
  "verify_jws ca cd sig pem =
     (case sig of
        None \<Rightarrow> (not_verified ''AgentCard does not contain a signature'', None)
      | Some g \<Rightarrow>
          (case decode_protected_header ca (sg_protected g) of
             Inl e \<Rightarrow> (not_verified (''Failed to decode JWS protected header: '' @ e), Some e)
           | Inr header \<Rightarrow>
               (case validate_algorithm (ph_algorithm header) of
                  Some e \<Rightarrow> (not_verified (''Algorithm validation failed: '' @ e), Some e)
                | None \<Rightarrow>
                    (case ca_pem_blocks ca pem of
                       [] \<Rightarrow> (not_verified ''Invalid PEM format'', Some ''failed to decode PEM block'')
                     | block # _ \<Rightarrow>
                         (case parse_public_key ca (snd block) of
                            Inl e \<Rightarrow> (not_verified (''Failed to parse public key: '' @ e), Some e)
                          | Inr key \<Rightarrow>
                              if (case key of RsaKey bits _ \<Rightarrow> bits < 2048 | _ \<Rightarrow> False) then
                                (not_verified ''RSA key too small (minimum 2048)'', Some ''RSA key too small (minimum 2048)'')
                              else
                                let signing_input = sg_protected g @ ''.'' @ b64_encode (create_canonical_card_json cd) in
                                (case hash_for_algorithm (ph_algorithm header) of
                                   Inl e \<Rightarrow> (not_verified (''Hash function lookup failed: '' @ e), Some e)
                                 | Inr h \<Rightarrow>
                                     let hashed = digest ca h signing_input in
                                     (case b64_decode (sg_signature g) of
                                        None \<Rightarrow> (not_verified ''Failed to decode JWS signature from base64url'', Some ''illegal base64 data'')
                                      | Some sig_bytes \<Rightarrow>
                                          (case check_signature ca (ph_algorithm header) key h hashed sig_bytes of
                                             Inl (details, e) \<Rightarrow> (not_verified details, Some e)
                                           | Inr verified \<Rightarrow>
                                               ((not_verified (if verified
                                                    then ''JWS signature verified successfully (alg='' @ ph_algorithm header @
                                                      '', kid='' @ ph_key_id header @ '')''
                                                    else ''JWS signature verification failed''))
                                                  \<lparr>vr_verified := verified, vr_key_id := ph_key_id header\<rparr>, None)))))))))"

section \<open>Signing\<close>

definition algorithm_for_key :: "public_key \<Rightarrow> string + string" where
  "algorithm_for_key pub =
     (case pub of
        RsaKey bits _ \<Rightarrow> if bits < 2048 then Inl ''RSA key too small (minimum 2048)'' else Inr ''RS256''
      | EcdsaKey curve _ _ \<Rightarrow>
          if curve = ''P-256'' then Inr ''ES256'' else if curve = ''P-384'' then Inr ''ES384''
          else if curve = ''P-521'' then Inr ''ES512'' else Inl (''unsupported ECDSA curve: '' @ curve)
      | OtherKey _ \<Rightarrow> Inl ''unsupported key type'')"

definition compute_kid :: "certificate \<Rightarrow> string" where
  "compute_kid leaf = hex_encode (take 8 (sha256 (ct_raw leaf)))"

text \<open>The outer None is a slice index out of range.\<close>
definition sign_ecdsa_raw :: "signer \<Rightarrow> bytes \<Rightarrow> (string + bytes) option" where
  "sign_ecdsa_raw sg hashed =
     (if \<not> si_is_ecdsa sg then Some (Inl ''expected *ecdsa.PrivateKey'')
      else (case si_ecdsa_sign sg hashed of
          Inl e \<Rightarrow> Some (Inl (''ECDSA sign failed: '' @ e))
        | Inr (r, s) \<Rightarrow>
            let key_size = curve_byte_size (case si_public sg of EcdsaKey _ bits _ \<Rightarrow> bits | _ \<Rightarrow> 0);
                rb = nat_bytes r; sb = nat_bytes s in
            if key_size < length rb \<or> 2 * key_size < length sb then None
            else map_option Inr
              (Option.bind (copy_at (replicate (2 * key_size) (CHR 0x00)) (key_size - length rb) rb)
                (\<lambda>sig. copy_at sig (2 * key_size - length sb) sb))))"

definition sign_input :: "crypto_api \<Rightarrow> signer \<Rightarrow> string \<Rightarrow> bytes \<Rightarrow> (string + bytes) option" where
  "sign_input ca sg alg input =
     (case hash_for_algorithm alg of
        Inl e \<Rightarrow> Some (Inl e)
      | Inr h \<Rightarrow>
          let hashed = digest ca h input in
          if alg \<in> {''RS256'', ''RS384'', ''RS512''} then Some (si_sign sg h hashed)
          else if alg \<in> {''ES256'', ''ES384'', ''ES512''} then sign_ecdsa_raw sg hashed
          else Some (Inl (''unsupported algorithm: '' @ alg)))"

text \<open>The result is the card with its signature, which the source then writes as indented JSON.\<close>
definition sign_card :: "crypto_api \<Rightarrow> agent_card_data option \<Rightarrow> signer \<Rightarrow> certificate list \<Rightarrow> (string + agent_card_data) option" where
  "sign_card ca cd sg certs =
     (case cd of
        None \<Rightarrow> Some (Inl ''card data is nil'')
      | Some c \<Rightarrow>
          (case certs of
             [] \<Rightarrow> Some (Inl ''no certificates in SVID chain'')
           | leaf # _ \<Rightarrow>
               (case algorithm_for_key (si_public sg) of
                  Inl e \<Rightarrow> Some (Inl e)
                | Inr alg \<Rightarrow>
                    let protected = encode_protected_header \<lparr>ph_algorithm = alg, ph_type = ''JOSE'', ph_key_id = compute_kid leaf,
                          ph_x5c = map (\<lambda>cert. b64std_encode (ct_raw cert)) certs\<rparr> in
                    (case sign_input ca sg alg (protected @ ''.'' @ b64_encode (create_canonical_card_json c)) of
                       None \<Rightarrow> None
                     | Some (Inl e) \<Rightarrow> Some (Inl (''signing failed: '' @ e))
                     | Some (Inr sig) \<Rightarrow>
                         Some (Inr (c\<lparr>cd_signatures :=
                           [\<lparr>sg_protected = protected, sg_signature = b64_encode sig, sg_timestamp = None\<rparr>]\<rparr>))))))"

section \<open>The x5c provider\<close>

record x5c_provider =
  xp_config_map_name :: string
  xp_config_map_ns :: string
  xp_config_map_key :: string
  xp_refresh_interval :: time
  xp_trust_bundle :: "certificate list option"
  xp_last_bundle_load :: time
  xp_bundle_hash :: string

text \<open>The constructor; \<^verbatim>\<open>has_client\<close> says whether a Kubernetes client was configured.\<close>
definition new_x5c_provider :: "bool \<Rightarrow> string \<Rightarrow> string \<Rightarrow> string \<Rightarrow> time \<Rightarrow> string + x5c_provider" where
  "new_x5c_provider has_client name ns key refresh =
     (if \<not> has_client then Inl ''kubernetes client is required for x5c provider''
      else if name = [] then Inl ''trust bundle configmap name is required for x5c provider''
      else if ns = [] then Inl ''trust bundle configmap namespace is required for x5c provider''
      else Inr \<lparr>xp_config_map_name = name, xp_config_map_ns = ns,
        xp_config_map_key = (if key = [] then ''bundle.spiffe'' else key),
        xp_refresh_interval = (if refresh = 0 then 5 * 60 * 10 ^ 9 else refresh),
        xp_trust_bundle = None, xp_last_bundle_load = 0, xp_bundle_hash = []\<rparr>)"

definition validate_chain :: "crypto_api \<Rightarrow> x5c_provider \<Rightarrow> certificate \<Rightarrow> certificate list \<Rightarrow> string option" where
  "validate_chain ca p leaf intermediates =
     (if length intermediates + 1 > 3 then Some ''certificate chain too deep (max 3)''
      else map_option (\<lambda>e. ''chain verification failed: '' @ e)
        (ca_verify_chain ca (case xp_trust_bundle p of None \<Rightarrow> [] | Some roots \<Rightarrow> roots) intermediates
          (ct_not_before leaf + 10 ^ 9) leaf))"

definition extract_spiffe_id_from_cert :: "crypto_api \<Rightarrow> certificate \<Rightarrow> string + string" where
  "extract_spiffe_id_from_cert ca leaf =
     (case filter (\<lambda>u. fst u = ''spiffe'') (ct_uris leaf) of
        [] \<Rightarrow> Inl ''no spiffe:// URI in leaf certificate SANs''
      | [u] \<Rightarrow>
          (case ca_url_host ca (snd u) of
             Inl e \<Rightarrow> Inl (''malformed SPIFFE ID URI '' @ snd u @ '': '' @ e)
           | Inr host \<Rightarrow> if host = [] then Inl (''SPIFFE ID '' @ snd u @ '' has empty trust domain'') else Inr (snd u))
      | _ \<Rightarrow> Inl ''multiple spiffe:// URIs in leaf certificate SANs (expected exactly 1)'')"

fun parse_x5c_certs :: "crypto_api \<Rightarrow> string list \<Rightarrow> string + certificate list" where
  "parse_x5c_certs ca [] = Inr []"
| "parse_x5c_certs ca (b64 # rest) =
     (case b64std_decode b64 of
        None \<Rightarrow> Inl ''x5c: base64 decode failed''
      | Some der \<Rightarrow>
          (case ca_parse_cert ca der of
             Inl e \<Rightarrow> Inl (''x5c: certificate parse failed: '' @ e)
           | Inr cert \<Rightarrow> map_sum id (\<lambda>certs. cert # certs) (parse_x5c_certs ca rest)))"

text \<open>The loop over the signatures.\<close>
fun try_signatures :: "crypto_api \<Rightarrow> x5c_provider \<Rightarrow> agent_card_data \<Rightarrow> agent_card_signature list \<Rightarrow> verification_result" where
  "try_signatures ca p cd [] = not_verified ''No signature verified via x5c chain validation''"
| "try_signatures ca p cd (sig # sigs) =
     (case decode_protected_header ca (sg_protected sig) of
        Inl _ \<Rightarrow> try_signatures ca p cd sigs
      | Inr header \<Rightarrow>
          if ph_x5c header = [] then try_signatures ca p cd sigs
          else (case parse_x5c_certs ca (ph_x5c header) of
              Inl _ \<Rightarrow> try_signatures ca p cd sigs
            | Inr [] \<Rightarrow> try_signatures ca p cd sigs
            | Inr (leaf # intermediates) \<Rightarrow>
                (case validate_chain ca p leaf intermediates of
                   Some e \<Rightarrow> not_verified (''x5c chain validation failed: '' @ e)
                 | None \<Rightarrow>
                     (case extract_spiffe_id_from_cert ca leaf of
                        Inl e \<Rightarrow> not_verified (''leaf certificate SAN validation failed: '' @ e)
                      | Inr spiffe_id \<Rightarrow>
                          (case ca_marshal_pkix ca (ct_public_key leaf) of
                             Inl _ \<Rightarrow> try_signatures ca p cd sigs
                           | Inr der \<Rightarrow>
                               (case verify_jws ca cd (Some sig) (ca_pem_encode ca ''PUBLIC KEY'' der) of
                                  (result, err) \<Rightarrow>
                                    if err = None \<and> vr_verified result then
                                      result\<lparr>vr_spiffe_id := spiffe_id, vr_leaf_not_after := Some (ct_not_after leaf)\<rparr>
                                    else try_signatures ca p cd sigs))))))"

definition parse_pem_bundle :: "crypto_api \<Rightarrow> string \<Rightarrow> certificate list" where
  "parse_pem_bundle ca raw =
     concat (map (\<lambda>block. if fst block \<noteq> ''CERTIFICATE'' then []
       else (case ca_parse_cert ca (snd block) of Inl _ \<Rightarrow> [] | Inr cert \<Rightarrow> [cert])) (ca_pem_blocks ca raw))"

fun bundle_key_certs :: "crypto_api \<Rightarrow> string list \<Rightarrow> string + certificate list" where
  "bundle_key_certs ca [] = Inr []"
| "bundle_key_certs ca (b64 # rest) =
     (case b64std_decode b64 of
        None \<Rightarrow> Inl ''failed to decode x5c cert from SPIFFE bundle''
      | Some der \<Rightarrow>
          (case ca_parse_cert ca der of
             Inl e \<Rightarrow> Inl (''failed to parse certificate from SPIFFE bundle: '' @ e)
           | Inr cert \<Rightarrow> map_sum id (\<lambda>certs. cert # certs) (bundle_key_certs ca rest)))"

fun bundle_keys_certs :: "crypto_api \<Rightarrow> (string \<times> string list) list \<Rightarrow> string + certificate list" where
  "bundle_keys_certs ca [] = Inr []"
| "bundle_keys_certs ca ((use, x5c) # keys) =
     (if use \<noteq> ''x509-svid'' then bundle_keys_certs ca keys
      else (case bundle_key_certs ca x5c of
          Inl e \<Rightarrow> Inl e
        | Inr certs \<Rightarrow> map_sum id (\<lambda>more. certs @ more) (bundle_keys_certs ca keys)))"

definition parse_spiffe_json_bundle :: "crypto_api \<Rightarrow> string \<Rightarrow> string + certificate list" where
  "parse_spiffe_json_bundle ca raw =
     (case ca_decode_bundle ca raw of
        Inl e \<Rightarrow> Inl (''failed to parse SPIFFE bundle JSON: '' @ e)
      | Inr keys \<Rightarrow> bundle_keys_certs ca keys)"

text \<open>\<^verbatim>\<open>cm\<close> is the answer to the read of the ConfigMap.\<close>
definition refresh_trust_bundle :: "crypto_api \<Rightarrow> string + (string, string) gomap \<Rightarrow> time \<Rightarrow> x5c_provider \<Rightarrow>
    string option \<times> x5c_provider" where
  "refresh_trust_bundle ca cm now p =
     (case cm of
        Inl e \<Rightarrow> (Some (''failed to get trust bundle configmap: '' @ e), p)
      | Inr data \<Rightarrow>
          let raw = gm_get_or [] data (xp_config_map_key p) in
          if raw = [] then (Some ''trust bundle configmap key not found or empty'', p)
          else
            (case (if contains_sub raw ''-----BEGIN CERTIFICATE-----'' then Inr (parse_pem_bundle ca raw)
                   else parse_spiffe_json_bundle ca raw) of
               Inl e \<Rightarrow> (Some e, p)
             | Inr pool \<Rightarrow>
                 if pool = [] then (Some ''trust bundle contains no certificates'', p)
                 else (None, p\<lparr>xp_trust_bundle := Some pool, xp_last_bundle_load := now,
                     xp_bundle_hash := hex_encode (sha256 raw)\<rparr>)))"

definition maybe_refresh_trust_bundle :: "crypto_api \<Rightarrow> string + (string, string) gomap \<Rightarrow> time \<Rightarrow> x5c_provider \<Rightarrow>
    string option \<times> x5c_provider" where
  "maybe_refresh_trust_bundle ca cm now p =
     (if xp_trust_bundle p = None then
        (case refresh_trust_bundle ca cm now p of
           (Some e, p') \<Rightarrow> (Some (''initial trust bundle load failed: '' @ e), p')
         | (None, p') \<Rightarrow> (None, p'))
      else if now - xp_last_bundle_load p < xp_refresh_interval p then (None, p)
      else (None, snd (refresh_trust_bundle ca cm now p)))"

text \<open>\<^verbatim>\<open>VerifySignature\<close>; its error result is always nil.\<close>
definition x5c_verify_signature :: "crypto_api \<Rightarrow> string + (string, string) gomap \<Rightarrow> time \<Rightarrow> agent_card_data \<Rightarrow>
    agent_card_signature list \<Rightarrow> x5c_provider \<Rightarrow> verification_result \<times> x5c_provider" where
  "x5c_verify_signature ca cm now cd sigs p =
     (case maybe_refresh_trust_bundle ca cm now p of
        (Some e, p') \<Rightarrow> (not_verified (''trust bundle unavailable: '' @ e), p')
      | (None, p') \<Rightarrow> (try_signatures ca p' cd sigs, p'))"

section \<open>Specification and sample inputs\<close>

text \<open>What is relied on of a private key: its own public key accepts its signatures.\<close>
definition signer_sound :: "crypto_api \<Rightarrow> signer \<Rightarrow> bool" where
  "signer_sound ca sg \<longleftrightarrow>
     (\<forall>h d s. si_sign sg h d = Inr s \<longrightarrow> ca_verify_pkcs1 ca (si_public sg) h d s) \<and>
     (\<forall>d r s curve bits q. si_public sg = EcdsaKey curve bits q \<longrightarrow> si_ecdsa_sign sg d = Inr (r, s) \<longrightarrow>
        ca_ecdsa_verify ca (si_public sg) d r s \<and> r < 256 ^ curve_byte_size bits \<and> s < 256 ^ curve_byte_size bits)"

text \<open>What is relied on of the key encodings: a key survives being written and read back.\<close>
definition keys_encoded :: "crypto_api \<Rightarrow> bool" where
  "keys_encoded ca \<longleftrightarrow> (\<forall>k der. ca_marshal_pkix ca k = Inr der \<longrightarrow>
     ca_pem_blocks ca (ca_pem_encode ca ''PUBLIC KEY'' der) = [(''PUBLIC KEY'', der)] \<and> ca_parse_pkix ca der = Inr k)"

text \<open>The header that the signer writes, and a decoder that reads it.\<close>
definition signing_header :: "string \<Rightarrow> certificate list \<Rightarrow> protected_header" where
  "signing_header alg certs = \<lparr>ph_algorithm = alg, ph_type = ''JOSE'', ph_key_id = compute_kid (hd certs),
     ph_x5c = map (\<lambda>cert. b64std_encode (ct_raw cert)) certs\<rparr>"

definition headers_decoded :: "crypto_api \<Rightarrow> certificate list \<Rightarrow> bool" where
  "headers_decoded ca certs \<longleftrightarrow> (\<forall>alg \<in> set supported_algorithms.
     ca_decode_header ca (header_json (signing_header alg certs)) = Inr (signing_header alg certs))"

text \<open>A chain of certificates for the key of a signer, issued under the roots to one SPIFFE identity.\<close>
definition issued_chain :: "crypto_api \<Rightarrow> certificate list \<Rightarrow> signer \<Rightarrow> string \<Rightarrow> certificate list \<Rightarrow> bool" where
  "issued_chain ca roots sg spiffe_id certs \<longleftrightarrow> certs \<noteq> [] \<and> length certs \<le> 3 \<and>
     (\<forall>c \<in> set certs. ca_parse_cert ca (ct_raw c) = Inr c) \<and>
     ca_verify_chain ca roots (tl certs) (ct_not_before (hd certs) + 10 ^ 9) (hd certs) = None \<and>
     extract_spiffe_id_from_cert ca (hd certs) = Inr spiffe_id \<and>
     ct_public_key (hd certs) = si_public sg \<and> (\<exists>der. ca_marshal_pkix ca (si_public sg) = Inr der)"

text \<open>A signature of the content of a card that verifies under the key of its leaf certificate.\<close>
definition signed_under :: "crypto_api \<Rightarrow> agent_card_data \<Rightarrow> agent_card_signature \<Rightarrow> protected_header \<Rightarrow> public_key \<Rightarrow> bool" where
  "signed_under ca cd g header key \<longleftrightarrow> ph_algorithm header \<in> set supported_algorithms \<and>
     (\<forall>bits n. key = RsaKey bits n \<longrightarrow> 2048 \<le> bits) \<and>
     (\<exists>h sig. hash_for_algorithm (ph_algorithm header) = Inr h \<and> b64_decode (sg_signature g) = Some sig \<and>
        check_signature ca (ph_algorithm header) key h
          (digest ca h (sg_protected g @ ''.'' @ b64_encode (create_canonical_card_json cd))) sig = Inr True)"

text \<open>A toy key whose signature of a digest is the digest.\<close>
definition sample_signer :: signer where
  "sample_signer = \<lparr>si_public = RsaKey 2048 ''n'', si_is_ecdsa = False, si_sign = (\<lambda>h d. Inr d), si_ecdsa_sign = (\<lambda>d. Inl ''rsa'')\<rparr>"

definition sample_leaf :: certificate where
  "sample_leaf = \<lparr>ct_raw = ''leaf'', ct_public_key = RsaKey 2048 ''n'', ct_uris = [(''spiffe'', ''spiffe://td/agent'')],
     ct_not_before = 0, ct_not_after = 100\<rparr>"

definition stray_leaf :: certificate where
  "stray_leaf = sample_leaf\<lparr>ct_raw := ''stray''\<rparr>"

definition sample_crypto :: crypto_api where
  "sample_crypto = \<lparr>ca_sha384 = id, ca_sha512 = id, ca_verify_pss = (\<lambda>k h d s. False), ca_verify_pkcs1 = (\<lambda>k h d s. s = d),
     ca_ecdsa_verify = (\<lambda>k d r s. False), ca_verify_asn1 = (\<lambda>k d s. False),
     ca_pem_encode = (\<lambda>t b. b), ca_pem_blocks = (\<lambda>b. [(''PUBLIC KEY'', b)]),
     ca_marshal_pkix = (\<lambda>k. if k = RsaKey 2048 ''n'' then Inr ''der'' else Inl ''unknown''),
     ca_parse_pkix = (\<lambda>b. if b = ''der'' then Inr (RsaKey 2048 ''n'') else Inl ''unknown''), ca_parse_pkcs1 = (\<lambda>b. Inl ''unknown''),
     ca_parse_cert = (\<lambda>b. if b = ct_raw sample_leaf then Inr sample_leaf else if b = ct_raw stray_leaf then Inr stray_leaf else Inl ''unknown''),
     ca_verify_chain = (\<lambda>roots inter t leaf. if leaf = sample_leaf then None else Some ''unknown authority''),
     ca_url_host = (\<lambda>u. Inr ''td''),
     ca_decode_header = (\<lambda>j. case find (\<lambda>h. header_json h = j)
         (map (\<lambda>a. signing_header a [sample_leaf]) supported_algorithms @ [signing_header ''none'' [stray_leaf]]) of
       Some h \<Rightarrow> Inr h | None \<Rightarrow> Inl ''unknown''),
     ca_decode_bundle = (\<lambda>b. Inl ''unknown'')\<rparr>"

definition sample_provider :: x5c_provider where
  "sample_provider = \<lparr>xp_config_map_name = ''bundle'', xp_config_map_ns = ''spire'', xp_config_map_key = ''bundle.spiffe'',
     xp_refresh_interval = 300, xp_trust_bundle = Some [], xp_last_bundle_load = 0, xp_bundle_hash = []\<rparr>"

definition stray_signature :: agent_card_signature where
  "stray_signature = \<lparr>sg_protected = encode_protected_header (signing_header ''none'' [stray_leaf]), sg_signature = [], sg_timestamp = None\<rparr>"

section \<open>Lemmas\<close>

lemma bytes_nat_append: "bytes_nat (xs @ ys) = bytes_nat xs * 256 ^ length ys + bytes_nat ys"
proof (induction ys rule: rev_induct)
  case (snoc y ys)
  have "bytes_nat (xs @ ys @ [y]) = bytes_nat (xs @ ys) * 256 + of_char y" by (simp add: bytes_nat_def)
  moreover have "bytes_nat (ys @ [y]) = bytes_nat ys * 256 + of_char y" by (simp add: bytes_nat_def)
  ultimately show ?case using snoc by (simp add: algebra_simps)
qed (simp add: bytes_nat_def)

lemma bytes_nat_zeros: "bytes_nat (replicate k (CHR 0x00)) = 0"
  by (induction k) (simp_all add: bytes_nat_def)

lemma bytes_nat_nat_bytes: "bytes_nat (nat_bytes n) = n"
proof (induction n rule: nat_bytes.induct)
  case (1 n)
  show ?case
  proof (cases "n = 0")
    case False
    then have "nat_bytes n = nat_bytes (n div 256) @ [char_of (n mod 256)]" by (subst nat_bytes.simps) simp
    with 1 False show ?thesis by (simp add: bytes_nat_append) (simp add: bytes_nat_def)
  qed (simp add: nat_bytes.simps bytes_nat_def)
qed

lemma nat_bytes_length: "n < 256 ^ k \<Longrightarrow> length (nat_bytes n) \<le> k"
proof (induction k arbitrary: n)
  case 0
  then show ?case by (simp add: nat_bytes.simps)
next
  case (Suc k)
  then have "n div 256 < 256 ^ k" by (simp add: div_less_iff_less_mult mult.commute)
  with Suc.IH[of "n div 256"] show ?case by (subst nat_bytes.simps) simp
qed

lemma padded_nat_bytes:
  assumes "n < 256 ^ k"
  defines "b \<equiv> replicate (k - length (nat_bytes n)) (CHR 0x00) @ nat_bytes n"
  shows "length b = k \<and> bytes_nat b = n"
  using nat_bytes_length[OF assms(1)] by (simp add: b_def bytes_nat_append bytes_nat_zeros bytes_nat_nat_bytes)

lemma b64_char_plain:
  "n < 64 \<Longrightarrow> b64_char n \<noteq> CHR ''='' \<and> b64_char n \<noteq> CHR ''+'' \<and> b64_char n \<noteq> CHR ''/''"
proof -
  have "\<forall>n \<in> set [0..<64]. b64_char n \<noteq> CHR ''='' \<and> b64_char n \<noteq> CHR ''+'' \<and> b64_char n \<noteq> CHR ''/''" by code_simp
  then show "n < 64 \<Longrightarrow> ?thesis" by simp
qed

lemma b64_encode_plain: "\<forall>c \<in> set (b64_encode bs). c \<noteq> CHR ''='' \<and> c \<noteq> CHR ''+'' \<and> c \<noteq> CHR ''/''"
  using b64_encode_vals[of bs] b64_char_plain by (auto simp: b64_encode_def)

lemma padding_size:
  assumes "n mod 4 \<noteq> (1 :: nat)"
  shows "(n + (4 - n mod 4) mod 4) mod 4 = 0 \<and> (4 - n mod 4) mod 4 \<le> 2"
proof -
  have "n mod 4 < 4" by simp
  then consider "n mod 4 = 0" | "n mod 4 = 2" | "n mod 4 = 3" using assms by linarith
  then show ?thesis by cases (simp_all, presburger+)
qed

lemma b64std_roundtrip: "b64std_decode (b64std_encode bs) = Some bs"
proof -
  define e where "e = b64_encode bs"
  define tr where "tr = (\<lambda>c. if c = CHR ''-'' then CHR ''+'' else if c = CHR ''_'' then CHR ''/'' else c)"
  define un where "un = (\<lambda>c. if c = CHR ''+'' then CHR ''-'' else if c = CHR ''/'' then CHR ''_'' else c)"
  define pad where "pad = replicate ((4 - length e mod 4) mod 4) (CHR ''='')"
  have plain: "\<forall>c \<in> set e. c \<noteq> CHR ''='' \<and> c \<noteq> CHR ''+'' \<and> c \<noteq> CHR ''/''" using b64_encode_plain by (simp add: e_def)
  have visible: "\<forall>c \<in> set e. of_char c \<noteq> (10 :: nat) \<and> of_char c \<noteq> (13 :: nat)" using b64_encode_chars by (simp add: e_def)
  have enc: "b64std_encode bs = map tr e @ pad" by (simp add: b64std_encode_def e_def tr_def pad_def Let_def)
  have filt: "filter (\<lambda>c. of_char c \<noteq> (10 :: nat) \<and> of_char c \<noteq> (13 :: nat)) (map tr e @ pad) = map tr e @ pad"
    using visible by (intro filter_True) (auto simp: tr_def pad_def)
  have noeq: "\<forall>c \<in> set (rev (map tr e)). c \<noteq> CHR ''=''" using plain by (auto simp: tr_def)
  have strip: "rev (dropWhile (\<lambda>c. c = CHR ''='') (rev (map tr e @ pad))) = map tr e"
  proof -
    have "dropWhile (\<lambda>c. c = CHR ''='') (rev pad @ rev (map tr e)) = rev (map tr e)"
    proof (subst dropWhile_append2)
      have "rev (map tr e) = [] \<or> hd (rev (map tr e)) \<noteq> CHR ''=''" using noeq by (cases "rev (map tr e)") auto
      then show "dropWhile (\<lambda>c. c = CHR ''='') (rev (map tr e)) = rev (map tr e)" by (simp only: dropWhile_eq_self_iff)
    qed (auto simp: pad_def)
    then show ?thesis by (simp add: rev_map)
  qed
  have "length e mod 4 \<noteq> 1" using b64_length[of bs] by (auto simp: e_def split: if_splits)
  then have sizes: "length (map tr e @ pad) mod 4 = 0" "length (map tr e @ pad) - length (map tr e) \<le> 2" "length (map tr e) mod 4 \<noteq> 1"
    using padding_size[of "length e"] unfolding pad_def length_append length_map length_replicate by auto
  have dash: "CHR ''-'' \<notin> set (map tr e)" "CHR ''_'' \<notin> set (map tr e)" by (auto simp: tr_def)
  have "un (tr c) = c" if "c \<in> set e" for c using plain that by (simp add: un_def tr_def)
  then have "map un (map tr e) = e" by (simp add: map_idI)
  with b64_decode_encode[of bs] have dec: "b64_decode (map un (map tr e)) = Some bs" by (simp add: e_def)
  have "\<not> (length (map tr e @ pad) mod 4 \<noteq> 0 \<or> length (map tr e @ pad) - length (map tr e) > 2 \<or>
      length (map tr e) mod 4 = 1 \<or> CHR ''-'' \<in> set (map tr e) \<or> CHR ''_'' \<in> set (map tr e))"
    using sizes dash by (auto simp only: linorder_not_less[symmetric])
  then show ?thesis
    unfolding b64std_decode_def Let_def enc filt strip un_def[symmetric] dec by (simp only: if_False)
qed

lemma parse_x5c_encoded:
  "\<forall>c \<in> set certs. ca_parse_cert ca (ct_raw c) = Inr c \<Longrightarrow>
    parse_x5c_certs ca (map (\<lambda>c. b64std_encode (ct_raw c)) certs) = Inr certs"
  by (induction certs) (auto simp: b64std_roundtrip)

lemma copy_halves:
  assumes "length a \<le> k" "length b \<le> k"
  shows "Option.bind (copy_at (replicate (2 * k) z) (k - length a) a) (\<lambda>s. copy_at s (2 * k - length b) b) =
    Some ((replicate (k - length a) z @ a) @ replicate (k - length b) z @ b)"
proof -
  let ?a = "replicate (k - length a) z @ a"
  have "copy_at (replicate (2 * k) z) (k - length a) a = Some (?a @ replicate k z)"
    using assms by (simp add: copy_at_def)
  moreover have "length ?a = k" "2 * k - length b = k + (k - length b)" using assms by simp_all
  then have "copy_at (?a @ replicate k z) (2 * k - length b) b = Some (?a @ replicate (k - length b) z @ b)"
    using assms by (simp add: copy_at_def)
  ultimately show ?thesis by simp
qed

lemma signed_ecdsa_verifies:
  assumes pub: "si_public sg = EcdsaKey curve bits q"
    and sound: "signer_sound ca sg"
    and signed: "sign_ecdsa_raw sg hashed = Some (Inr sig)"
  shows "verify_ecdsa_raw ca (si_public sg) bits hashed sig"
proof -
  let ?k = "curve_byte_size bits"
  from signed pub obtain r s where rs: "si_ecdsa_sign sg hashed = Inr (r, s)"
    by (auto simp: sign_ecdsa_raw_def split: if_splits sum.splits)
  with sound pub have ok: "ca_ecdsa_verify ca (si_public sg) hashed r s" "r < 256 ^ ?k" "s < 256 ^ ?k"
    by (auto simp: signer_sound_def)
  let ?r = "replicate (?k - length (nat_bytes r)) (CHR 0x00) @ nat_bytes r"
  let ?s = "replicate (?k - length (nat_bytes s)) (CHR 0x00) @ nat_bytes s"
  have len: "length (nat_bytes r) \<le> ?k" "length (nat_bytes s) \<le> ?k" using nat_bytes_length ok by auto
  have "sig = ?r @ ?s"
    using signed rs pub len copy_halves[OF len, of "CHR 0x00"] by (simp add: sign_ecdsa_raw_def Let_def split: if_splits)
  with ok padded_nat_bytes[of r ?k] padded_nat_bytes[of s ?k] show ?thesis
    by (simp add: verify_ecdsa_raw_def Let_def)
qed

lemma canonical_ignores_signatures:
  "create_canonical_card_json (c\<lparr>cd_signatures := gs\<rparr>) = create_canonical_card_json c"
  by (simp add: create_canonical_card_json_def card_json_def gm_del_filter)

lemma algorithm_for_key_ok:
  assumes "algorithm_for_key k = Inr alg"
  shows "alg \<in> set supported_algorithms \<and> validate_algorithm alg = None \<and> (\<forall>bits n. k = RsaKey bits n \<longrightarrow> 2048 \<le> bits)"
  using assms
  by (auto simp: algorithm_for_key_def validate_algorithm_def supported_algorithms_def split: public_key.splits if_splits)

text \<open>What the signer of a key writes, the check for that key accepts.\<close>
lemma signed_input_checks:
  assumes "algorithm_for_key (si_public sg) = Inr alg" "signer_sound ca sg" "sign_input ca sg alg input = Some (Inr sig)"
  shows "\<exists>h. hash_for_algorithm alg = Inr h \<and> check_signature ca alg (si_public sg) h (digest ca h input) sig = Inr True"
proof (cases "si_public sg")
  case (RsaKey bits n)
  with assms(1) have alg: "alg = ''RS256''" by (simp add: algorithm_for_key_def split: if_splits)
  with assms(3) have "si_sign sg SHA256 (digest ca SHA256 input) = Inr sig" by (simp add: sign_input_def hash_for_algorithm_def)
  with assms(2) RsaKey alg show ?thesis
    by (auto simp: signer_sound_def hash_for_algorithm_def check_signature_def is_rsa_algorithm_def is_pss_algorithm_def)
next
  case (EcdsaKey curve bits q)
  with assms(1) have alg: "alg = ''ES256'' \<and> curve = ''P-256'' \<or> alg = ''ES384'' \<and> curve = ''P-384'' \<or> alg = ''ES512'' \<and> curve = ''P-521''"
    by (auto simp: algorithm_for_key_def split: if_splits)
  then obtain h where h: "hash_for_algorithm alg = Inr h" by (auto simp: hash_for_algorithm_def)
  with alg assms(3) have "sign_ecdsa_raw sg (digest ca h input) = Some (Inr sig)" by (auto simp: sign_input_def)
  with signed_ecdsa_verifies[OF EcdsaKey assms(2)] EcdsaKey alg h show ?thesis
    by (auto simp: check_signature_def is_ecdsa_algorithm_def validate_ecdsa_curve_def)
next
  case (OtherKey x)
  with assms(1) show ?thesis by (simp add: algorithm_for_key_def)
qed

text \<open>A verified result of the JWS check, taken apart and put together.\<close>
lemma verify_jws_verified:
  assumes "keys_encoded ca" "ca_marshal_pkix ca key = Inr der" "decode_protected_header ca (sg_protected g) = Inr header"
  shows "(\<exists>r. verify_jws ca cd (Some g) (ca_pem_encode ca ''PUBLIC KEY'' der) = (r, None) \<and> vr_verified r \<and> vr_key_id r = ph_key_id header) \<longleftrightarrow>
    signed_under ca cd g header key"
proof -
  have key: "ca_pem_blocks ca (ca_pem_encode ca ''PUBLIC KEY'' der) = [(''PUBLIC KEY'', der)]" "parse_public_key ca der = Inr key"
    using assms(1,2) by (auto simp: keys_encoded_def parse_public_key_def)
  have alg: "validate_algorithm (ph_algorithm header) = None \<longleftrightarrow> ph_algorithm header \<in> set supported_algorithms"
    by (auto simp: validate_algorithm_def supported_algorithms_def)
  show ?thesis
    unfolding verify_jws_def signed_under_def alg[symmetric]
    by (auto simp: assms(3) key Let_def not_less split: option.splits sum.splits prod.splits public_key.splits if_splits)
qed

lemma verify_jws_key_id:
  assumes "verify_jws ca cd (Some g) pem = (r, None)" "vr_verified r" "decode_protected_header ca (sg_protected g) = Inr header"
  shows "vr_key_id r = ph_key_id header"
  using assms by (auto simp: verify_jws_def Let_def split: option.splits sum.splits list.splits prod.splits if_splits)

lemma extract_spiffe_id_Inr:
  assumes "extract_spiffe_id_from_cert ca leaf = Inr spiffe_id"
  shows "filter (\<lambda>u. fst u = ''spiffe'') (ct_uris leaf) = [(''spiffe'', spiffe_id)]"
proof -
  from assms obtain u where u: "filter (\<lambda>u. fst u = ''spiffe'') (ct_uris leaf) = [u]" "snd u = spiffe_id"
    by (auto simp: extract_spiffe_id_from_cert_def split: list.splits sum.splits if_splits)
  have "\<forall>v \<in> set (filter (\<lambda>u. fst u = ''spiffe'') (ct_uris leaf)). fst v = ''spiffe''" by simp
  from this[unfolded u(1)] u show ?thesis by (cases u) auto
qed

lemma find_unique: "x \<in> set xs \<Longrightarrow> \<forall>y \<in> set xs. f y = f x \<longrightarrow> y = x \<Longrightarrow> find (\<lambda>y. f y = f x) xs = Some x"
  by (induction xs) auto

lemma header_json_algorithm:
  assumes "header_json h = header_json h'" "utf8_ok (ph_algorithm h)" "utf8_ok (ph_algorithm h')"
  shows "ph_algorithm h = ph_algorithm h'"
proof -
  have split: "\<exists>s. header_json h = CHR ''{'' # json_string ''alg'' @ '':'' @ json_string (ph_algorithm h) @ s" for h
    by (simp add: header_json_def Let_def join_with_concat)
  obtain s s' where "header_json h = CHR ''{'' # json_string ''alg'' @ '':'' @ json_string (ph_algorithm h) @ s"
    "header_json h' = CHR ''{'' # json_string ''alg'' @ '':'' @ json_string (ph_algorithm h') @ s'" using split by blast
  with assms(1) have "json_string (ph_algorithm h) @ s = json_string (ph_algorithm h') @ s'" by simp
  with json_string_inj assms(2,3) show ?thesis by blast
qed

lemma sample_header_found:
  assumes "h \<in> set (map (\<lambda>a. signing_header a [sample_leaf]) supported_algorithms @ [signing_header ''none'' [stray_leaf]])"
  shows "ca_decode_header sample_crypto (header_json h) = Inr h"
proof -
  let ?hs = "map (\<lambda>a. signing_header a [sample_leaf]) supported_algorithms @ [signing_header ''none'' [stray_leaf]]"
  have ok: "\<forall>a \<in> set (''none'' # supported_algorithms). utf8_ok a" by code_simp
  have "y = h" if "y \<in> set ?hs" "header_json y = header_json h" for y
  proof -
    have "ph_algorithm y = ph_algorithm h"
      using that assms ok by (intro header_json_algorithm) (auto simp: signing_header_def)
    moreover have "''none'' \<notin> set supported_algorithms" by (simp add: supported_algorithms_def)
    ultimately show ?thesis using that(1) assms by (auto simp: signing_header_def)
  qed
  with find_unique[OF assms, of header_json] show ?thesis by (simp add: sample_crypto_def)
qed

lemma sample_laws:
  "signer_sound sample_crypto sample_signer" "keys_encoded sample_crypto" "headers_decoded sample_crypto [sample_leaf]"
proof -
  show "headers_decoded sample_crypto [sample_leaf]" by (simp add: headers_decoded_def sample_header_found)
qed (simp_all add: signer_sound_def sample_signer_def keys_encoded_def sample_crypto_def)

text \<open>The loop returns a verified result for a signature whose chain and content check out.\<close>
lemma try_signatures_first:
  assumes "keys_encoded ca" "decode_protected_header ca (sg_protected g) = Inr header" "ph_x5c header \<noteq> []"
    "parse_x5c_certs ca (ph_x5c header) = Inr (leaf # rest)" "validate_chain ca p leaf rest = None"
    "extract_spiffe_id_from_cert ca leaf = Inr spiffe_id" "ca_marshal_pkix ca (ct_public_key leaf) = Inr der"
    "signed_under ca cd g header (ct_public_key leaf)"
  shows "\<exists>r. try_signatures ca p cd (g # gs) = r \<and> vr_verified r \<and> vr_key_id r = ph_key_id header \<and>
    vr_spiffe_id r = spiffe_id \<and> vr_leaf_not_after r = Some (ct_not_after leaf)"
proof -
  from verify_jws_verified[OF assms(1,7,2), of cd] assms(8) obtain r where
    "verify_jws ca cd (Some g) (ca_pem_encode ca ''PUBLIC KEY'' der) = (r, None)" "vr_verified r" "vr_key_id r = ph_key_id header" by blast
  with assms(2-7) show ?thesis by simp
qed

lemma try_signatures_verified:
  assumes "keys_encoded ca" "vr_verified (try_signatures ca p cd gs)"
  shows "\<exists>g \<in> set gs. \<exists>header leaf rest. decode_protected_header ca (sg_protected g) = Inr header \<and>
    parse_x5c_certs ca (ph_x5c header) = Inr (leaf # rest) \<and> validate_chain ca p leaf rest = None \<and>
    extract_spiffe_id_from_cert ca leaf = Inr (vr_spiffe_id (try_signatures ca p cd gs)) \<and>
    signed_under ca cd g header (ct_public_key leaf)"
  using assms(2)
proof (induction gs)
  case (Cons g gs)
  show ?case
  proof (cases "try_signatures ca p cd (g # gs) = try_signatures ca p cd gs")
    case True
    with Cons show ?thesis by auto
  next
    case False
    with Cons.prems obtain header leaf rest spiffe_id der result where
      h: "decode_protected_header ca (sg_protected g) = Inr header" "parse_x5c_certs ca (ph_x5c header) = Inr (leaf # rest)"
        "validate_chain ca p leaf rest = None" "extract_spiffe_id_from_cert ca leaf = Inr spiffe_id"
        "ca_marshal_pkix ca (ct_public_key leaf) = Inr der"
        "verify_jws ca cd (Some g) (ca_pem_encode ca ''PUBLIC KEY'' der) = (result, None)" "vr_verified result"
        "vr_spiffe_id (try_signatures ca p cd (g # gs)) = spiffe_id"
      by (auto split: sum.splits list.splits option.splits prod.splits if_splits)
    moreover have "signed_under ca cd g header (ct_public_key leaf)"
      using verify_jws_verified[OF assms(1) h(5,1)] verify_jws_key_id[OF h(6,7,1)] h(6,7) by blast
    ultimately show ?thesis by auto
  qed
qed simp

lemma try_signatures_append:
  "vr_verified (try_signatures ca p cd gs) \<Longrightarrow> try_signatures ca p cd (gs @ gs') = try_signatures ca p cd gs"
  by (induction gs) (auto split: sum.splits list.splits option.splits prod.splits if_splits)

lemma signed_card_verifies:
  assumes "sign_card ca (Some c) sg certs = Some (Inr c')"
    and "signer_sound ca sg" "keys_encoded ca" "headers_decoded ca certs" "issued_chain ca roots sg spiffe_id certs"
    and "xp_trust_bundle p = Some roots"
  shows "\<exists>r. try_signatures ca p c' (cd_signatures c') = r \<and> vr_verified r \<and> vr_spiffe_id r = spiffe_id \<and>
    vr_key_id r = compute_kid (hd certs) \<and> vr_leaf_not_after r = Some (ct_not_after (hd certs)) \<and>
    create_canonical_card_json c' = create_canonical_card_json c"
proof -
  from assms(5) obtain leaf rest der where certs: "certs = leaf # rest" and der: "ca_marshal_pkix ca (ct_public_key leaf) = Inr der"
    and leaf: "ct_public_key leaf = si_public sg" by (cases certs) (auto simp: issued_chain_def)
  from assms(1) certs obtain alg where alg: "algorithm_for_key (si_public sg) = Inr alg"
    by (auto simp: sign_card_def split: sum.splits)
  let ?h = "signing_header alg certs"
  let ?input = "encode_protected_header ?h @ ''.'' @ b64_encode (create_canonical_card_json c)"
  from assms(1) certs alg obtain sig where sig: "sign_input ca sg alg ?input = Some (Inr sig)"
    and c': "c' = c\<lparr>cd_signatures := [\<lparr>sg_protected = encode_protected_header ?h, sg_signature = b64_encode sig, sg_timestamp = None\<rparr>]\<rparr>"
    by (auto simp: sign_card_def signing_header_def Let_def split: sum.splits option.splits)
  let ?g = "\<lparr>sg_protected = encode_protected_header ?h, sg_signature = b64_encode sig, sg_timestamp = None\<rparr>"
  have content: "create_canonical_card_json c' = create_canonical_card_json c" by (simp add: c' canonical_ignores_signatures)
  have head: "decode_protected_header ca (sg_protected ?g) = Inr ?h"
    using assms(4) algorithm_for_key_ok[OF alg]
    by (simp add: decode_protected_header_def encode_protected_header_def b64_decode_encode headers_decoded_def)
  have signed: "signed_under ca c' ?g ?h (ct_public_key leaf)"
    using signed_input_checks[OF alg assms(2) sig] algorithm_for_key_ok[OF alg] leaf
    by (auto simp: signed_under_def content b64_decode_encode signing_header_def)
  have x5c: "ph_x5c ?h \<noteq> []" "parse_x5c_certs ca (ph_x5c ?h) = Inr (leaf # rest)" "validate_chain ca p leaf rest = None"
    "extract_spiffe_id_from_cert ca leaf = Inr spiffe_id"
    using assms(5,6) certs parse_x5c_encoded[of certs ca] by (auto simp: issued_chain_def signing_header_def validate_chain_def)
  from try_signatures_first[OF assms(3) head x5c der signed, of "[]"] show ?thesis
    using certs content by (auto simp: c' signing_header_def)
qed

lemma sample_chain: "issued_chain sample_crypto [] sample_signer ''spiffe://td/agent'' [sample_leaf]"
  by (simp add: issued_chain_def extract_spiffe_id_from_cert_def sample_crypto_def sample_leaf_def sample_signer_def)

lemma sample_fresh:
  "xp_trust_bundle sample_provider = Some []" "10 - xp_last_bundle_load sample_provider < xp_refresh_interval sample_provider"
  by (simp_all add: sample_provider_def)

lemma sample_signs: "\<exists>c'. sign_card sample_crypto (Some sample_card) sample_signer [sample_leaf] = Some (Inr c')"
  by (simp add: sign_card_def sample_signer_def algorithm_for_key_def sign_input_def hash_for_algorithm_def Let_def)

lemma sample_signed:
  "\<exists>c'. sign_card sample_crypto (Some sample_card) sample_signer [sample_leaf] = Some (Inr c') \<and>
    vr_verified (try_signatures sample_crypto sample_provider c' (cd_signatures c'))"
  using sample_signs signed_card_verifies[OF _ sample_laws sample_chain sample_fresh(1)] by blast

section \<open>Properties\<close>

text \<open>Claim C12. Signing and verifying are inverse: when the signer in an agent's pod signs a card with a key for which it
  holds an issued certificate chain, the operator's provider, with its trust bundle loaded, verifies the signed card,
  reports the SPIFFE identity of the leaf certificate, its key id and its expiry, and keeps its bundle.
  The signature does not change the content that it covers.\<close>
theorem sign_verify_roundtrip:
  assumes "sign_card ca (Some c) sg certs = Some (Inr c')"
    and "signer_sound ca sg" "keys_encoded ca" "headers_decoded ca certs" "issued_chain ca roots sg spiffe_id certs"
    and "xp_trust_bundle p = Some roots" "now - xp_last_bundle_load p < xp_refresh_interval p"
  shows "\<exists>r. x5c_verify_signature ca cm now c' (cd_signatures c') p = (r, p) \<and> vr_verified r \<and> vr_spiffe_id r = spiffe_id \<and>
    vr_key_id r = compute_kid (hd certs) \<and> vr_leaf_not_after r = Some (ct_not_after (hd certs)) \<and>
    create_canonical_card_json c' = create_canonical_card_json c"
  using signed_card_verifies[OF assms(1-6)] assms(6,7)
  by (auto simp: x5c_verify_signature_def maybe_refresh_trust_bundle_def)

theorem sign_verify_roundtrip_witness:
  "\<exists>c' r. sign_card sample_crypto (Some sample_card) sample_signer [sample_leaf] = Some (Inr c') \<and>
    x5c_verify_signature sample_crypto (Inl ''down'') 10 c' (cd_signatures c') sample_provider = (r, sample_provider) \<and>
    vr_verified r \<and> vr_spiffe_id r = ''spiffe://td/agent''"
  using sample_signs sign_verify_roundtrip[OF _ sample_laws sample_chain sample_fresh] by blast

text \<open>Claim C11. A card is verified only when one of its signatures earns it: its header decodes, names a supported algorithm
  that fits the type, curve and size of the leaf certificate's key, its chain has at most three certificates and is
  valid under the provider's trust bundle, the leaf names exactly one SPIFFE identity, which is the one reported, and
  the signature checks for that key over the canonical content of this card.\<close>
theorem verified_card_is_signed:
  assumes "x5c_verify_signature ca cm now c gs p = (r, p')" "vr_verified r" "keys_encoded ca"
  shows "\<exists>g \<in> set gs. \<exists>header leaf rest roots. xp_trust_bundle p' = Some roots \<and>
    decode_protected_header ca (sg_protected g) = Inr header \<and> parse_x5c_certs ca (ph_x5c header) = Inr (leaf # rest) \<and>
    length rest \<le> 2 \<and> ca_verify_chain ca roots rest (ct_not_before leaf + 10 ^ 9) leaf = None \<and>
    filter (\<lambda>u. fst u = ''spiffe'') (ct_uris leaf) = [(''spiffe'', vr_spiffe_id r)] \<and>
    signed_under ca c g header (ct_public_key leaf)"
proof -
  from assms(1,2) have refreshed: "maybe_refresh_trust_bundle ca cm now p = (None, p')" and r: "r = try_signatures ca p' c gs"
    by (auto simp: x5c_verify_signature_def split: prod.splits option.splits)
  from refreshed have loaded: "xp_trust_bundle p' \<noteq> None"
    by (auto simp: maybe_refresh_trust_bundle_def refresh_trust_bundle_def Let_def split: if_splits sum.splits option.splits)
  from try_signatures_verified[OF assms(3), of p' c gs] assms(2) r obtain g header leaf rest where
    g: "g \<in> set gs" "decode_protected_header ca (sg_protected g) = Inr header" "parse_x5c_certs ca (ph_x5c header) = Inr (leaf # rest)"
      "validate_chain ca p' leaf rest = None" "extract_spiffe_id_from_cert ca leaf = Inr (vr_spiffe_id r)"
      "signed_under ca c g header (ct_public_key leaf)" by blast
  from g(5) have "filter (\<lambda>u. fst u = ''spiffe'') (ct_uris leaf) = [(''spiffe'', vr_spiffe_id r)]"
    by (rule extract_spiffe_id_Inr)
  moreover from loaded g(4) obtain roots where "xp_trust_bundle p' = Some roots" "length rest \<le> 2"
    "ca_verify_chain ca roots rest (ct_not_before leaf + 10 ^ 9) leaf = None" by (auto simp: validate_chain_def split: if_splits)
  ultimately show ?thesis using g by blast
qed

theorem verified_card_is_signed_witness:
  "\<exists>c' r g header leaf rest. sign_card sample_crypto (Some sample_card) sample_signer [sample_leaf] = Some (Inr c') \<and>
    x5c_verify_signature sample_crypto (Inl ''down'') 10 c' (cd_signatures c') sample_provider = (r, sample_provider) \<and> vr_verified r \<and>
    g \<in> set (cd_signatures c') \<and> parse_x5c_certs sample_crypto (ph_x5c header) = Inr (leaf # rest) \<and>
    filter (\<lambda>u. fst u = ''spiffe'') (ct_uris leaf) = [(''spiffe'', vr_spiffe_id r)] \<and>
    signed_under sample_crypto c' g header (ct_public_key leaf)"
proof -
  obtain c' where c': "sign_card sample_crypto (Some sample_card) sample_signer [sample_leaf] = Some (Inr c')"
    "vr_verified (try_signatures sample_crypto sample_provider c' (cd_signatures c'))" using sample_signed by blast
  let ?r = "try_signatures sample_crypto sample_provider c' (cd_signatures c')"
  have r: "x5c_verify_signature sample_crypto (Inl ''down'') 10 c' (cd_signatures c') sample_provider = (?r, sample_provider)"
    using sample_fresh by (simp add: x5c_verify_signature_def maybe_refresh_trust_bundle_def)
  from verified_card_is_signed[OF r c'(2) sample_laws(2)] c' r show ?thesis by blast
qed

text \<open>Claim C39. The interface promises success when at least one signature verifies, but the order of the signatures
  decides: with the signature that verifies first the card is verified, and with a signature whose chain the
  bundle does not cover in front of it the very same signatures are rejected.\<close>
theorem untrusted_signature_masks:
  assumes "vr_verified (try_signatures ca p c gs)"
    and "decode_protected_header ca (sg_protected g) = Inr header" "ph_x5c header \<noteq> []"
    and "parse_x5c_certs ca (ph_x5c header) = Inr (leaf # rest)" "validate_chain ca p leaf rest \<noteq> None"
  shows "vr_verified (try_signatures ca p c (gs @ [g])) \<and> \<not> vr_verified (try_signatures ca p c (g # gs))"
  using assms try_signatures_append[OF assms(1), of "[g]"] by auto

lemma stray_signature_untrusted:
  "\<exists>header. decode_protected_header sample_crypto (sg_protected stray_signature) = Inr header \<and> ph_x5c header \<noteq> [] \<and>
    parse_x5c_certs sample_crypto (ph_x5c header) = Inr [stray_leaf] \<and> validate_chain sample_crypto sample_provider stray_leaf [] \<noteq> None"
  using sample_header_found[of "signing_header ''none'' [stray_leaf]"] parse_x5c_encoded[of "[stray_leaf]" sample_crypto]
  by (auto simp: stray_signature_def decode_protected_header_def encode_protected_header_def b64_decode_encode validate_chain_def
      signing_header_def sample_crypto_def stray_leaf_def sample_leaf_def)

theorem untrusted_signature_masks_witness:
  "\<exists>c gs. vr_verified (try_signatures sample_crypto sample_provider c (gs @ [stray_signature])) \<and>
    \<not> vr_verified (try_signatures sample_crypto sample_provider c (stray_signature # gs))"
  using sample_signed stray_signature_untrusted untrusted_signature_masks[of sample_crypto sample_provider _ _ stray_signature _ stray_leaf "[]"]
  by blast

end
