(* ===== verification/Spec2Isabelle.thy ===== *)
theory Spec2Isabelle
  imports Event_Store Broker_Flow Forward_Proxy Plugin_Registry Auth_Plugins Admission Bridge_Config Card_Signature
begin

text \<open>
  Verification of the agents operator: the Kubernetes operator that turns a workload into a governed agent
  (\<^verbatim>\<open>kagenti-operator\<close>), the sidecar that it injects (\<^verbatim>\<open>authbridge\<close>) and the broker from which
  sidecars obtain third-party tokens (\<^verbatim>\<open>token-broker\<close>).

  \<^bold>\<open>The program.\<close>  A webhook of the operator rewrites the pods of an agent: it adds the sidecar, gives the
  agent's port to it and writes its configuration.  The sidecar then stands on both sides of the agent.  Its reverse
  proxy receives the requests for the agent, runs them through the inbound plugin pipeline and forwards what passes.
  Its forward proxy receives what the agent sends (as a proxy client, in a CONNECT tunnel, or captured by the kernel),
  runs it through the outbound pipeline, and may decrypt TLS connections with certificates that it mints itself.
  Plugins validate tokens, exchange them and record what they did in the events of a session.  The broker runs
  one OAuth flow at a time for a session of a user and caches the tokens it obtained.  The operator finally fetches
  the card that an agent publishes, verifies its signature, and writes the verdict where network policies read it; of
  this last part the verification is modelled and the writing is not.

  \<^bold>\<open>Conventions.\<close>  A theory translates the functions of a package one by one, with their guards and early
  returns in the order of the source and under their names in lower case.  State is passed explicitly.  A Go map is an
  association list whose order is the order of iteration, which the theorems leave open.  Strings and byte slices are
  lists of bytes, times are integers.  An error is a value of a sum or option type and a panic is \<^const>\<open>None\<close>.
  Pointers are modelled as values except where the program depends on sharing: session objects of the broker, subscribers
  of the store and elements of the certificate cache are cells named by numbers.  A mutex-protected method is one
  atomic step; a method that blocks is cut at the points where it blocks.  Logging and metrics counters that no code
  reads are left out.

  \<^bold>\<open>Theories.\<close>
  \<^item> \<^verbatim>\<open>Go_Prelude\<close>: maps, strings, numbers and headers of Go, with their laws in the collections \<^verbatim>\<open>gomap\<close> and
    \<^verbatim>\<open>gostring\<close>.  \<^verbatim>\<open>Sha256\<close>: the hash function and the hexadecimal encoding, computed.
  \<^item> \<^verbatim>\<open>Pipeline_Types\<close>, \<^verbatim>\<open>Pipeline_Run\<close>: \<^verbatim>\<open>authlib/pipeline\<close>.  The context with the operations that plugins
    call on it; construction, Start, the request, response, frame and finish phases, Stop, wrapping and the slot of the
    current pipeline.  The locale \<^verbatim>\<open>plugin_contract\<close> says what a plugin may do to a context and \<^verbatim>\<open>plugin_chain\<close>
    carries the induction over a pipeline; the auth plugins interpret them.
  \<^item> \<^verbatim>\<open>Event_Store\<close>: \<^verbatim>\<open>authlib/session/store.go\<close>, with a step relation over all operations and an invariant.
  \<^item> \<^verbatim>\<open>Cache_Spec\<close>: the locale \<^verbatim>\<open>forgetful_cache\<close>, the contract of every cache, interpreted by the token cache of
    the broker, the shared store and the exchange cache.
  \<^item> \<^verbatim>\<open>Broker_Session\<close>, \<^verbatim>\<open>Broker_Cache\<close>, \<^verbatim>\<open>Broker_Flow\<close>: \<^verbatim>\<open>token-broker/internal\<close>.  The session manager with
    its timers, the token cache, and the OAuth flow whose requests \<^verbatim>\<open>broker_step\<close> interleaves.
  \<^item> \<^verbatim>\<open>Host_Match\<close>, \<^verbatim>\<open>Ttl_Stores\<close>, \<^verbatim>\<open>Auth_Handler\<close>, \<^verbatim>\<open>Auth_Plugins\<close>, \<^verbatim>\<open>Plugin_Registry\<close>:
    \<^verbatim>\<open>authlib/routing\<close>, \<^verbatim>\<open>bypass\<close>, \<^verbatim>\<open>listener/skiphost\<close>, \<^verbatim>\<open>shared\<close>, \<^verbatim>\<open>auth\<close>, \<^verbatim>\<open>placeholder\<close> and
    \<^verbatim>\<open>plugins\<close>.
  \<^item> \<^verbatim>\<open>Bridge_Config\<close>: \<^verbatim>\<open>authlib/config\<close> and \<^verbatim>\<open>authlib/reloader\<close>, the boot configuration and the hot reload.
  \<^item> \<^verbatim>\<open>Sse_Frame\<close>, \<^verbatim>\<open>Listener_Http\<close>, \<^verbatim>\<open>Reverse_Proxy\<close>, \<^verbatim>\<open>Tls_Bridge\<close>, \<^verbatim>\<open>Forward_Proxy\<close>: the listeners of
    \<^verbatim>\<open>authlib/listener\<close> and \<^verbatim>\<open>authlib/tlsbridge\<close>.
  \<^item> \<^verbatim>\<open>Webhook_Config\<close>, \<^verbatim>\<open>Pod_Builder\<close>, \<^verbatim>\<open>Pod_Mutator\<close>, \<^verbatim>\<open>Admission\<close>: \<^verbatim>\<open>kagenti-operator/internal/webhook\<close>.
  \<^item> \<^verbatim>\<open>Card_Json\<close>, \<^verbatim>\<open>Card_Signature\<close>: \<^verbatim>\<open>kagenti-operator/internal/signature\<close>.  The content of an agent card and the
    canonical JSON that is signed, the signer of the agent's pod, and the operator's verification of a signature and
    of its certificate chain with the refreshed trust bundle.

  \<^bold>\<open>What the theorems show.\<close>
  \<^item> Composition (this theory): a request reaches the agent only with a token that the verifier accepted or on a
    bypassed path, and a request of the agent leaves with an exchanged token where its route demands one.
  \<^item> Pipeline: a rejection comes from an enforcing plugin and stops the later ones; observing plugins never block;
    each dispatched plugin is finished exactly once, in reverse order; a failed Start unwinds.
  \<^item> Stores and caches: bounds and consistency in every reachable state, lookups return the latest write or nothing,
    the certificate cache refines a bounded least-recently-used map, cleanups change no lookup.
  \<^item> Broker: at most one flow for a session object in every interleaving, callbacks reach only the session whose state
    they carry, tokens are given only to the owner of a session.
  \<^item> Listeners: relayed event streams keep their events in order, a captured connection is never tunnelled to
    a name that the pipeline did not see, decoding and encoding of frames are inverse on the frames that the reader yields.
  \<^item> Operator: the ports of an injected pod do not collide, the key of the bridge stays out of the agent's containers,
    invoking the webhook again changes nothing, a reload takes effect for both directions or for none.
  \<^item> Agent cards: the signed bytes determine the content of a card exactly, what the signer signs the operator verifies,
    and a verified card carries a signature over its content under a key that a trusted chain binds to one identity.
  Where the code does not do what it says, a theorem states what it does instead (the findings of the manifest).

  \<^bold>\<open>Parameters and bounds.\<close>  Third-party code is an argument: the JWT verifier, the glob and YAML libraries, JSON
  decoding, certificate signing and chain validation, HTTP transports and the Kubernetes API.  What a theorem needs of
  them is a hypothesis, and a witness instantiates it.  No model has fuel that a theorem depends on: loops are
  structural or have a termination proof.  The number of reads in a streaming relay is the length of a list of buffer
  sizes, and the theorem holds for every such list; the search for a free port stops at 65535 as in the source.

  \<^bold>\<open>Not modelled.\<close>  The controllers: AgentCard, with the way it combines a signature, an mTLS identity and a binding into
  a status, the labels it propagates and the network policies; AgentRuntime, client registration, MLflow, Kuadrant,
  Tekton, SPIRE operands, shared trust and bridge CA, which mostly assemble objects for the API server and for the
  services behind it.  The fetching of cards and their verification with sigstore.  The bootstrap of Keycloak and OpenTelemetry
  and the administration clients, which are sequences of HTTP calls.  The gRPC listeners for Envoy, whose messages are
  generated code.  The protocol parsers and the policy and judge plugins (OPA, IBAC, SPARC), which are dominated by
  external documents, policy engines and language models.  The terminal user interface, the demonstration programs,
  the command-line entry points apart from the boot path, and generated code.
\<close>

section \<open>Specification and sample inputs\<close>

definition listener_field :: "(string, json) gomap \<Rightarrow> string \<Rightarrow> string" where
  "listener_field cfg k = (case gm_get (as_object (gm_get cfg ''listener'')) k of Some (JStr s) \<Rightarrow> s | _ \<Rightarrow> '''')"

text \<open>What the decoder of the proxy is relied on for: it finds in a document that the webhook encoded the listener
  addresses that the encoded map holds.\<close>
definition decodes_listener :: "yaml_api \<Rightarrow> (string, string) gomap \<Rightarrow> (string \<Rightarrow> string + bridge_config) \<Rightarrow> bool" where
  "decodes_listener y env parse \<longleftrightarrow> (\<forall>cfg t c. y_marshal y cfg = Some t \<longrightarrow> parse (expand_env env t) = Inr c \<longrightarrow>
     lc_forward_proxy_addr (bc_listener c) = listener_field cfg ''forward_proxy_addr'' \<and>
     lc_transparent_proxy_addr (bc_listener c) = listener_field cfg ''transparent_proxy_addr'')"

text \<open>An encoder that accepts the maps with these two addresses, and the decoder for its only document.\<close>
definition clash_yaml :: yaml_api where
  "clash_yaml = sample_yaml\<lparr>y_marshal := (\<lambda>cfg. if listener_field cfg ''forward_proxy_addr'' = '':8082'' \<and>
     listener_field cfg ''transparent_proxy_addr'' = '''' then Some ''doc'' else None)\<rparr>"

definition clash_parse :: "string \<Rightarrow> string + bridge_config" where
  "clash_parse t = map_sum id (\<lambda>c. c\<lparr>bc_listener := (bc_listener c)\<lparr>lc_forward_proxy_addr := '':8082''\<rparr>\<rparr>) (sample_parse t)"

definition clash_pod_spec :: pod_spec where
  "clash_pod_spec = sample_pod_spec\<lparr>ps_containers := [sample_container ''agent'' [8080]]\<rparr>"

definition clash_injection :: "inject_result \<times> pod_spec \<times> effect list" where
  "clash_injection = inject_proxy_sidecar sample_api clash_yaml CompiledDefaults (new_container_builder (Some CompiledDefaults))
     ''team'' ''agent'' [] empty_namespace_config ModeProxySidecar MTLSModePermissive ''disabled''
     EgressEnforcementNone True build_required_volumes clash_pod_spec"

text \<open>The sample request, as it arrives at the proxy.\<close>
definition sample_inbound :: http_request where
  "sample_inbound = \<lparr>rq_method = ''POST'', rq_scheme = [], rq_url_host = [], rq_host = ''agent.ns'', rq_path = ''/mcp'',
     rq_headers = hdr_set ''Authorization'' (bearer ''real'') [], rq_body = None, rq_tls = None\<rparr>"

definition sample_rv :: "bridge_world rv_server" where
  "sample_rv = \<lparr>rv_pipeline = chain [jwt_validation sample_jwt] [], rv_shared = True\<rparr>"

text \<open>A proxy with token-exchange alone, and the sample request on its way out.\<close>
definition sample_fw :: "bridge_world fw_server" where
  "sample_fw = \<lparr>fw_pipeline = chain [token_exchange sample_te] [], fw_shared = True, fw_skip_hosts = [], fw_bridge = None\<rparr>"

section \<open>Lemmas\<close>

lemma gm_get_put_or_del:
  "k' \<noteq> k \<Longrightarrow> gm_get (if b then gm_put k v m else gm_del k m) k' = gm_get m k'"
  "k' \<noteq> k \<Longrightarrow> gm_get (if b then gm_put k v m else m) k' = gm_get m k'"
  by simp_all

lemma per_agent_listener:
  assumes "overrides \<noteq> []"
  shows "gm_get (per_agent_config platform mode (Some ns) overrides mtls bridge spire cfg0) ''listener'' =
     Some (JObj (fold (\<lambda>(k, v). gm_put k (JStr v)) overrides (as_object (gm_get cfg0 ''listener''))))"
proof -
  have "''listener'' \<noteq> ''pipeline''" "''listener'' \<noteq> ''mode''" "''listener'' \<noteq> ''mtls''" "''listener'' \<noteq> ''tls_bridge''" "''listener'' \<noteq> ''spiffe''"
    by simp_all
  then show ?thesis
    using assms unfolding per_agent_config_def Let_def option.case
    by (simp only: gm_get_put_or_del if_False gm_get_put fun_upd_same fun_upd_other simp_thms)
qed

lemma listener_field_override:
  assumes "listener_field cfg0 ''transparent_proxy_addr'' = ''''"
  shows "listener_field (per_agent_config platform mode (Some ns) (listener_overrides i j k) mtls bridge spire cfg0) ''forward_proxy_addr'' = '':'' @ fmt_int k"
    and "listener_field (per_agent_config platform mode (Some ns) (listener_overrides i j k) mtls bridge spire cfg0) ''transparent_proxy_addr'' = ''''"
  using assms by (simp_all add: listener_field_def per_agent_listener listener_overrides_def as_object_def)

lemma ensure_per_agent_config_map_Inr:
  assumes "ensure_per_agent_config_map api y platform ns cr mode nsc overrides mtls bridge spire = (Inr cm, es)"
  shows "\<exists>cfg0 t. (if nc_authbridge_runtime_yaml nsc = '''' then Some [] else
      case y_map y (nc_authbridge_runtime_yaml nsc) of None \<Rightarrow> Some [] | Some m \<Rightarrow> m) = Some cfg0 \<and>
     y_marshal y (per_agent_config platform mode (Some nsc) overrides mtls bridge spire cfg0) = Some t \<and>
     (\<exists>a. es = [AppliedConfigMap a] \<and> am_name a = cm \<and> am_data a = [(''config.yaml'', t)])"
  using assms by (auto simp: ensure_per_agent_config_map_def apply_config_map_def Let_def split: option.splits if_splits)

lemma assign_ports_8080:
  assumes "assign_ports cs = Inr (i, j, k)" "agent_port cs = 8080" "8081 \<notin> set (used_ports cs)" "8082 \<notin> set (used_ports cs)"
  shows "k = 8082"
proof -
  note a = assign_ports_Inr [OF assms(1)]
  have i: "i = 8080" using a(1) assms(2) by simp
  have w: "wrap32 (8080 + 1) = 8081" by (simp add: wrap32_def)
  have "8081 \<le> j" using a(2) w unfolding i by simp
  moreover have "\<not> 8081 < j" using a(6) [of 8081] assms(3) w i by force
  ultimately have j: "j = 8081" by simp
  have "8081 \<le> k" "k \<noteq> 8081" using a(7,10) j by auto
  moreover have "\<not> 8082 < k" using a(12) [of 8082] assms(4) i j by force
  ultimately show ?thesis by simp
qed

lemma fmt_8082: "fmt_int 8082 = ''8082''"
  by (simp add: fmt_int_def itoa.simps, code_simp)


lemma clash_pod_simps:
  "used_ports (ps_containers clash_pod_spec) = [8080]" "agent_port (ps_containers clash_pod_spec) = 8080"
  by (simp_all add: clash_pod_spec_def sample_container_def AuthBridgeProxyContainerName_def used_ports_def tcp_port_def agent_port_def)

lemma clash_injection_ok: "\<exists>p' a. clash_injection = (Mutated True, p', [AppliedConfigMap a]) \<and> am_data a = [(''config.yaml'', ''doc'')]"
proof -
  obtain n f where a: "assign_ports (ps_containers clash_pod_spec) = Inr (8080, n, f)"
    using assign_ports_exists [of "ps_containers clash_pod_spec"] by (auto simp: clash_pod_simps)
  have f: "f = 8082" using assign_ports_8080 [OF a] by (simp add: clash_pod_simps)
  have z: "listener_field [] ''transparent_proxy_addr'' = ''''" by (simp add: listener_field_def as_object_def)
  have "\<exists>cm a. ensure_per_agent_config_map sample_api clash_yaml CompiledDefaults ''team'' ''agent'' ModeProxySidecar empty_namespace_config
      (listener_overrides 8080 n 8082) MTLSModePermissive ''disabled'' True = (Inr cm, [AppliedConfigMap a]) \<and> am_data a = [(''config.yaml'', ''doc'')]"
    using listener_field_override [OF z, of CompiledDefaults ModeProxySidecar empty_namespace_config 8080 n 8082]
    by (simp add: ensure_per_agent_config_map_def empty_namespace_config_def clash_yaml_def apply_config_map_def sample_api_def fmt_8082)
  then show ?thesis
    unfolding clash_injection_def by (auto simp: inject_proxy_sidecar_def Let_def a f)
qed


section \<open>The inbound path as a whole\<close>

text \<open>What the reverse proxy let through was accepted by the first plugin of its pipeline.\<close>
lemma rv_sent_first:
  assumes "rv_handle_request ce clock srv backend bufs rq st = Some (reply, sent, c, st')" "rq' \<in> set sent"
    and "pp_plugins (rv_pipeline srv) = q # qs" "policy_at (pp_policies (rv_pipeline srv)) 0 = ErrorPolicyEnforce"
  shows "\<exists>c1 c2 c3 w3 w2 rq1. pl_on_request q c1 (lw_world st) = (Continue, c3, w3) \<and>
     c_headers c1 = rq_headers rq \<and> c_path c1 = rq_path rq \<and> c_host c1 = rq_host rq \<and>
     run_loop ce (pp_policies (rv_pipeline srv)) (enumerate 1 qs) (clear_current c3) w3 = (Continue, c2, w2) \<and>
     rq_headers rq1 = rq_headers rq \<and> rq' = forwarded_request (rq_headers rq1) rq1 c2"
proof -
  let ?p = "rv_pipeline srv"
  define c0 where "c0 = (new_context Inbound (rq_method rq) (request_scheme rq) (rq_host rq) (rq_path rq) (rq_headers rq) (rv_shared srv)
    (clock (lw_world st)))\<lparr>c_tls := map_option (\<lambda>t. map fst (cs_peers t)) (rq_tls rq)\<rparr>"
  from assms(1) obtain c' st1 where
    ex: "rv_exchange ce clock ?p backend bufs rq c0 (st\<lparr>lw_metrics := count_accept rq (lw_metrics st)\<rparr>) = Some (reply, sent, c', st1)"
    by (auto simp: rv_handle_request_def c0_def Let_def bind_eq_Some_conv split: prod.splits)
  from rv_exchange_sent [OF ex] assms(2) obtain rq1 c1 c2 w2 where
    b: "buffer_request ?p rq c0 = Inr (rq1, c1)" and r: "run ce ?p c1 (lw_world st) = (Continue, c2, w2)"
    and s: "rq' = forwarded_request (c_headers c1) rq1 c2" by auto
  note f = buffer_request_frame [OF b]
  have c0: "c_headers c0 = rq_headers rq" "c_path c0 = rq_path rq" "c_host c0 = rq_host rq"
    by (simp_all add: c0_def new_context_def)
  from run_first_enforced [OF r assms(3,4)] obtain c3 w3 where
    "pl_on_request q (request_context 0 q ErrorPolicyEnforce c1) (lw_world st) = (Continue, c3, w3)"
    "run_loop ce (pp_policies ?p) (enumerate 1 qs) (clear_current c3) w3 = (Continue, c2, w2)" by blast
  then show ?thesis using f c0 s
    by (intro exI [of _ "request_context 0 q ErrorPolicyEnforce c1"] exI [of _ c2] exI [of _ c3] exI [of _ w3] exI [of _ w2] exI [of _ rq1]) simp
qed

text \<open>Claim C1. The agent is reached only by verified callers: when jwt-validation is the first plugin of the inbound
  pipeline and enforced, a request that the reverse proxy forwards had a path on the bypass list, or a bearer token
  that the verifier accepted for a non-empty list of audiences. In placeholder mode, with plugins behind it that
  leave the credential alone, what the agent receives in that case is an opaque handle and not the token of the caller.\<close>
theorem agent_reached_only_verified:
  assumes "rv_handle_request ce clock srv backend bufs rq st = Some (reply, sent, c, st')" "rq' \<in> set sent"
    and "pp_plugins (rv_pipeline srv) = jwt_validation p # qs" "policy_at (pp_policies (rv_pipeline srv)) 0 = ErrorPolicyEnforce"
    and "jp_inner p = Some cfg" "\<And>ps. ac_bypass cfg = Some ps \<Longrightarrow> \<not> bypass_match ps (rq_path rq)"
  shows "(\<exists>verify cl audiences. ac_verifier cfg = Some verify \<and> audiences \<noteq> [] \<and>
       verify (extract_bearer (hdr_get (rq_headers rq) ''Authorization'')) audiences = Inr cl) \<and>
     (jv_placeholder_mode (jp_cfg p) \<longrightarrow>
      (\<forall>q \<in> set qs. \<forall>c w. hdr_get (c_headers (fst (snd (pl_on_request q c w)))) ''Authorization'' = hdr_get (c_headers c) ''Authorization'') \<longrightarrow>
      is_placeholder (extract_bearer (hdr_get (rq_headers rq') ''Authorization'')))"
proof -
  have h: "pl_on_request (jwt_validation p) = jwt_on_request p" by (simp add: jwt_validation_def)
  from rv_sent_first [OF assms(1-4), unfolded h] obtain c1 c2 c3 w3 w2 rq1 where
    j: "jwt_on_request p c1 (lw_world st) = (Continue, c3, w3)" and
    c1: "c_headers c1 = rq_headers rq" "c_path c1 = rq_path rq" and
    rl: "run_loop ce (pp_policies (rv_pipeline srv)) (enumerate 1 qs) (clear_current c3) w3 = (Continue, c2, w2)" and
    rq': "rq' = forwarded_request (rq_headers rq1) rq1 c2"
    by blast
  have nb: "\<And>ps. ac_bypass cfg = Some ps \<Longrightarrow> \<not> bypass_match ps (c_path c1)" using assms(6) c1(2) by simp
  from jwt_admitted [OF j assms(5) nb] obtain cl s where
    acc: "jwt_accept p cl c1 ((lw_world st)\<lparr>bw_inbound := s\<rparr>) = (Continue, c3, w3)" by blast
  have ph: "is_placeholder (extract_bearer (hdr_get (c_headers c3) ''Authorization''))" if "jv_placeholder_mode (jp_cfg p)"
    using jwt_accept_minted [OF acc that] by (auto simp: is_placeholder_new)
  have "hdr_get (rq_headers rq') ''Authorization'' = hdr_get (c_headers c3) ''Authorization''"
    if "\<forall>q \<in> set qs. \<forall>c w. hdr_get (c_headers (fst (snd (pl_on_request q c w)))) ''Authorization'' = hdr_get (c_headers c) ''Authorization''"
  proof -
    have s: "snd ` set (enumerate 1 qs) = set qs" by (metis list.set_map map_snd_enumerate)
    have "hdr_get (c_headers c2) ''Authorization'' = hdr_get (c_headers (clear_current c3)) ''Authorization''"
      by (rule run_loop_header [OF _ rl]) (use that s in blast)
    then show ?thesis by (simp add: rq' forwarded_auth)
  qed
  then show ?thesis using ph jwt_verified [OF j assms(5) nb] c1(1) by auto
qed

lemma sample_jwt_admits:
  assumes "c_path c = ''/mcp''" "hdr_get (c_headers c) ''Authorization'' = bearer ''real''" "c_shared c"
  shows "fst (jwt_on_request sample_jwt c sample_world) = Continue"
  using assms
  by (simp add: jwt_on_request_def sample_jwt_def sample_auth_def sample_world_def sample_state_def
      sample_jwt_config_def sample_verifier_def handle_inbound_def sample_not_bypassed jwt_accept_def jwt_mint_def
      inbound_allow_def Let_def)

lemma run_one:
  assumes "pl_on_request q (request_context 0 q ErrorPolicyEnforce c) w = (Continue, c3, w3)"
  shows "run (\<lambda>_. False) (chain [q] []) c w = (Continue, clear_current c3, w3)"
  using assms
  by (simp add: run_def chain_def policy_at_def dispatch_request_def request_context_def settle_def Let_def)

text \<open>An agent that is down: the request is forwarded, and the caller gets a 502.\<close>
lemma sample_rv_reached:
  "\<exists>reply rq' c st'. rv_handle_request (\<lambda>_. False) (\<lambda>_. 0) sample_rv (\<lambda>_ w. (Inl ''down'', w)) [] sample_inbound
     \<lparr>lw_store = None, lw_metrics = None, lw_world = sample_world\<rparr> = Some (reply, [rq'], c, st')"
proof -
  let ?q = "jwt_validation sample_jwt"
  define c0 where "c0 = (new_context Inbound (rq_method sample_inbound) (request_scheme sample_inbound) (rq_host sample_inbound)
    (rq_path sample_inbound) (rq_headers sample_inbound) True 0)\<lparr>c_tls := None\<rparr>"
  define c1 where "c1 = request_context 0 ?q ErrorPolicyEnforce c0"
  have "fst (jwt_on_request sample_jwt c1 sample_world) = Continue"
    by (rule sample_jwt_admits) (simp_all add: c1_def c0_def new_context_def sample_inbound_def)
  then obtain c3 w3 where j: "jwt_on_request sample_jwt c1 sample_world = (Continue, c3, w3)" by (metis prod.collapse)
  have "framework_fields c3 = framework_fields c1" using jwt_on_request_keeps [of sample_jwt c1 sample_world] j by simp
  then have d: "c_dispatched c3 = [0]" "\<not> c_finished c3"
    by (simp_all add: framework_fields_def c1_def c0_def request_context_def set_current_def new_context_def Let_def)
  have h: "pl_on_request ?q (request_context 0 ?q ErrorPolicyEnforce c0) sample_world = (Continue, c3, w3)"
    using j by (simp add: jwt_validation_def c1_def)
  have r: "run (\<lambda>_. False) (rv_pipeline sample_rv) c0 sample_world = (Continue, clear_current c3, w3)"
    using run_one [OF h] by (simp add: sample_rv_def)
  have b: "buffer_request (rv_pipeline sample_rv) sample_inbound c0 = Inr (sample_inbound, c0)"
    by (simp add: buffer_request_def sample_inbound_def)
  define st where "st = \<lparr>lw_store = None :: store option, lw_metrics = None, lw_world = sample_world\<rparr>"
  obtain rq2 where rq2: "rq2 = forwarded_request (c_headers c0) sample_inbound (clear_current c3)" by simp
  have n: "record_inbound_request 0 None (clear_current c3) None = Some None"
    by (simp add: record_inbound_request_def append_event_def)
  have ex: "rv_exchange (\<lambda>_. False) (\<lambda>_. 0) (rv_pipeline sample_rv) (\<lambda>_ w. (Inl ''down'', w)) [] sample_inbound c0 st =
     Some (error_reply 502 ''bad gateway'', [rq2], clear_current c3, st\<lparr>lw_world := w3\<rparr>)"
    using b r n by (simp add: rv_exchange_def st_def rq2 serve_proxy_def error_handler_def event_tls_of_def sample_inbound_def)
  have f: "\<exists>c'. run_finish (\<lambda>_. 0) (rv_pipeline sample_rv) oc (clear_current c3) w3 = Some (c', w3)" for oc
    using d by (simp add: run_finish_def clear_current_def sample_rv_def chain_def dispatch_finish_def jwt_validation_def Let_def)
  have m: "st\<lparr>lw_metrics := count_accept sample_inbound (lw_metrics st)\<rparr> = st" by (simp add: st_def count_accept_def)
  have t: "rq_tls sample_inbound = None" "rv_shared sample_rv" by (simp_all add: sample_inbound_def sample_rv_def)
  show ?thesis
    using ex f [of "outcome_from_context (clear_current c3)"] m t
    by (auto simp: rv_handle_request_def Let_def c0_def st_def)
qed

theorem agent_reached_only_verified_witness:
  "\<exists>reply rq' c st'. rv_handle_request (\<lambda>_. False) (\<lambda>_. 0) sample_rv (\<lambda>_ w. (Inl ''down'', w)) [] sample_inbound
     \<lparr>lw_store = None, lw_metrics = None, lw_world = sample_world\<rparr> = Some (reply, [rq'], c, st') \<and>
     is_placeholder (extract_bearer (hdr_get (rq_headers rq') ''Authorization''))"
proof -
  obtain reply rq' c st' where
    r: "rv_handle_request (\<lambda>_. False) (\<lambda>_. 0) sample_rv (\<lambda>_ w. (Inl ''down'', w)) [] sample_inbound
     \<lparr>lw_store = None, lw_metrics = None, lw_world = sample_world\<rparr> = Some (reply, [rq'], c, st')"
    using sample_rv_reached by blast
  have "is_placeholder (extract_bearer (hdr_get (rq_headers rq') ''Authorization''))"
    using agent_reached_only_verified [OF r, of rq' sample_jwt "[]" sample_auth] sample_not_bypassed
    by (simp add: sample_rv_def chain_def policy_at_def sample_jwt_def sample_auth_def sample_inbound_def sample_jwt_config_def)
  then show ?thesis using r by blast
qed

section \<open>The outbound path as a whole\<close>

lemma te_subject_cong: "c_headers c = c_headers d \<Longrightarrow> c_shared c = c_shared d \<Longrightarrow> te_subject p c w = te_subject p d w"
  by (simp add: te_subject_def resolve_placeholder_def Let_def)

text \<open>What the forward proxy sent was accepted by the first plugin of its pipeline.\<close>
lemma fw_sent_first:
  assumes "serve_outbound ce clock srv send flush b rq st = Some (reply, out, st')" "Sent k rq' \<in> set out"
    and "match_pattern (fw_skip_hosts srv) (rq_host rq) = None"
    and "pp_plugins (fw_pipeline srv) = q # qs" "policy_at (pp_policies (fw_pipeline srv)) 0 = ErrorPolicyEnforce"
  shows "\<exists>c1 c2 c3 w3 w2 rq1. pl_on_request q c1 (lw_world st) = (Continue, c3, w3) \<and>
     c_headers c1 = rq_headers rq \<and> c_host c1 = rq_host rq \<and> c_shared c1 = fw_shared srv \<and>
     run_loop ce (pp_policies (fw_pipeline srv)) (enumerate 1 qs) (clear_current c3) w3 = (Continue, c2, w2) \<and>
     rq_headers rq1 = rq_headers rq \<and> rq' = outbound_request (rq_headers rq1) rq1 c2"
proof -
  let ?p = "fw_pipeline srv" and ?c0 = "outbound_context srv rq (clock (lw_world st))"
  from assms(1,3) obtain c st1 where
    g: "serve_gated ce clock srv send flush b rq ?c0 st = Some (reply, out, c, st1)"
    by (auto simp: serve_outbound_def Let_def bind_eq_Some_conv split: prod.splits)
  from serve_gated_out [OF g] assms(2) obtain rq1 c1 c2 w2 where
    b: "buffer_request ?p rq ?c0 = Inr (rq1, c1)" and
    r: "run ce ?p (with_active_view (clock (lw_world st)) (lw_store st) c1) (lw_world st) = (Continue, c2, w2)" and
    s: "rq' = outbound_request (c_headers c1) rq1 c2" by auto
  obtain v where v: "with_active_view (clock (lw_world st)) (lw_store st) c1 = c1\<lparr>c_session := v\<rparr>" using with_active_view_eq by blast
  note f = buffer_request_frame [OF b]
  have sh: "c_shared c1 = fw_shared srv" using b by (auto simp: buffer_request_def split: option.splits if_splits sum.splits)
  from run_first_enforced [OF r [unfolded v] assms(4,5)] obtain c3 w3 where
    "pl_on_request q (request_context 0 q ErrorPolicyEnforce (c1\<lparr>c_session := v\<rparr>)) (lw_world st) = (Continue, c3, w3)"
    "run_loop ce (pp_policies ?p) (enumerate 1 qs) (clear_current c3) w3 = (Continue, c2, w2)" by blast
  then show ?thesis using f s sh
    by (intro exI [of _ "request_context 0 q ErrorPolicyEnforce (c1\<lparr>c_session := v\<rparr>)"] exI [of _ c2] exI [of _ c3] exI [of _ w3]
        exI [of _ w2] exI [of _ rq1]) simp
qed

text \<open>Claim C2. No credential of the agent leaves on an exchange route: with token-exchange first and enforced in the
  outbound pipeline, plugins behind it that leave the credential alone, and no policy for anonymous requests, a
  request to a routed host that is not on the skip list is sent only with a token that was cached for its subject
  token and the audience of the route, or that the token endpoint issued for them, or, when it carried none, that
  the client-credentials grant returned; in placeholder mode the subject token is the one behind the handle.\<close>
theorem egress_token_exchanged:
  fixes rq :: http_request
  assumes "serve_outbound ce clock srv send flush b rq st = Some (reply, out, st')" "Sent k rq' \<in> set out"
    and "match_pattern (fw_skip_hosts srv) (rq_host rq) = None"
    and "pp_plugins (fw_pipeline srv) = token_exchange p # qs" "policy_at (pp_policies (fw_pipeline srv)) 0 = ErrorPolicyEnforce"
    and "\<forall>q \<in> set qs. \<forall>c w. hdr_get (c_headers (fst (snd (pl_on_request q c w)))) ''Authorization'' = hdr_get (c_headers c) ''Authorization''"
    and "te_inner p = Some cfg" "ac_router cfg = Some ro" "resolve ro (rq_host rq) = Some rr" "\<not> rr_passthrough rr"
    and "ac_exchanger cfg = Some cl" "ac_no_token_policy cfg \<noteq> ''allow''"
  defines "w \<equiv> lw_world st" and "subject \<equiv> te_subject p (outbound_context srv rq 0) (lw_world st)"
  shows "\<exists>token audience. hdr_get (rq_headers rq') ''Authorization'' = bearer token \<and> audience = route_audience cfg rr (rq_host rq) \<and>
    (if subject = ''''
     then ac_no_token_policy cfg = ''client-credentials'' \<and>
       (\<exists>resp. client_credentials cl (bw_now w) audience (rr_scopes rr) = Inr resp \<and> ep_access_token resp = token)
     else (\<exists>cache. as_cache (bw_outbound w) = Some cache \<and> exchange_get (bw_now w) subject audience cache = Some token) \<or>
       (\<exists>resp. exchange cl (bw_now w) \<lparr>er_subject_token = subject, er_audience = audience,
         er_scopes = rr_scopes rr, er_actor_token = '''', er_token_endpoint = rr_token_endpoint rr\<rparr> = Inr resp \<and>
         ep_access_token resp = token))"
proof -
  have h: "pl_on_request (token_exchange p) = te_on_request p" by (simp add: token_exchange_def)
  from fw_sent_first [OF assms(1-5), unfolded h] obtain c1 c2 c3 w3 w2 rq1 where
    t: "te_on_request p c1 w = (Continue, c3, w3)" and
    c1: "c_headers c1 = rq_headers rq" "c_host c1 = rq_host rq" "c_shared c1 = fw_shared srv" and
    rl: "run_loop ce (pp_policies (fw_pipeline srv)) (enumerate 1 qs) (clear_current c3) w3 = (Continue, c2, w2)" and
    rq': "rq' = outbound_request (rq_headers rq1) rq1 c2"
    unfolding w_def by blast
  have sub: "te_subject p c1 w = subject" unfolding subject_def w_def by (rule te_subject_cong) (simp_all add: c1)
  note ex = te_exchanged [OF t assms(7,8), unfolded c1(2) sub, OF assms(9-12)]
  then obtain token where tk: "hdr_get (c_headers c3) ''Authorization'' = bearer token" by blast
  have s: "snd ` set (enumerate 1 qs) = set qs" by (metis list.set_map map_snd_enumerate)
  have "hdr_get (c_headers c2) ''Authorization'' = hdr_get (c_headers (clear_current c3)) ''Authorization''"
    by (rule run_loop_header [OF _ rl]) (use assms(6) s in blast)
  then have "hdr_get (rq_headers rq') ''Authorization'' = hdr_get (c_headers c3) ''Authorization''"
    unfolding rq' outbound_auth by (simp add: tk) (simp add: bearer_def)
  then show ?thesis using ex by simp
qed

lemma sample_te_exchanges:
  assumes "c_host c = ''agent.ns''" "hdr_get (c_headers c) ''Authorization'' = bearer ''real''"
  shows "fst (te_on_request sample_te c sample_world) = Continue"
  using assms
  by (simp add: te_on_request_def sample_te_def sample_auth_def sample_subject handle_outbound_def resolve_def
      exchange_subject_def exchange_def do_token_request_def max_reply_bytes_def sample_world_def sample_state_def
      te_apply_def Let_def)

lemma sample_fw_sends:
  "\<exists>reply rq' st'. serve_outbound (\<lambda>_. False) (\<lambda>_. 0) sample_fw (\<lambda>_ _ w. (Inl ''down'', w)) None False sample_inbound
     \<lparr>lw_store = None, lw_metrics = None, lw_world = sample_world\<rparr> = Some (reply, [Sent MeshClient rq'], st')"
proof -
  let ?q = "token_exchange sample_te"
  define c0 where "c0 = outbound_context sample_fw sample_inbound 0"
  define c1 where "c1 = request_context 0 ?q ErrorPolicyEnforce c0"
  have "fst (te_on_request sample_te c1 sample_world) = Continue"
    by (rule sample_te_exchanges) (simp_all add: c1_def c0_def sample_inbound_def)
  then obtain c3 w3 where j: "te_on_request sample_te c1 sample_world = (Continue, c3, w3)" by (metis prod.collapse)
  have "framework_fields c3 = framework_fields c1" using te_on_request_keeps [of sample_te c1 sample_world] j by simp
  then have d: "c_dispatched c3 = [0]" "\<not> c_finished c3"
    by (simp_all add: framework_fields_def c1_def c0_def request_context_def set_current_def outbound_context_def new_context_def Let_def)
  have h: "pl_on_request ?q (request_context 0 ?q ErrorPolicyEnforce c0) sample_world = (Continue, c3, w3)"
    using j by (simp add: token_exchange_def c1_def)
  have r: "run (\<lambda>_. False) (fw_pipeline sample_fw) c0 sample_world = (Continue, clear_current c3, w3)"
    using run_one [OF h] by (simp add: sample_fw_def)
  have b: "buffer_request (fw_pipeline sample_fw) sample_inbound c0 = Inr (sample_inbound, c0)"
    by (simp add: buffer_request_def sample_inbound_def)
  define st where "st = \<lparr>lw_store = None :: store option, lw_metrics = None, lw_world = sample_world\<rparr>"
  define rq2 where "rq2 = outbound_request (c_headers c0) sample_inbound (clear_current c3)"
  have n: "record_outbound_request 0 (clear_current c3) None = Some None"
    by (simp add: record_outbound_request_def append_observable_def append_event_def)
  have k: "client_for sample_fw False = MeshClient" by (simp add: client_for_def)
  have ex: "serve_gated (\<lambda>_. False) (\<lambda>_. 0) sample_fw (\<lambda>_ _ w. (Inl ''down'', w)) None False sample_inbound c0 st =
     Some (error_reply 502 ''bad gateway'', [Sent MeshClient rq2], clear_current c3, st\<lparr>lw_world := w3\<rparr>)"
    using b r n k by (simp add: serve_gated_def st_def rq2_def with_active_view_def)
  have f: "\<exists>c'. run_finish (\<lambda>_. 0) (fw_pipeline sample_fw) oc (clear_current c3) w3 = Some (c', w3)" for oc
    using d by (simp add: run_finish_def clear_current_def sample_fw_def chain_def dispatch_finish_def token_exchange_def Let_def)
  have m: "match_pattern (fw_skip_hosts sample_fw) (rq_host sample_inbound) = None" by (simp add: match_pattern_def sample_fw_def)
  show ?thesis
    using ex f [of "outcome_from_context (clear_current c3)"] m
    by (auto simp: serve_outbound_def Let_def c0_def st_def)
qed

theorem egress_token_exchanged_witness:
  "\<exists>reply rq' st'. serve_outbound (\<lambda>_. False) (\<lambda>_. 0) sample_fw (\<lambda>_ _ w. (Inl ''down'', w)) None False sample_inbound
     \<lparr>lw_store = None, lw_metrics = None, lw_world = sample_world\<rparr> = Some (reply, [Sent MeshClient rq'], st') \<and>
     hdr_get (rq_headers rq') ''Authorization'' = bearer ''new''"
proof -
  obtain reply rq' st' where
    r: "serve_outbound (\<lambda>_. False) (\<lambda>_. 0) sample_fw (\<lambda>_ _ w. (Inl ''down'', w)) None False sample_inbound
     \<lparr>lw_store = None, lw_metrics = None, lw_world = sample_world\<rparr> = Some (reply, [Sent MeshClient rq'], st')"
    using sample_fw_sends by blast
  let ?rr = "\<lparr>rr_matched = False, rr_audience = [], rr_scopes = [], rr_token_endpoint = [], rr_passthrough = False\<rparr>"
  have sub: "te_subject sample_te (outbound_context sample_fw sample_inbound 0) sample_world = ''real''"
    by (simp add: sample_inbound_def te_subject_def Let_def is_placeholder_def placeholder_prefix_def)
  have rs: "resolve (the (ac_router sample_auth)) (rq_host sample_inbound) = Some ?rr" by (simp add: resolve_def sample_auth_def)
  have "hdr_get (rq_headers rq') ''Authorization'' = bearer ''new''"
    using egress_token_exchanged [OF r, of MeshClient rq' sample_te "[]" sample_auth "the (ac_router sample_auth)" ?rr "the (ac_exchanger sample_auth)"] rs
    unfolding lworld.select_convs sub
    by (auto simp: sample_te_def sample_auth_def sample_world_def sample_state_def exchange_def do_token_request_def
        max_reply_bytes_def sample_fw_def chain_def policy_at_def match_pattern_def)
  then show ?thesis using r by blast
qed

end
